theory Spec2Isabelle
  imports Main
begin

section \<open>Python values, errors and list access\<close>

text \<open>
  The sources are Python 3 (\<^verbatim>\<open>super().__init__()\<close> is used throughout). Script-facing
  functions receive dynamically typed arguments; the values that matter here are
  \<^verbatim>\<open>None\<close>, booleans, integers and strings. In Python \<^verbatim>\<open>bool\<close> is a subclass of
  \<^verbatim>\<open>int\<close>, so \<^verbatim>\<open>isinstance(True, int)\<close> holds and \<^verbatim>\<open>True\<close> counts as 1.
\<close>

datatype pyval = PyNone | PyBool bool | PyInt int | PyStr string

datatype error =
  TypeError | ValueError | IndexError | AttributeError | FileNotFoundError | JSONDecodeError

fun isinstance_int :: "pyval \<Rightarrow> bool" where
  "isinstance_int (PyInt n) = True"
| "isinstance_int (PyBool b) = True"
| "isinstance_int PyNone = False"
| "isinstance_int (PyStr s) = False"

fun int_of :: "pyval \<Rightarrow> int" where
  "int_of (PyInt n) = n"
| "int_of (PyBool b) = (if b then 1 else 0)"
| "int_of PyNone = 0"
| "int_of (PyStr s) = 0"

text \<open>\<^verbatim>\<open>xs[i]\<close>: a negative index counts from the end, anything else out of range raises.\<close>

definition py_index :: "'a list \<Rightarrow> int \<Rightarrow> 'a option" where
  "py_index xs i =
     (if 0 \<le> i \<and> i < int (length xs) then Some (xs ! nat i)
      else if i < 0 \<and> - int (length xs) \<le> i then Some (xs ! nat (int (length xs) + i))
      else None)"

text \<open>\<^verbatim>\<open>s.split('.')\<close>: never the empty list; the empty string gives one empty part.\<close>

fun split_dot :: "string \<Rightarrow> string list" where
  "split_dot [] = [[]]"
| "split_dot (c # cs) =
     (if c = CHR ''.'' then [] # split_dot cs
      else (c # hd (split_dot cs)) # tl (split_dot cs))"

text \<open>\<^verbatim>\<open>str(i)\<close> for a non-negative integer: its decimal digits.\<close>

definition digit_char :: "nat \<Rightarrow> char" where
  "digit_char d =
     (if d = 0 then CHR ''0'' else if d = 1 then CHR ''1'' else if d = 2 then CHR ''2''
      else if d = 3 then CHR ''3'' else if d = 4 then CHR ''4'' else if d = 5 then CHR ''5''
      else if d = 6 then CHR ''6'' else if d = 7 then CHR ''7'' else if d = 8 then CHR ''8''
      else CHR ''9'')"

function str_nat :: "nat \<Rightarrow> string" where
  "str_nat n = (if n < 10 then [digit_char n] else str_nat (n div 10) @ [digit_char (n mod 10)])"
  by pat_completeness auto
termination
  by (relation "measure id") auto

declare str_nat.simps [simp del]


section \<open>The model tree (uiView.ViewModel as used by stackModel.py and stackManager.py)\<close>

text \<open>
  Models are Python objects: they are compared by identity, shared between lists, and
  mutated in place. They live in a store indexed by object identity. A model carries its
  \<^verbatim>\<open>type\<close>, its \<^verbatim>\<open>properties["name"]\<close>, the \<^verbatim>\<open>parent\<close> reference, the ordered
  \<^verbatim>\<open>childModels\<close>, the \<^verbatim>\<open>handlers\<close> dictionary and the \<^verbatim>\<open>didSetDown\<close> flag.
\<close>

type_synonym mid = nat

record ViewModel =
  mtype :: string
  name :: string
  parent :: "mid option"
  childModels :: "mid list"
  handlers :: "(string \<times> string) list"
  didSetDown :: bool

type_synonym mstore = "mid \<Rightarrow> ViewModel"


subsection \<open>stackModel.py: \<^verbatim>\<open>StackModel.GetModelFromPath\<close>\<close>

text \<open>
  \<^verbatim>\<open>
  def GetModelFromPath(self, path):
      parts = path.split('.')
      m = self
      for p in parts:
          found = False
          for c in m.childModels:
              if c.properties['name'] == p:
                  m = c; found = True; break
          if not found:
              return None
      return m
  \<close>
  The inner loop is the first child whose name equals the part; the outer loop walks the
  parts.
\<close>

fun GetModelFromPath_parts :: "mstore \<Rightarrow> mid \<Rightarrow> string list \<Rightarrow> mid option" where
  "GetModelFromPath_parts ms m [] = Some m"
| "GetModelFromPath_parts ms m (p # ps) =
     (case find (\<lambda>c. name (ms c) = p) (childModels (ms m)) of
        None \<Rightarrow> None
      | Some c \<Rightarrow> GetModelFromPath_parts ms c ps)"

definition GetModelFromPath :: "mstore \<Rightarrow> mid \<Rightarrow> string \<Rightarrow> mid option" where
  "GetModelFromPath ms self path = GetModelFromPath_parts ms self (split_dot path)"

text \<open>
  The relation the function computes: \<open>descends ms m ps m'\<close> when \<open>m'\<close> is reached from
  \<open>m\<close> by following, for each part in turn, the first child with that name: the child
  \<open>c\<close> has the name, and none of the children listed before it (\<open>pre\<close>) has.
\<close>

inductive descends :: "mstore \<Rightarrow> mid \<Rightarrow> string list \<Rightarrow> mid \<Rightarrow> bool" where
  descends_here: "descends ms m [] m"
| descends_child:
    "childModels (ms m) = pre @ c # post \<Longrightarrow> p \<notin> set (map (\<lambda>x. name (ms x)) pre)
     \<Longrightarrow> name (ms c) = p \<Longrightarrow> descends ms c ps m'
     \<Longrightarrow> descends ms m (p # ps) m'"


subsection \<open>stackModel.py: \<^verbatim>\<open>Stack.card_with_number\<close>\<close>

text \<open>
  \<^verbatim>\<open>
  def card_with_number(self, number):
      model = self._model
      if model.didSetDown: return None
      if not isinstance(number, int):
          raise TypeError("card_with_number(): number is not an int")
      if number < 1 or number > len(model.childModels):
          raise ValueError("card_with_number(): number is out of bounds")
      return model.childModels[number-1].GetProxy()
  \<close>
\<close>

text \<open>
  Modelled from the spec: \<^verbatim>\<open>ViewModel.GetProxy\<close> is defined in uiView.py, which is not
  among the sources; a proxy is the script-facing handle of exactly one model, so the
  proxy of model \<open>m\<close> is \<open>Proxy m\<close>.
\<close>

datatype proxy = Proxy mid

definition card_with_number :: "mstore \<Rightarrow> mid \<Rightarrow> pyval \<Rightarrow> error + proxy option" where
  "card_with_number ms model number =
     (if didSetDown (ms model) then Inr None
      else if \<not> isinstance_int number then Inl TypeError
      else if int_of number < 1 \<or> int_of number > int (length (childModels (ms model)))
        then Inl ValueError
      else (case py_index (childModels (ms model)) (int_of number - 1) of
              None \<Rightarrow> Inl IndexError
            | Some c \<Rightarrow> Inr (Some (Proxy c))))"


section \<open>page.py: \<^verbatim>\<open>PageWindow.GetNextAvailableName\<close>\<close>

text \<open>
  \<^verbatim>\<open>
  def GetNextAvailableName(self, base):
      names = map(lambda ui: ui.GetProperty("name"), self.uiViews)
      i = 1
      while True:
          name = base+str(i)
          if name not in names:
              return name
          i += 1
  \<close>
  In Python 3 \<^verbatim>\<open>map\<close> returns a one-shot iterator, and \<^verbatim>\<open>x in it\<close> advances the
  iterator up to and including the first element equal to \<^verbatim>\<open>x\<close> (to its end when there
  is none). \<open>iter_contains\<close> returns the answer together with what is left of the iterator.
  The first argument of \<open>GetNextAvailableName\<close> is the list of names of
  \<^verbatim>\<open>self.uiViews\<close>, in order.
\<close>

fun iter_contains :: "'a \<Rightarrow> 'a list \<Rightarrow> bool \<times> 'a list" where
  "iter_contains x [] = (False, [])"
| "iter_contains x (y # ys) = (if y = x then (True, ys) else iter_contains x ys)"

lemma iter_contains_shorter:
  "fst (iter_contains x ys) \<Longrightarrow> length (snd (iter_contains x ys)) < length ys"
  by (induction ys) auto

function GetNextAvailableName_loop :: "string \<Rightarrow> nat \<Rightarrow> string list \<Rightarrow> string" where
  "GetNextAvailableName_loop base i names =
     (if fst (iter_contains (base @ str_nat i) names)
      then GetNextAvailableName_loop base (i + 1) (snd (iter_contains (base @ str_nat i) names))
      else base @ str_nat i)"
  by pat_completeness auto
termination
  by (relation "measure (\<lambda>(base, i, names). length names)")
     (auto simp: iter_contains_shorter)

declare GetNextAvailableName_loop.simps [simp del]

definition GetNextAvailableName :: "string list \<Rightarrow> string \<Rightarrow> string" where
  "GetNextAvailableName uiViewNames base = GetNextAvailableName_loop base 1 uiViewNames"


section \<open>stackManager.py: \<^verbatim>\<open>StackManager\<close>\<close>

text \<open>
  UI views and runners are objects as well, held in stores of their own. Calls into wx
  (refresh, cursors, sizes, menus, \<^verbatim>\<open>Yield\<close>) and notifications to the designer window
  change nothing that is modelled and are left out.
\<close>

type_synonym uid = nat
type_synonym rid = nat

text \<open>
  Modelled from the spec: the UI view classes (uiView.py and its subclasses) are not
  among the sources. A UI view refers to its model (\<^verbatim>\<open>ui.model\<close>) and to its parent UI
  view (\<^verbatim>\<open>ui.parent\<close>: the card's UI view for a top-level view, a group's for a grouped
  one, \<^verbatim>\<open>None\<close> for the card itself) and carries the \<^verbatim>\<open>isSelected\<close> flag that
  \<^verbatim>\<open>SetSelected\<close> sets.
\<close>

record UiView =
  ui_model :: mid
  ui_parent :: "uid option"
  isSelected :: bool

text \<open>
  Modelled from the spec: the handler runner (runner.py) is not among the sources; it
  is the external collaborator of the spec's section 6. What the manager and the viewer
  do to a runner is recorded on that runner in the order it happens: the calls made to
  it, and the attributes \<^verbatim>\<open>stackSetupValue\<close>, \<^verbatim>\<open>onRunFinished\<close> and \<^verbatim>\<open>errors\<close> that
  viewer.py assigns.
\<close>

datatype RunnerCall =
  RunHandler mid string
| SetupForCard mid
| StopTimers
| CleanupFromRun
| AddSyntaxErrors
| RunSetup mid
| DoReturnFromStack pyval

datatype Callback = NoCallback | DesignerOnRunnerFinished | PopStackOnFinished mid

record Runner =
  stackSetupValue :: pyval
  onRunFinished :: Callback
  errors :: "string list option"
  calls :: "RunnerCall list"

text \<open>
  Modelled from the spec: commands.py and wx.lib.docview are not among the sources.
  A command is a value; the history is the linear list of stored commands with the
  redoable ones beside it. \<^verbatim>\<open>Submit(command, storeIt)\<close> executes the command once,
  discards the redoable commands, and appends the command when \<^verbatim>\<open>storeIt\<close> is set.
\<close>

datatype Command = AddUiViewsCommand "int option" "mid list"

record CommandProcessor =
  commands :: "Command list"
  redoCommands :: "Command list"

record StackManager =
  isEditing :: bool
  command_processor :: CommandProcessor
  noIdling :: bool
  lastFocusedTextField :: "uid option"
  runner :: "rid option"
  filename :: "string option"
  stackModel :: mid
  selectedViews :: "uid list"
  uiViews :: "uid list"
  cardIndex :: "int option"
  uiCard :: uid
  models :: mstore
  uis :: "uid \<Rightarrow> UiView"
  runners :: "rid \<Rightarrow> Runner"
  nextUid :: uid

text \<open>
  A new UI view takes its identity from the counter \<open>nextUid\<close>. The card's UI view is
  created once, with the manager, before any other view: in every state the manager
  reaches, \<open>uiCard sm < nextUid sm\<close>.
\<close>

text \<open>A raise ends the enclosing calls; what was mutated before it stays mutated.\<close>

definition and_then :: "error option \<times> 's \<Rightarrow> ('s \<Rightarrow> error option \<times> 's) \<Rightarrow> error option \<times> 's" where
  "and_then r f = (case r of (Some e, s) \<Rightarrow> (Some e, s) | (None, s) \<Rightarrow> f s)"

definition runner_call :: "rid \<Rightarrow> RunnerCall \<Rightarrow> StackManager \<Rightarrow> StackManager" where
  "runner_call r c sm =
     sm\<lparr>runners := (runners sm)(r := (runners sm r)\<lparr>calls := calls (runners sm r) @ [c]\<rparr>)\<rparr>"

definition model_of :: "StackManager \<Rightarrow> uid \<Rightarrow> mid" where
  "model_of sm ui = ui_model (uis sm ui)"

definition type_of_ui :: "StackManager \<Rightarrow> uid \<Rightarrow> string" where
  "type_of_ui sm ui = mtype (models sm (model_of sm ui))"

definition parent_is_group :: "StackManager \<Rightarrow> uid \<Rightarrow> bool" where
  "parent_is_group sm ui =
     (case ui_parent (uis sm ui) of None \<Rightarrow> False | Some p \<Rightarrow> type_of_ui sm p = ''group'')"

text \<open>
  Modelled from the spec: \<^verbatim>\<open>UiView.SetSelected\<close> (uiView.py) is not among the
  sources; it sets the view's \<^verbatim>\<open>isSelected\<close> flag.
\<close>

definition SetSelected :: "bool \<Rightarrow> uid \<Rightarrow> StackManager \<Rightarrow> StackManager" where
  "SetSelected b ui sm = sm\<lparr>uis := (uis sm)(ui := (uis sm ui)\<lparr>isSelected := b\<rparr>)\<rparr>"

text \<open>
  \<^verbatim>\<open>
  def SelectUiView(self, uiView, extend=False):
      if self.isEditing:
          if extend and uiView and uiView.parent and uiView.parent.model.type == "group":
              extend = False
          if extend and len(self.selectedViews) and self.selectedViews[0].parent \
                  and self.selectedViews[0].parent.model.type == "group":
              extend = False
          if extend and uiView and ((uiView.model.type == "card") !=
                  (len(self.selectedViews) and self.selectedViews[0].model.type == "card")):
              extend = False
          if len(self.selectedViews) and not extend:
              for ui in self.selectedViews:
                  ui.SetSelected(False)
              self.selectedViews = []
          if uiView:
              if extend and uiView in self.selectedViews:
                  uiView.SetSelected(False)
                  self.selectedViews.remove(uiView)
              else:
                  uiView.SetSelected(True)
                  self.selectedViews.append(uiView)
          if self.designer:
              self.designer.SetSelectedUiViews(self.selectedViews)
  \<close>
\<close>

definition extend_allowed :: "StackManager \<Rightarrow> uid option \<Rightarrow> bool \<Rightarrow> bool" where
  "extend_allowed sm uiView extend0 =
     (let e1 = (if extend0 \<and> (case uiView of None \<Rightarrow> False | Some u \<Rightarrow> parent_is_group sm u)
                then False else extend0);
          e2 = (if e1 \<and> selectedViews sm \<noteq> [] \<and> parent_is_group sm (hd (selectedViews sm))
                then False else e1);
          e3 = (if e2 \<and> (case uiView of None \<Rightarrow> False
                          | Some u \<Rightarrow> (type_of_ui sm u = ''card'') \<noteq>
                              (selectedViews sm \<noteq> [] \<and>
                               type_of_ui sm (hd (selectedViews sm)) = ''card''))
                then False else e2)
      in e3)"

definition SelectUiView :: "uid option \<Rightarrow> bool \<Rightarrow> StackManager \<Rightarrow> StackManager" where
  "SelectUiView uiView extend0 sm =
     (if isEditing sm then
        (let ext = extend_allowed sm uiView extend0;
             sm1 = (if selectedViews sm \<noteq> [] \<and> \<not> ext
                    then (fold (SetSelected False) (selectedViews sm) sm)\<lparr>selectedViews := []\<rparr>
                    else sm)
         in case uiView of
              None \<Rightarrow> sm1
            | Some u \<Rightarrow>
                if ext \<and> u \<in> set (selectedViews sm1)
                then (SetSelected False u sm1)\<lparr>selectedViews := remove1 u (selectedViews sm1)\<rparr>
                else (SetSelected True u sm1)\<lparr>selectedViews := selectedViews sm1 @ [u]\<rparr>)
      else sm)"

text \<open>
  \<^verbatim>\<open>
  def ClearAllViews(self):
      self.SelectUiView(None)
      for ui in self.uiViews.copy():
          if ui.model.type != "card":
              self.uiViews.remove(ui)
              ui.DestroyView()
  \<close>
\<close>

definition ClearAllViews :: "StackManager \<Rightarrow> StackManager" where
  "ClearAllViews sm =
     (let sm1 = SelectUiView None False sm
      in sm1\<lparr>uiViews :=
           fold (\<lambda>ui vs. if type_of_ui sm1 ui \<noteq> ''card'' then remove1 ui vs else vs)
             (uiViews sm1) (uiViews sm1)\<rparr>)"

text \<open>
  \<^verbatim>\<open>
  def AddUiViewInternal(self, type, model=None):
      uiView = None
      if type == "button": uiView = UiButton(self.uiCard, self, model)
      elif type == "textfield" or type == "field": uiView = UiTextField(self.uiCard, self, model)
      elif type == "textlabel" or type == "label": uiView = UiTextLabel(self.uiCard, self, model)
      elif type == "image": uiView = UiImage(self.uiCard, self, model)
      elif type == "group": uiView = UiGroup(self.uiCard, self, model)
      elif type in ["pen", "line", "oval", "rect", "roundrect"]:
          uiView = UiShape(self.uiCard, self, type, model)
      if uiView:
          if uiView.view and not model: ...
          self.uiViews.append(uiView)
          uiView.model.parent = self.uiCard.model
          if uiView.model not in self.uiCard.model.childModels:
              self.uiCard.model.AddChild(uiView.model)
          ...
      return uiView
  \<close>
  The callers modelled here always pass the model, so the branch for a missing model is
  not taken. Constructing a UI view yields a new object, whose identity is taken from
  the counter \<open>nextUid\<close>, for the given model and with the card's UI view as parent.
\<close>

definition known_view_type :: "string \<Rightarrow> bool" where
  "known_view_type t =
     (t = ''button'' \<or> t = ''textfield'' \<or> t = ''field'' \<or> t = ''textlabel'' \<or> t = ''label''
      \<or> t = ''image'' \<or> t = ''group''
      \<or> t \<in> set [''pen'', ''line'', ''oval'', ''rect'', ''roundrect''])"

text \<open>
  Modelled from the spec: \<^verbatim>\<open>ViewModel.AddChild\<close> (uiView.py) is not among the sources;
  it appends the child to the parent's ordered children.
\<close>

definition AddChild :: "mid \<Rightarrow> mid \<Rightarrow> mstore \<Rightarrow> mstore" where
  "AddChild p c ms = ms(p := (ms p)\<lparr>childModels := childModels (ms p) @ [c]\<rparr>)"

definition AddUiViewInternal :: "string \<Rightarrow> mid \<Rightarrow> StackManager \<Rightarrow> uid option \<times> StackManager" where
  "AddUiViewInternal t model sm =
     (if known_view_type t then
        (let u = nextUid sm;
             sm1 = sm\<lparr>uis := (uis sm)(u := \<lparr>ui_model = model, ui_parent = Some (uiCard sm),
                                              isSelected = False\<rparr>),
                      nextUid := Suc u\<rparr>;
             sm2 = sm1\<lparr>uiViews := uiViews sm1 @ [u]\<rparr>;
             card = model_of sm2 (uiCard sm2);
             sm3 = sm2\<lparr>models := (models sm2)(model := (models sm2 model)\<lparr>parent := Some card\<rparr>)\<rparr>;
             sm4 = (if model \<notin> set (childModels (models sm3 card))
                    then sm3\<lparr>models := AddChild card model (models sm3)\<rparr> else sm3)
         in (Some u, sm4))
      else (None, sm))"

text \<open>
  Modelled from the spec: \<^verbatim>\<open>AddUiViewsCommand\<close> is defined in commands.py, which is not
  among the sources. Its \<^verbatim>\<open>Do\<close> adds a UI view for each of its models, in order, through
  \<^verbatim>\<open>AddUiViewInternal(model.type, model)\<close>, and reports success.
\<close>

fun Command_Do :: "Command \<Rightarrow> StackManager \<Rightarrow> bool \<times> StackManager" where
  "Command_Do (AddUiViewsCommand ci viewModels) sm =
     (True, fold (\<lambda>m s. snd (AddUiViewInternal (mtype (models s m)) m s)) viewModels sm)"

definition Submit :: "Command \<Rightarrow> bool \<Rightarrow> StackManager \<Rightarrow> bool \<times> StackManager" where
  "Submit command storeIt sm =
     (let (done, sm1) = Command_Do command sm;
          cp = command_processor sm1;
          cp1 = (if done then cp\<lparr>redoCommands := []\<rparr> else cp);
          cp2 = (if done \<and> storeIt then cp1\<lparr>commands := commands cp1 @ [command]\<rparr> else cp1)
      in (done, sm1\<lparr>command_processor := cp2\<rparr>))"

text \<open>
  \<^verbatim>\<open>
  def AddUiViewsFromModels(self, models, canUndo=True):
      for model in models:
          if not model in self.uiCard.model.childModels:
              model.SetProperty("name",
                  self.uiCard.model.DeduplicateNameInCard(model.GetProperty("name")))
      command = AddUiViewsCommand(True, 'Add Views', self, self.cardIndex, models)
      if canUndo:
          self.command_processor.Submit(command)
      else:
          # Don't mess with the Undo queue when we're just building a pgae
          command.Do()
      uiViews = self.uiViews[-len(models):]
      ...
      return uiViews
  \<close>
  \<^verbatim>\<open>DeduplicateNameInCard\<close> is defined in uiCard.py, which is not among the sources: it
  is the parameter \<open>dedup\<close>, given the models, the card model and the proposed name.
\<close>

type_synonym dedup_fn = "mstore \<Rightarrow> mid \<Rightarrow> string \<Rightarrow> string"

text \<open>
  Modelled from the spec: \<^verbatim>\<open>ViewModel.SetProperty\<close> (uiView.py) is not among the
  sources; \<^verbatim>\<open>SetProperty("name", n)\<close> stores the name.
\<close>

definition SetName :: "mid \<Rightarrow> string \<Rightarrow> StackManager \<Rightarrow> StackManager" where
  "SetName m n sm = sm\<lparr>models := (models sm)(m := (models sm m)\<lparr>name := n\<rparr>)\<rparr>"

definition dedup_step :: "dedup_fn \<Rightarrow> mid \<Rightarrow> StackManager \<Rightarrow> StackManager" where
  "dedup_step dedup m sm =
     (let card = model_of sm (uiCard sm)
      in if m \<notin> set (childModels (models sm card))
         then SetName m (dedup (models sm) card (name (models sm m))) sm
         else sm)"

definition last_n :: "nat \<Rightarrow> 'a list \<Rightarrow> 'a list" where
  "last_n n xs = (if n = 0 then xs else drop (length xs - n) xs)"

definition AddUiViewsFromModels ::
  "dedup_fn \<Rightarrow> mid list \<Rightarrow> bool \<Rightarrow> StackManager \<Rightarrow> uid list \<times> StackManager" where
  "AddUiViewsFromModels dedup ms canUndo sm =
     (let sm1 = fold (dedup_step dedup) ms sm;
          command = AddUiViewsCommand (cardIndex sm1) ms;
          sm2 = (if canUndo then snd (Submit command True sm1) else snd (Command_Do command sm1))
      in (last_n (length ms) (uiViews sm2), sm2))"

text \<open>
  \<^verbatim>\<open>
  def CreateViews(self, cardModel):
      self.uiCard.SetModel(cardModel)
      self.uiViews = []
      self.AddUiViewsFromModels(cardModel.childModels, canUndo=False)
  \<close>
\<close>

definition CreateViews :: "dedup_fn \<Rightarrow> mid \<Rightarrow> StackManager \<Rightarrow> StackManager" where
  "CreateViews dedup cardModel sm =
     (let sm1 = sm\<lparr>uis := (uis sm)(uiCard sm := (uis sm (uiCard sm))\<lparr>ui_model := cardModel\<rparr>)\<rparr>;
          sm2 = sm1\<lparr>uiViews := []\<rparr>
      in snd (AddUiViewsFromModels dedup (childModels (models sm2 cardModel)) False sm2))"

text \<open>
  \<^verbatim>\<open>
  def LoadCardAtIndex(self, index, reload=False):
      if index != self.cardIndex or reload == True:
          if not self.isEditing and self.cardIndex is not None and not reload:
              oldCardModel = self.stackModel.childModels[self.cardIndex]
              if self.runner:
                  self.runner.RunHandler(oldCardModel, "OnHideCard", None)
          self.cardIndex = index
          self.ClearAllViews()
          self.lastFocusedTextField = None
          if index is not None:
              cardModel = self.stackModel.GetCardModel(index)
              self.CreateViews(cardModel)
              self.SelectUiView(self.uiCard)
              self.view.Refresh(True)
              if self.designer:
                  self.designer.UpdateCardList()
              if not self.isEditing and self.runner:
                  self.runner.SetupForCard(cardModel)
                  if not reload:
                      if self.uiCard.model.GetHandler("OnShowCard"):
                          self.runner.RunHandler(self.uiCard.model, "OnShowCard", None)
                  self.noIdling = True
                  wx.GetApp().Yield()
                  self.noIdling = False
  \<close>
  \<^verbatim>\<open>GetCardModel(i)\<close> is \<^verbatim>\<open>self.childModels[i]\<close> (stackModel.py).
\<close>

text \<open>
  Modelled from the spec: \<^verbatim>\<open>ViewModel.GetHandler\<close> (uiView.py) is not among the
  sources; it looks the handler's script source up in the handlers mapping. An absent
  or empty source counts as false in \<^verbatim>\<open>if ...GetHandler("OnShowCard")\<close>.
\<close>

definition GetHandler_truthy :: "ViewModel \<Rightarrow> string \<Rightarrow> bool" where
  "GetHandler_truthy m h = (case map_of (handlers m) h of None \<Rightarrow> False | Some src \<Rightarrow> src \<noteq> [])"

definition hide_old_card :: "bool \<Rightarrow> StackManager \<Rightarrow> error option \<times> StackManager" where
  "hide_old_card reload sm =
     (case cardIndex sm of
        None \<Rightarrow> (None, sm)
      | Some old \<Rightarrow>
          if \<not> isEditing sm \<and> \<not> reload then
            (case py_index (childModels (models sm (stackModel sm))) old of
               None \<Rightarrow> (Some IndexError, sm)
             | Some oldCardModel \<Rightarrow>
                 (case runner sm of
                    None \<Rightarrow> (None, sm)
                  | Some r \<Rightarrow> (None, runner_call r (RunHandler oldCardModel ''OnHideCard'') sm)))
          else (None, sm))"

definition show_new_card :: "mid \<Rightarrow> bool \<Rightarrow> StackManager \<Rightarrow> StackManager" where
  "show_new_card cardModel reload sm =
     (case runner sm of
        None \<Rightarrow> sm
      | Some r \<Rightarrow>
          if \<not> isEditing sm then
            (let sm1 = runner_call r (SetupForCard cardModel) sm;
                 sm2 = (if \<not> reload \<and>
                           GetHandler_truthy (models sm1 (model_of sm1 (uiCard sm1))) ''OnShowCard''
                        then runner_call r
                               (RunHandler (model_of sm1 (uiCard sm1)) ''OnShowCard'') sm1
                        else sm1)
             in sm2\<lparr>noIdling := False\<rparr>)
          else sm)"

definition LoadCardAtIndex ::
  "dedup_fn \<Rightarrow> int option \<Rightarrow> bool \<Rightarrow> StackManager \<Rightarrow> error option \<times> StackManager" where
  "LoadCardAtIndex dedup index reload sm =
     (if index \<noteq> cardIndex sm \<or> reload then
        and_then (hide_old_card reload sm) (\<lambda>sm1.
          (let sm2 = ClearAllViews (sm1\<lparr>cardIndex := index\<rparr>);
               sm3 = sm2\<lparr>lastFocusedTextField := None\<rparr>
           in case index of
                None \<Rightarrow> (None, sm3)
              | Some i \<Rightarrow>
                  (case py_index (childModels (models sm3 (stackModel sm3))) i of
                     None \<Rightarrow> (Some IndexError, sm3)
                   | Some cardModel \<Rightarrow>
                       (let sm4 = CreateViews dedup cardModel sm3;
                            sm5 = SelectUiView (Some (uiCard sm4)) False sm4
                        in (None, show_new_card cardModel reload sm5)))))
      else (None, sm))"

text \<open>
  \<^verbatim>\<open>
  def RemoveUiViewByModel(self, viewModel):
      for ui in self.uiViews.copy():
          if ui.model == viewModel:
              if ui in self.selectedViews:
                  self.SelectUiView(ui, True)
              ui.model.parent = None
              if ui.model.type == "group":
                  ui.RemoveChildViews()
              self.uiViews.remove(ui)
              self.view.Refresh(True, rect=ui.model.GetRefreshFrame())
              self.uiCard.model.RemoveChild(ui.model)
              ui.DestroyView()
              return
  \<close>
  The child UI views of a group are private to the group's UI view and not part of
  this model, so \<^verbatim>\<open>RemoveChildViews\<close> changes nothing here.
\<close>

text \<open>
  Modelled from the spec: \<^verbatim>\<open>ViewModel.RemoveChild\<close> (uiView.py) is not among the
  sources; it fails when the child is not a direct child of the parent (Python's
  \<^verbatim>\<open>list.remove\<close> raises \<^verbatim>\<open>ValueError\<close>), and otherwise removes it from the parent's
  children and clears its parent reference.
\<close>

definition RemoveChild :: "mid \<Rightarrow> mid \<Rightarrow> StackManager \<Rightarrow> error option \<times> StackManager" where
  "RemoveChild p c sm =
     (if c \<in> set (childModels (models sm p)) then
        (let ms1 = (models sm)(p := (models sm p)\<lparr>childModels := remove1 c (childModels (models sm p))\<rparr>);
             ms2 = ms1(c := (ms1 c)\<lparr>parent := None\<rparr>)
         in (None, sm\<lparr>models := ms2\<rparr>))
      else (Some ValueError, sm))"

definition RemoveUiViewByModel :: "mid \<Rightarrow> StackManager \<Rightarrow> error option \<times> StackManager" where
  "RemoveUiViewByModel viewModel sm =
     (case find (\<lambda>ui. model_of sm ui = viewModel) (uiViews sm) of
        None \<Rightarrow> (None, sm)
      | Some ui \<Rightarrow>
          (let sm1 = (if ui \<in> set (selectedViews sm) then SelectUiView (Some ui) True sm else sm);
               m = model_of sm1 ui;
               sm2 = sm1\<lparr>models := (models sm1)(m := (models sm1 m)\<lparr>parent := None\<rparr>)\<rparr>;
               sm3 = sm2\<lparr>uiViews := remove1 ui (uiViews sm2)\<rparr>
           in RemoveChild (model_of sm3 (uiCard sm3)) m sm3))"

text \<open>
  \<^verbatim>\<open>
  def SetStackModel(self, model):
      self.ClearAllViews()
      model.SetStackView(self)
      self.stackModel = model
      self.cardIndex = None
      self.LoadCardAtIndex(0)
      self.view.SetSize(self.stackModel.GetProperty("size"))
      self.command_processor.ClearCommands()
      self.stackModel.SetDirty(False)
      self.UpdateCursor()
  \<close>
\<close>

definition ClearCommands :: "CommandProcessor \<Rightarrow> CommandProcessor" where
  "ClearCommands cp = cp\<lparr>commands := [], redoCommands := []\<rparr>"

definition SetStackModel :: "dedup_fn \<Rightarrow> mid \<Rightarrow> StackManager \<Rightarrow> error option \<times> StackManager" where
  "SetStackModel dedup model sm =
     (let sm1 = ClearAllViews sm;
          sm2 = sm1\<lparr>stackModel := model, cardIndex := None\<rparr>
      in and_then (LoadCardAtIndex dedup (Some 0) False sm2) (\<lambda>sm3.
           (None, sm3\<lparr>command_processor := ClearCommands (command_processor sm3)\<rparr>)))"


section \<open>cardstock/viewer.py: \<^verbatim>\<open>ViewerFrame\<close>, the stack of stacks\<close>

text \<open>
  \<^verbatim>\<open>stackStack\<close> is a list of \<^verbatim>\<open>[runner, stackModel, filename, cardIndex]\<close> entries.
  \<^verbatim>\<open>designer\<close> is \<^verbatim>\<open>None\<close> or the designer window; only whether it is set matters.
  New runners take their identity from a counter. Functions wrapped in
  \<^verbatim>\<open>@RunOnMainAsync\<close> are not run by the caller: the call is queued for the main thread
  (\<open>mainQueue\<close>), and the caller goes on at once.
\<close>

record StackFrame =
  f_runner :: rid
  f_stackModel :: mid
  f_filename :: "string option"
  f_cardIndex :: "int option"

datatype json =
  JNull | JBool bool | JNumber int | JString string | JArray "json list"
| JObject "(string \<times> json) list"

fun json_truthy :: "json \<Rightarrow> bool" where
  "json_truthy JNull = False"
| "json_truthy (JBool b) = b"
| "json_truthy (JNumber n) = (n \<noteq> 0)"
| "json_truthy (JString s) = (s \<noteq> [])"
| "json_truthy (JArray xs) = (xs \<noteq> [])"
| "json_truthy (JObject kvs) = (kvs \<noteq> [])"

text \<open>
  What \<^verbatim>\<open>open(filename, 'r')\<close> followed by \<^verbatim>\<open>json.load(f)\<close> does for a path: the file is
  missing (\<^verbatim>\<open>FileNotFoundError\<close>), or it is there and is not JSON
  (\<^verbatim>\<open>json.JSONDecodeError\<close>, a subclass of \<^verbatim>\<open>ValueError\<close>), or it holds a JSON value.
\<close>

datatype file_content = NoSuchFile | NotJSON | JSON json

datatype MainCall = CallPushStack json string int pyval | CallPopStack pyval

record ViewerFrame =
  stackManager :: StackManager
  stackStack :: "StackFrame list"
  rootRunner :: "rid option"
  designer :: bool
  nextRid :: rid
  mainQueue :: "MainCall list"

text \<open>
  Modelled from the spec: the constructor \<^verbatim>\<open>Runner(stackManager, viewer)\<close> (runner.py)
  is not among the sources; a new runner has no setup value, no hook and no calls yet.
\<close>

definition new_Runner :: Runner where
  "new_Runner = \<lparr>stackSetupValue = PyNone, onRunFinished = NoCallback, errors = Some [], calls = []\<rparr>"

definition set_onRunFinished :: "rid \<Rightarrow> Callback \<Rightarrow> StackManager \<Rightarrow> StackManager" where
  "set_onRunFinished r cb sm =
     sm\<lparr>runners := (runners sm)(r := (runners sm r)\<lparr>onRunFinished := cb\<rparr>)\<rparr>"

definition set_stackSetupValue :: "rid \<Rightarrow> pyval \<Rightarrow> StackManager \<Rightarrow> StackManager" where
  "set_stackSetupValue r v sm =
     sm\<lparr>runners := (runners sm)(r := (runners sm r)\<lparr>stackSetupValue := v\<rparr>)\<rparr>"

text \<open>
  stackModel.py, \<^verbatim>\<open>Stack.get_setup_value\<close>: what a script of the current stack reads.
  \<^verbatim>\<open>
  def get_setup_value(self):
      return self._model.stackManager.runner.GetStackSetupValue()
  \<close>
  \<^verbatim>\<open>GetStackSetupValue\<close> (runner.py, not among the sources) reads the runner's
  \<^verbatim>\<open>stackSetupValue\<close>, the attribute \<^verbatim>\<open>RunViewer\<close> assigns.
\<close>

definition get_setup_value :: "StackManager \<Rightarrow> error + pyval" where
  "get_setup_value sm =
     (case runner sm of None \<Rightarrow> Inl AttributeError | Some r \<Rightarrow> Inr (stackSetupValue (runners sm r)))"

text \<open>
  \<^verbatim>\<open>
  def RunViewer(self, runner, stackModel, filename, cardIndex, ioValue, isGoingBack):
      self.stackManager.SetStackModel(stackModel, True)
      self.stackManager.filename = filename
      if self.designer:
          runner.onRunFinished = self.designer.OnRunnerFinished
      if not isGoingBack:
          runner.stackSetupValue = ioValue
      self.stackManager.runner = runner
      self.MakeMenuBar()
      self.SetupViewerSize()
      if self.designer:
          runner.AddSyntaxErrors(self.designer.cPanel.codeEditor.analyzer.syntaxErrors)
      if not isGoingBack:
          self.stackManager.stackModel.RunSetup(runner)
      self.stackManager.LoadCardAtIndex(None)
      if not (0 <= cardIndex < len(self.stackManager.stackModel.childModels)):
          cardIndex = 0
      self.stackManager.LoadCardAtIndex(cardIndex)
      if isGoingBack:
          runner.DoReturnFromStack(ioValue)
  \<close>
  \<^verbatim>\<open>0 <= cardIndex\<close> raises \<^verbatim>\<open>TypeError\<close> when \<^verbatim>\<open>cardIndex\<close> is \<^verbatim>\<open>None\<close>.
\<close>

text \<open>
  Modelled from the spec: the method \<^verbatim>\<open>SetStackModel(model, flag)\<close> called here and in
  \<^verbatim>\<open>PopStack\<close>, both times with \<^verbatim>\<open>True\<close>, is not among the sources. viewer.py builds its
  manager with \<^verbatim>\<open>StackManager(self, False)\<close> and imports the class from the stackManager
  module beside it in cardstock/, which is missing; the class in stackManager.py has
  \<^verbatim>\<open>__init__(self, parentView)\<close> and \<^verbatim>\<open>SetStackModel(self, model)\<close>, so neither call
  fits it (each would raise \<^verbatim>\<open>TypeError\<close>) and its \<^verbatim>\<open>SetStackModel\<close> is not the method
  called. In the spec's words a push or a pop "swaps the active Entity Model subtree":
  \<open>SetStackModel_True model\<close>, the call \<^verbatim>\<open>SetStackModel(model, True)\<close>, drops the views of
  the document shown so far and makes \<open>model\<close> the manager's stack model, with no card
  active; \<^verbatim>\<open>RunViewer\<close> activates the card afterwards. It does not raise. Nothing is
  said of the call with \<^verbatim>\<open>False\<close>, which the viewer never makes. The other manager
  method \<^verbatim>\<open>RunViewer\<close> calls, \<^verbatim>\<open>LoadCardAtIndex(index)\<close>, is called as stackManager.py
  defines it, and that definition is used.
\<close>

definition SetStackModel_True :: "mid \<Rightarrow> StackManager \<Rightarrow> error option \<times> StackManager" where
  "SetStackModel_True model sm =
     (None, (ClearAllViews sm)\<lparr>stackModel := model, cardIndex := None\<rparr>)"

definition RunViewer_manager ::
  "dedup_fn \<Rightarrow> bool \<Rightarrow> rid \<Rightarrow> mid \<Rightarrow> string option \<Rightarrow> int option \<Rightarrow> pyval \<Rightarrow> bool
   \<Rightarrow> StackManager \<Rightarrow> error option \<times> StackManager" where
  "RunViewer_manager dedup hasDesigner rnr stackModel0 fname cardIndex0 ioValue isGoingBack sm =
     and_then (SetStackModel_True stackModel0 sm) (\<lambda>sm0.
       (let sm1 = sm0\<lparr>filename := fname\<rparr>;
            sm2 = (if hasDesigner then set_onRunFinished rnr DesignerOnRunnerFinished sm1 else sm1);
            sm3 = (if \<not> isGoingBack then set_stackSetupValue rnr ioValue sm2 else sm2);
            sm4 = sm3\<lparr>runner := Some rnr\<rparr>;
            sm5 = (if hasDesigner then runner_call rnr AddSyntaxErrors sm4 else sm4);
            sm6 = (if \<not> isGoingBack then runner_call rnr (RunSetup (stackModel sm5)) sm5 else sm5)
        in and_then (LoadCardAtIndex dedup None False sm6) (\<lambda>sm7.
             (case cardIndex0 of
                None \<Rightarrow> (Some TypeError, sm7)
              | Some ci \<Rightarrow>
                  (let ci1 = (if 0 \<le> ci \<and> ci < int (length (childModels (models sm7 (stackModel sm7))))
                              then ci else 0)
                   in and_then (LoadCardAtIndex dedup (Some ci1) False sm7) (\<lambda>sm8.
                        (None, if isGoingBack then runner_call rnr (DoReturnFromStack ioValue) sm8
                               else sm8)))))))"

definition on_manager ::
  "(StackManager \<Rightarrow> error option \<times> StackManager) \<Rightarrow> ViewerFrame \<Rightarrow> error option \<times> ViewerFrame" where
  "on_manager f vf = (case f (stackManager vf) of (e, sm) \<Rightarrow> (e, vf\<lparr>stackManager := sm\<rparr>))"

definition RunViewer ::
  "dedup_fn \<Rightarrow> rid \<Rightarrow> mid \<Rightarrow> string option \<Rightarrow> int option \<Rightarrow> pyval \<Rightarrow> bool
   \<Rightarrow> ViewerFrame \<Rightarrow> error option \<times> ViewerFrame" where
  "RunViewer dedup rnr stackModel0 fname cardIndex0 ioValue isGoingBack vf =
     on_manager (RunViewer_manager dedup (designer vf) rnr stackModel0 fname cardIndex0 ioValue
                   isGoingBack) vf"

text \<open>
  \<^verbatim>\<open>
  def PushStack(self, stackModel, filename, cardIndex, setupValue=None):
      if len(self.stackStack) > 0:
          self.stackStack[-1][3] = self.stackManager.cardIndex
          self.stackManager.runner.StopTimers()
      runner = Runner(self.stackManager, self)
      if len(self.stackStack) == 0:
          self.rootRunner = runner
      self.stackStack.append([runner, stackModel, filename, cardIndex])
      self.RunViewer(runner, stackModel, filename, cardIndex, setupValue, False)
  \<close>
\<close>

definition suspend_top :: "ViewerFrame \<Rightarrow> error option \<times> ViewerFrame" where
  "suspend_top vf =
     (if stackStack vf \<noteq> [] then
        (let vf1 = vf\<lparr>stackStack := butlast (stackStack vf) @
                        [(last (stackStack vf))\<lparr>f_cardIndex := cardIndex (stackManager vf)\<rparr>]\<rparr>
         in case runner (stackManager vf1) of
              None \<Rightarrow> (Some AttributeError, vf1)
            | Some r \<Rightarrow> (None, vf1\<lparr>stackManager := runner_call r StopTimers (stackManager vf1)\<rparr>))
      else (None, vf))"

definition PushStack ::
  "dedup_fn \<Rightarrow> mid \<Rightarrow> string option \<Rightarrow> int \<Rightarrow> pyval \<Rightarrow> ViewerFrame \<Rightarrow> error option \<times> ViewerFrame" where
  "PushStack dedup stackModel0 fname cardIndex0 setupValue vf =
     and_then (suspend_top vf) (\<lambda>vf2.
       (let r = nextRid vf2;
            vf3 = vf2\<lparr>stackManager :=
                        (stackManager vf2)\<lparr>runners := (runners (stackManager vf2))(r := new_Runner)\<rparr>,
                      nextRid := Suc r\<rparr>;
            vf4 = (if stackStack vf3 = [] then vf3\<lparr>rootRunner := Some r\<rparr> else vf3);
            vf5 = vf4\<lparr>stackStack := stackStack vf4 @
                        [\<lparr>f_runner = r, f_stackModel = stackModel0, f_filename = fname,
                          f_cardIndex = Some cardIndex0\<rparr>]\<rparr>
        in RunViewer dedup r stackModel0 fname (Some cardIndex0) setupValue False vf5))"

text \<open>
  \<^verbatim>\<open>
  def PopStack(self, returnValue, isShuttingDown=False):
      if len(self.stackStack) > 1:
          sModel = self.stackManager.stackModel
          def onFinished(runner):
              runner.errors = None
              sModel.SetDown()
              sModel.DismantleChildTree()
          self.stackManager.runner.onRunFinished = onFinished
          self.stackManager.runner.CleanupFromRun()
          self.stackStack.pop()
          parts = self.stackStack[-1]
          if not isShuttingDown:
              parts[1].SetBackUp(self.stackManager)
              self.RunViewer(*parts, returnValue, True)
          else:
              self.stackManager.runner = parts[0]
              self.stackManager.SetStackModel(parts[1], True)
  \<close>
\<close>

text \<open>
  Modelled from the spec: \<^verbatim>\<open>CleanupFromRun\<close> (runner.py), \<^verbatim>\<open>SetDown\<close>,
  \<^verbatim>\<open>DismantleChildTree\<close> and \<^verbatim>\<open>SetBackUp\<close> (uiView.py) are not among the sources.
  Returning tears the popped stack down: cleaning the runner up runs its
  \<^verbatim>\<open>onRunFinished\<close> hook; \<^verbatim>\<open>SetDown\<close> marks the model as set down (the flag
  \<^verbatim>\<open>card_with_number\<close> tests), \<^verbatim>\<open>DismantleChildTree\<close> drops its children, and
  \<^verbatim>\<open>SetBackUp\<close> clears the flag again.
\<close>

definition SetDown :: "mid \<Rightarrow> StackManager \<Rightarrow> StackManager" where
  "SetDown m sm = sm\<lparr>models := (models sm)(m := (models sm m)\<lparr>didSetDown := True\<rparr>)\<rparr>"

definition DismantleChildTree :: "mid \<Rightarrow> StackManager \<Rightarrow> StackManager" where
  "DismantleChildTree m sm = sm\<lparr>models := (models sm)(m := (models sm m)\<lparr>childModels := []\<rparr>)\<rparr>"

definition SetBackUp :: "mid \<Rightarrow> StackManager \<Rightarrow> StackManager" where
  "SetBackUp m sm = sm\<lparr>models := (models sm)(m := (models sm m)\<lparr>didSetDown := False\<rparr>)\<rparr>"

definition run_onRunFinished :: "rid \<Rightarrow> StackManager \<Rightarrow> StackManager" where
  "run_onRunFinished r sm =
     (case onRunFinished (runners sm r) of
        NoCallback \<Rightarrow> sm
      | DesignerOnRunnerFinished \<Rightarrow> sm
      | PopStackOnFinished sModel \<Rightarrow>
          DismantleChildTree sModel
            (SetDown sModel
              (sm\<lparr>runners := (runners sm)(r := (runners sm r)\<lparr>errors := None\<rparr>)\<rparr>)))"

definition Runner_CleanupFromRun :: "rid \<Rightarrow> StackManager \<Rightarrow> StackManager" where
  "Runner_CleanupFromRun r sm = run_onRunFinished r (runner_call r CleanupFromRun sm)"

definition PopStack ::
  "dedup_fn \<Rightarrow> pyval \<Rightarrow> bool \<Rightarrow> ViewerFrame \<Rightarrow> error option \<times> ViewerFrame" where
  "PopStack dedup returnValue isShuttingDown vf =
     (if length (stackStack vf) > 1 then
        (let sModel = stackModel (stackManager vf)
         in case runner (stackManager vf) of
              None \<Rightarrow> (Some AttributeError, vf)
            | Some r \<Rightarrow>
                (let sm1 = set_onRunFinished r (PopStackOnFinished sModel) (stackManager vf);
                     sm2 = Runner_CleanupFromRun r sm1;
                     vf1 = vf\<lparr>stackManager := sm2, stackStack := butlast (stackStack vf)\<rparr>;
                     parts = last (stackStack vf1)
                 in if \<not> isShuttingDown then
                      RunViewer dedup (f_runner parts) (f_stackModel parts) (f_filename parts)
                        (f_cardIndex parts) returnValue True
                        (vf1\<lparr>stackManager := SetBackUp (f_stackModel parts) (stackManager vf1)\<rparr>)
                    else
                      on_manager (SetStackModel_True (f_stackModel parts))
                        (vf1\<lparr>stackManager := (stackManager vf1)\<lparr>runner := Some (f_runner parts)\<rparr>\<rparr>)))
      else (None, vf))"

text \<open>
  \<^verbatim>\<open>
  def GosubStack(self, filename, cardNumber, ioValue):
      # Enter here on a Runner thread
      # Go into, or back out of, another stack
      # Push a stack if a filename is given, else pop
      # ioValue is the setupValue or the returnValue
      # return True iff successful
      if filename:
          try:
              if not os.path.isabs(filename):
                  filename = os.path.join(os.path.dirname(self.stackManager.filename), filename)
              with open(filename, 'r') as f:
                  data = json.load(f)
              if data:
                  @RunOnMainAsync
                  def func():
                      stackModel = StackModel(None)
                      stackModel.SetData(data)
                      self.PushStack(stackModel, filename, cardNumber, ioValue)
                  func()
                  return True
          except (TypeError, FileNotFoundError):
              return False
      else:
          if len(self.stackStack) > 1:
              @RunOnMainAsync
              def func():
                  self.PopStack(ioValue)
              func()
              return True
          else:
              return False
  \<close>
  The path functions are those of \<^verbatim>\<open>posixpath\<close>. \<^verbatim>\<open>os.path.dirname(None)\<close> raises
  \<^verbatim>\<open>TypeError\<close>. The result is the value returned (\<^verbatim>\<open>None\<close> when the function falls
  off its end) or the exception that leaves the function. The file system is the
  parameter \<open>fs\<close>.
\<close>

definition isabs :: "string \<Rightarrow> bool" where
  "isabs p = (case p of [] \<Rightarrow> False | c # cs \<Rightarrow> c = CHR ''/'')"

definition dirname :: "string \<Rightarrow> string" where
  "dirname p =
     (let head = rev (dropWhile (\<lambda>c. c \<noteq> CHR ''/'') (rev p))
      in if head \<noteq> [] \<and> \<not> list_all (\<lambda>c. c = CHR ''/'') head
         then rev (dropWhile (\<lambda>c. c = CHR ''/'') (rev head))
         else head)"

definition join :: "string \<Rightarrow> string \<Rightarrow> string" where
  "join a b =
     (if isabs b then b
      else if a = [] \<or> last a = CHR ''/'' then a @ b
      else a @ ''/'' @ b)"

definition GosubStack ::
  "(string \<Rightarrow> file_content) \<Rightarrow> string option \<Rightarrow> int \<Rightarrow> pyval \<Rightarrow> ViewerFrame
   \<Rightarrow> (error + pyval) \<times> ViewerFrame" where
  "GosubStack fs fname cardNumber ioValue vf =
     (case (case fname of None \<Rightarrow> None | Some f \<Rightarrow> if f = [] then None else Some f) of
        Some f \<Rightarrow>
          (case (if \<not> isabs f
                 then (case filename (stackManager vf) of
                         None \<Rightarrow> Inl TypeError
                       | Some cur \<Rightarrow> Inr (join (dirname cur) f))
                 else Inr f) of
             Inl e \<Rightarrow> (Inr (PyBool False), vf)
           | Inr path \<Rightarrow>
               (case fs path of
                  NoSuchFile \<Rightarrow> (Inr (PyBool False), vf)
                | NotJSON \<Rightarrow> (Inl JSONDecodeError, vf)
                | JSON data \<Rightarrow>
                    if json_truthy data
                    then (Inr (PyBool True),
                          vf\<lparr>mainQueue := mainQueue vf @ [CallPushStack data path cardNumber ioValue]\<rparr>)
                    else (Inr PyNone, vf)))
      | None \<Rightarrow>
          if length (stackStack vf) > 1
          then (Inr (PyBool True), vf\<lparr>mainQueue := mainQueue vf @ [CallPopStack ioValue]\<rparr>)
          else (Inr (PyBool False), vf))"


section \<open>Example documents and states\<close>

text \<open>
  A three-card document: the stack (object 0) holds the cards \<^verbatim>\<open>card_1\<close>, \<^verbatim>\<open>card_2\<close>
  and \<^verbatim>\<open>card_3\<close> (objects 1, 2, 3); each of the first two cards holds a button named
  \<^verbatim>\<open>button1\<close> (objects 4 and 5).
\<close>

definition blank_model :: ViewModel where
  "blank_model = \<lparr>mtype = [], name = [], parent = None, childModels = [], handlers = [],
     didSetDown = False\<rparr>"

definition doc3 :: mstore where
  "doc3 = (\<lambda>_. blank_model)
     (0 := blank_model\<lparr>mtype := ''stack'', name := ''stack'', childModels := [1, 2, 3]\<rparr>,
      1 := blank_model\<lparr>mtype := ''card'', name := ''card_1'', parent := Some 0, childModels := [4]\<rparr>,
      2 := blank_model\<lparr>mtype := ''card'', name := ''card_2'', parent := Some 0, childModels := [5]\<rparr>,
      3 := blank_model\<lparr>mtype := ''card'', name := ''card_3'', parent := Some 0\<rparr>,
      4 := blank_model\<lparr>mtype := ''button'', name := ''button1'', parent := Some 1\<rparr>,
      5 := blank_model\<lparr>mtype := ''button'', name := ''button1'', parent := Some 2\<rparr>)"

text \<open>
  A document with names used twice: the stack (object 0) holds two cards that are both
  named \<^verbatim>\<open>card_1\<close> (objects 1 and 2); the first holds two buttons named \<^verbatim>\<open>button1\<close>
  (objects 3 and 4), the second holds one more (object 5).
\<close>

definition doc_dup :: mstore where
  "doc_dup = (\<lambda>_. blank_model)
     (0 := blank_model\<lparr>mtype := ''stack'', name := ''stack'', childModels := [1, 2]\<rparr>,
      1 := blank_model\<lparr>mtype := ''card'', name := ''card_1'', parent := Some 0, childModels := [3, 4]\<rparr>,
      2 := blank_model\<lparr>mtype := ''card'', name := ''card_1'', parent := Some 0, childModels := [5]\<rparr>,
      3 := blank_model\<lparr>mtype := ''button'', name := ''button1'', parent := Some 1\<rparr>,
      4 := blank_model\<lparr>mtype := ''button'', name := ''button1'', parent := Some 1\<rparr>,
      5 := blank_model\<lparr>mtype := ''button'', name := ''button1'', parent := Some 2\<rparr>)"


text \<open>
  A running two-card stack with a sub-stack beside it. Objects 0 to 4 are the main
  document: the stack, \<^verbatim>\<open>card_1\<close> (with an \<^verbatim>\<open>OnShowCard\<close> handler) holding
  \<^verbatim>\<open>button_1\<close>, and \<^verbatim>\<open>card_2\<close> holding \<^verbatim>\<open>field_1\<close>. Objects 5 to 7 are a sub-stack
  with one card holding a label. Object 8 is a button that is not on any card yet.
  The manager shows the card at index 1 of the main stack: UI view 0 is the card's,
  UI view 1 the field's. \<open>ex_manager\<close> is in viewer mode with runner 0; \<open>ex_editing\<close>
  is the same manager in editing mode, without a runner, with the field selected.
  \<open>ex_frame\<close> is the viewer running the main stack; its one frame still records the
  card index 0 it was pushed with.
\<close>

definition ex_models :: mstore where
  "ex_models = (\<lambda>_. blank_model)
     (0 := blank_model\<lparr>mtype := ''stack'', name := ''stack'', childModels := [1, 2]\<rparr>,
      1 := blank_model\<lparr>mtype := ''card'', name := ''card_1'', parent := Some 0, childModels := [3],
             handlers := [(''OnShowCard'', ''beep()'')]\<rparr>,
      2 := blank_model\<lparr>mtype := ''card'', name := ''card_2'', parent := Some 0, childModels := [4]\<rparr>,
      3 := blank_model\<lparr>mtype := ''button'', name := ''button_1'', parent := Some 1\<rparr>,
      4 := blank_model\<lparr>mtype := ''textfield'', name := ''field_1'', parent := Some 2\<rparr>,
      5 := blank_model\<lparr>mtype := ''stack'', name := ''stack'', childModels := [6]\<rparr>,
      6 := blank_model\<lparr>mtype := ''card'', name := ''card_1'', parent := Some 5, childModels := [7]\<rparr>,
      7 := blank_model\<lparr>mtype := ''label'', name := ''label_1'', parent := Some 6\<rparr>,
      8 := blank_model\<lparr>mtype := ''button'', name := ''button_2''\<rparr>)"

definition ex_uis :: "uid \<Rightarrow> UiView" where
  "ex_uis = (\<lambda>_. \<lparr>ui_model = 0, ui_parent = None, isSelected = False\<rparr>)
     (0 := \<lparr>ui_model = 2, ui_parent = None, isSelected = False\<rparr>,
      1 := \<lparr>ui_model = 4, ui_parent = Some 0, isSelected = False\<rparr>)"

definition ex_manager :: StackManager where
  "ex_manager =
     \<lparr>isEditing = False, command_processor = \<lparr>commands = [], redoCommands = []\<rparr>,
      noIdling = False, lastFocusedTextField = None, runner = Some 0,
      filename = Some ''/home/user/main.cds'', stackModel = 0, selectedViews = [],
      uiViews = [1], cardIndex = Some 1, uiCard = 0, models = ex_models, uis = ex_uis,
      runners = (\<lambda>_. new_Runner), nextUid = 2\<rparr>"

definition ex_editing :: StackManager where
  "ex_editing =
     ex_manager\<lparr>isEditing := True, runner := None, selectedViews := [1],
                uis := ex_uis(1 := \<lparr>ui_model = 4, ui_parent = Some 0, isSelected = True\<rparr>)\<rparr>"

definition ex_frame :: ViewerFrame where
  "ex_frame =
     \<lparr>stackManager = ex_manager,
      stackStack = [\<lparr>f_runner = 0, f_stackModel = 0, f_filename = Some ''/home/user/main.cds'',
                     f_cardIndex = Some 0\<rparr>],
      rootRunner = Some 0, designer = False, nextRid = 1, mainQueue = []\<rparr>"

text \<open>A file system in which \<^verbatim>\<open>/home/user/sub.cds\<close> exists and is not JSON.\<close>

definition ex_fs :: "string \<Rightarrow> file_content" where
  "ex_fs path = (if path = ''/home/user/sub.cds'' then NotJSON else NoSuchFile)"

definition ex_dedup :: dedup_fn where
  "ex_dedup ms cardModel n = n"


section \<open>Frame conditions\<close>

text \<open>
  Relations between a state and a later one, used to say what an operation leaves alone.
  \<open>same_control\<close>: building, clearing and selecting views change only the UI views,
  the selection and the models. \<open>same_docs\<close>: the type, handlers, set-down flag and
  children of every model are the same. \<open>same_session\<close>: what a card load keeps.
  \<open>handler_events\<close> are the \<^verbatim>\<open>RunHandler\<close> calls among the calls made to a runner.
\<close>

definition same_control :: "StackManager \<Rightarrow> StackManager \<Rightarrow> bool" where
  "same_control sm sm' =
     (isEditing sm' = isEditing sm \<and> command_processor sm' = command_processor sm \<and>
      noIdling sm' = noIdling sm \<and> lastFocusedTextField sm' = lastFocusedTextField sm \<and>
      runner sm' = runner sm \<and> filename sm' = filename sm \<and> stackModel sm' = stackModel sm \<and>
      cardIndex sm' = cardIndex sm \<and> uiCard sm' = uiCard sm \<and> runners sm' = runners sm)"

definition same_docs :: "mstore \<Rightarrow> mstore \<Rightarrow> bool" where
  "same_docs ms ms' =
     (\<forall>m. mtype (ms' m) = mtype (ms m) \<and> handlers (ms' m) = handlers (ms m) \<and>
          didSetDown (ms' m) = didSetDown (ms m) \<and> childModels (ms' m) = childModels (ms m))"

definition same_session :: "StackManager \<Rightarrow> StackManager \<Rightarrow> bool" where
  "same_session sm sm' =
     (isEditing sm' = isEditing sm \<and> command_processor sm' = command_processor sm \<and>
      runner sm' = runner sm \<and> filename sm' = filename sm \<and> stackModel sm' = stackModel sm \<and>
      uiCard sm' = uiCard sm \<and> nextUid sm \<le> nextUid sm' \<and>
      same_docs (models sm) (models sm') \<and>
      (\<forall>r. stackSetupValue (runners sm' r) = stackSetupValue (runners sm r)))"

definition handler_events :: "RunnerCall list \<Rightarrow> RunnerCall list" where
  "handler_events cs = filter (\<lambda>c. case c of RunHandler m h \<Rightarrow> True | _ \<Rightarrow> False) cs"


text \<open>
  A well-scoped selection, as \<^verbatim>\<open>SelectUiView\<close> keeps it: no view twice; a view inside a
  group only on its own; cards and views not mixed.
\<close>

definition selection_scoped :: "StackManager \<Rightarrow> bool" where
  "selection_scoped sm =
     (distinct (selectedViews sm) \<and>
      list_all (\<lambda>u. (if parent_is_group sm u then selectedViews sm = [u] else True) \<and>
                     (type_of_ui sm u = ''card'') =
                       (type_of_ui sm (hd (selectedViews sm)) = ''card''))
        (selectedViews sm))"


section \<open>Properties of stackModel.py\<close>

lemma find_first_split:
  "find P xs = Some c \<Longrightarrow> \<exists>pre post. xs = pre @ c # post \<and> P c \<and> (\<forall>x\<in>set pre. \<not> P x)"
proof (induction xs)
  case Nil
  then show ?case by simp
next
  case (Cons a xs)
  show ?case
  proof (cases "P a")
    case True
    with Cons.prems have "a = c" by simp
    with True have "a # xs = [] @ c # xs \<and> P c \<and> (\<forall>x\<in>set []. \<not> P x)" by simp
    then show ?thesis by blast
  next
    case False
    with Cons.prems have "find P xs = Some c" by simp
    from Cons.IH [OF this] obtain pre post
      where "xs = pre @ c # post" "P c" "\<forall>x\<in>set pre. \<not> P x" by blast
    with False have "a # xs = (a # pre) @ c # post \<and> P c \<and> (\<forall>x\<in>set (a # pre). \<not> P x)"
      by simp
    then show ?thesis by blast
  qed
qed

lemma find_first_append:
  "\<forall>x\<in>set pre. \<not> P x \<Longrightarrow> P c \<Longrightarrow> find P (pre @ c # post) = Some c"
  by (induction pre) simp_all

lemma GetModelFromPath_parts_sound:
  "GetModelFromPath_parts ms m ps = Some m' \<Longrightarrow> descends ms m ps m'"
proof (induction ps arbitrary: m)
  case Nil
  then show ?case by (simp add: descends_here)
next
  case (Cons p ps)
  from Cons.prems obtain c where f: "find (\<lambda>c. name (ms c) = p) (childModels (ms m)) = Some c"
    and r: "GetModelFromPath_parts ms c ps = Some m'"
    by (auto split: option.splits)
  from find_first_split [OF f] obtain pre post
    where s: "childModels (ms m) = pre @ c # post" and n: "name (ms c) = p"
      and b: "\<forall>x\<in>set pre. name (ms x) \<noteq> p" by blast
  from b have "p \<notin> set (map (\<lambda>x. name (ms x)) pre)" by auto
  from descends_child [OF s this n Cons.IH [OF r]] show ?case .
qed

lemma GetModelFromPath_parts_complete:
  "descends ms m ps m' \<Longrightarrow> GetModelFromPath_parts ms m ps = Some m'"
proof (induction rule: descends.induct)
  case (descends_here ms m)
  show ?case by simp
next
  case (descends_child ms m pre c post p ps m')
  from descends_child.hyps(2) have "\<forall>x\<in>set pre. \<not> name (ms x) = p" by auto
  from find_first_append [of pre "\<lambda>x. name (ms x) = p" c post, OF this descends_child.hyps(3)]
  have "find (\<lambda>x. name (ms x) = p) (childModels (ms m)) = Some c"
    unfolding descends_child.hyps(1) .
  with descends_child.IH show ?case by simp
qed

lemma GetModelFromPath_parts_descends:
  "(GetModelFromPath_parts ms m ps = Some m') = descends ms m ps m'"
  using GetModelFromPath_parts_sound GetModelFromPath_parts_complete by blast

text \<open>
  C8, as amended. \<^verbatim>\<open>GetModelFromPath\<close> resolves a dot-separated sequence of child
  \<^emph>\<open>names\<close> starting at the given root, each part selecting the first child with that
  name: the result is a node exactly when it is reached by following, part by part, the
  first child so named, and not-found means there is no such node. Card indexes are not
  names: on the three-card document \<^verbatim>\<open>"card_2.button1"\<close> returns the node named
  \<^verbatim>\<open>button1\<close> inside the card at index 1, while \<^verbatim>\<open>"1.button1"\<close> and \<^verbatim>\<open>"5.x"\<close> return
  not-found. Where a name is used twice, the first child is taken at every part: in the
  document with two cards named \<^verbatim>\<open>card_1\<close>, \<^verbatim>\<open>"card_1.button1"\<close> is the first button of
  the first card.
\<close>

theorem GetModelFromPath_resolves_names:
  "(GetModelFromPath ms root path = Some m) = descends ms root (split_dot path) m \<and>
   (GetModelFromPath ms root path = None) = (\<forall>m'. \<not> descends ms root (split_dot path) m') \<and>
   GetModelFromPath doc3 0 ''card_2.button1'' = Some 5 \<and>
   name (doc3 5) = ''button1'' \<and> py_index (childModels (doc3 0)) 1 = Some 2 \<and>
   childModels (doc3 2) = [5] \<and>
   GetModelFromPath doc3 0 ''1.button1'' = None \<and>
   GetModelFromPath doc3 0 ''5.x'' = None \<and>
   GetModelFromPath doc_dup 0 ''card_1.button1'' = Some 3 \<and>
   childModels (doc_dup 0) = [1, 2] \<and> childModels (doc_dup 1) = [3, 4]"
proof -
  have a: "(GetModelFromPath ms root path = Some m) = descends ms root (split_dot path) m"
    by (simp add: GetModelFromPath_def GetModelFromPath_parts_descends)
  have "(GetModelFromPath_parts ms root (split_dot path) = None)
        = (\<forall>m'. GetModelFromPath_parts ms root (split_dot path) \<noteq> Some m')"
    by (cases "GetModelFromPath_parts ms root (split_dot path)") simp_all
  then have b: "(GetModelFromPath ms root path = None)
                = (\<forall>m'. \<not> descends ms root (split_dot path) m')"
    by (simp add: GetModelFromPath_def GetModelFromPath_parts_descends)
  have c: "GetModelFromPath doc3 0 ''card_2.button1'' = Some 5"
    by (simp add: GetModelFromPath_def doc3_def blank_model_def)
  have d: "name (doc3 5) = ''button1''" "py_index (childModels (doc3 0)) 1 = Some 2"
    "childModels (doc3 2) = [5]"
    by (simp_all add: doc3_def blank_model_def py_index_def)
  have e: "GetModelFromPath doc3 0 ''1.button1'' = None"
    by (simp add: GetModelFromPath_def doc3_def blank_model_def)
  have f: "GetModelFromPath doc3 0 ''5.x'' = None"
    by (simp add: GetModelFromPath_def doc3_def blank_model_def)
  have g: "GetModelFromPath doc_dup 0 ''card_1.button1'' = Some 3"
    by (simp add: GetModelFromPath_def doc_dup_def blank_model_def)
  have h: "childModels (doc_dup 0) = [1, 2]" "childModels (doc_dup 1) = [3, 4]"
    by (simp_all add: doc_dup_def blank_model_def)
  show ?thesis by (intro conjI a b c d e f g h)
qed

text \<open>
  The theorem at the example documents: in the three-card document the path
  \<^verbatim>\<open>"card_2.button1"\<close> resolves to object 5, so object 5 is reached by first children
  with these names, and \<^verbatim>\<open>"card_9"\<close> does not resolve, so object 3 is not reached by that
  name; in the document with names used twice, the path resolves to object 3, so the
  later button of the same card (object 4) and the button of the second card (object 5)
  are not reached by first children.
\<close>

theorem GetModelFromPath_resolves_names_witness:
  "GetModelFromPath doc3 0 ''card_2.button1'' = Some 5 \<and>
   descends doc3 0 [''card_2'', ''button1''] 5 \<and>
   GetModelFromPath doc3 0 ''card_9'' = None \<and>
   \<not> descends doc3 0 [''card_9''] 3 \<and>
   GetModelFromPath doc_dup 0 ''card_1.button1'' = Some 3 \<and>
   descends doc_dup 0 [''card_1'', ''button1''] 3 \<and>
   \<not> descends doc_dup 0 [''card_1'', ''button1''] 4 \<and>
   \<not> descends doc_dup 0 [''card_1'', ''button1''] 5"
proof -
  have p: "GetModelFromPath doc3 0 ''card_2.button1'' = Some 5"
    by (simp add: GetModelFromPath_def doc3_def blank_model_def)
  have q: "GetModelFromPath doc3 0 ''card_9'' = None"
    by (simp add: GetModelFromPath_def doc3_def blank_model_def)
  have r: "GetModelFromPath doc_dup 0 ''card_1.button1'' = Some 3"
    by (simp add: GetModelFromPath_def doc_dup_def blank_model_def)
  have s1: "split_dot ''card_2.button1'' = [''card_2'', ''button1'']" by simp
  have s2: "split_dot ''card_9'' = [''card_9'']" by simp
  have s3: "split_dot ''card_1.button1'' = [''card_1'', ''button1'']" by simp
  note t1 = GetModelFromPath_resolves_names [of doc3 0 "''card_2.button1''" 5, THEN conjunct1]
  note t2 = GetModelFromPath_resolves_names [of doc3 0 "''card_9''" 3, THEN conjunct1]
  note t3 = GetModelFromPath_resolves_names [of doc_dup 0 "''card_1.button1''" 3, THEN conjunct1]
  note t4 = GetModelFromPath_resolves_names [of doc_dup 0 "''card_1.button1''" 4, THEN conjunct1]
  note t5 = GetModelFromPath_resolves_names [of doc_dup 0 "''card_1.button1''" 5, THEN conjunct1]
  from t1 [THEN iffD1, OF p] have d1: "descends doc3 0 [''card_2'', ''button1''] 5"
    unfolding s1 .
  from q have "GetModelFromPath doc3 0 ''card_9'' \<noteq> Some 3" by simp
  then have d2: "\<not> descends doc3 0 [''card_9''] 3"
    unfolding t2 s2 .
  from t3 [THEN iffD1, OF r] have d3: "descends doc_dup 0 [''card_1'', ''button1''] 3"
    unfolding s3 .
  from r have "GetModelFromPath doc_dup 0 ''card_1.button1'' \<noteq> Some 4" by simp
  then have d4: "\<not> descends doc_dup 0 [''card_1'', ''button1''] 4"
    unfolding t4 s3 .
  from r have "GetModelFromPath doc_dup 0 ''card_1.button1'' \<noteq> Some 5" by simp
  then have d5: "\<not> descends doc_dup 0 [''card_1'', ''button1''] 5"
    unfolding t5 s3 .
  show ?thesis by (intro conjI p d1 q d2 r d3 d4 d5)
qed

text \<open>
  C8 as stated fails: in the three-card document the card at index 1 (object 2) holds
  a node named \<^verbatim>\<open>button1\<close> (object 5), and \<^verbatim>\<open>"1.button1"\<close> returns not-found, since no
  card is named \<^verbatim>\<open>1\<close>.
\<close>

theorem GetModelFromPath_index_counterexample:
  "py_index (childModels (doc3 0)) 1 = Some 2 \<and> 5 \<in> set (childModels (doc3 2)) \<and>
   name (doc3 5) = ''button1'' \<and> GetModelFromPath doc3 0 ''1.button1'' = None"
  by (simp add: GetModelFromPath_def doc3_def blank_model_def py_index_def)

text \<open>
  C10, as amended. While the stack model has not been set down, \<^verbatim>\<open>card_with_number\<close>
  raises \<^verbatim>\<open>TypeError\<close> for every argument that is not an int, raises \<^verbatim>\<open>ValueError\<close> for
  every int outside 1 .. number of cards, and for an int \<open>n\<close> in that range returns the
  proxy of the card at index \<open>n - 1\<close>; it computes a result and changes nothing. Once
  the stack model has been set down it returns \<^verbatim>\<open>None\<close> for every argument.
\<close>

theorem card_with_number_checks:
  "(didSetDown (ms model) \<longrightarrow> card_with_number ms model number = Inr None) \<and>
   (\<not> didSetDown (ms model) \<and> \<not> isinstance_int number
      \<longrightarrow> card_with_number ms model number = Inl TypeError) \<and>
   (\<not> didSetDown (ms model) \<and> isinstance_int number \<and>
      (int_of number < 1 \<or> int_of number > int (length (childModels (ms model))))
      \<longrightarrow> card_with_number ms model number = Inl ValueError) \<and>
   (\<not> didSetDown (ms model) \<and> isinstance_int number \<and>
      1 \<le> int_of number \<and> int_of number \<le> int (length (childModels (ms model)))
      \<longrightarrow> card_with_number ms model number =
            Inr (Some (Proxy (childModels (ms model) ! nat (int_of number - 1)))))"
  by (auto simp: card_with_number_def py_index_def)

text \<open>
  The theorem on the three-card document, once for each of its cases: set down; a
  string; 0 and 4, out of range; 2 and \<^verbatim>\<open>True\<close>, in range.
\<close>

theorem card_with_number_checks_witness:
  "card_with_number (doc3(0 := (doc3 0)\<lparr>didSetDown := True\<rparr>)) 0 (PyInt 2) = Inr None \<and>
   card_with_number doc3 0 (PyStr ''2'') = Inl TypeError \<and>
   card_with_number doc3 0 (PyInt 0) = Inl ValueError \<and>
   card_with_number doc3 0 (PyInt 4) = Inl ValueError \<and>
   card_with_number doc3 0 (PyInt 2) = Inr (Some (Proxy 2)) \<and>
   card_with_number doc3 0 (PyBool True) = Inr (Some (Proxy 1))"
  using card_with_number_checks [of "doc3(0 := (doc3 0)\<lparr>didSetDown := True\<rparr>)" 0 "PyInt 2"]
    card_with_number_checks [of doc3 0 "PyStr ''2''"]
    card_with_number_checks [of doc3 0 "PyInt 0"]
    card_with_number_checks [of doc3 0 "PyInt 4"]
    card_with_number_checks [of doc3 0 "PyInt 2"]
    card_with_number_checks [of doc3 0 "PyBool True"]
  by (simp add: doc3_def blank_model_def)

text \<open>
  C10 as stated fails: on a stack model that has been set down, a string argument
  raises no \<^verbatim>\<open>TypeError\<close> and the out-of-range 7 raises no \<^verbatim>\<open>ValueError\<close>; both
  return \<^verbatim>\<open>None\<close>.
\<close>

theorem card_with_number_set_down_counterexample:
  "\<not> isinstance_int (PyStr ''2'') \<and>
   card_with_number (doc3(0 := (doc3 0)\<lparr>didSetDown := True\<rparr>)) 0 (PyStr ''2'') = Inr None \<and>
   card_with_number (doc3(0 := (doc3 0)\<lparr>didSetDown := True\<rparr>)) 0 (PyInt 7) = Inr None"
  by (simp add: card_with_number_def doc3_def blank_model_def)


section \<open>Properties of page.py\<close>

text \<open>
  C7 at the failing input. With the existing names \<^verbatim>\<open>["card2", "card1"]\<close> the
  candidate \<^verbatim>\<open>card1\<close> is found only after the iterator has passed \<^verbatim>\<open>card2\<close>; the next
  candidate \<^verbatim>\<open>card2\<close> is then looked for in the exhausted iterator and returned, though
  it is an existing name.
\<close>

theorem GetNextAvailableName_returns_existing_name:
  "GetNextAvailableName [''card2'', ''card1''] ''card'' = ''card2'' \<and>
   ''card2'' \<in> set [''card2'', ''card1'']"
  by (simp add: GetNextAvailableName_def GetNextAvailableName_loop.simps str_nat.simps digit_char_def)

lemma GetNextAvailableName_spec_example:
  "GetNextAvailableName [''card'', ''card1''] ''card'' = ''card2''"
  by (simp add: GetNextAvailableName_def GetNextAvailableName_loop.simps str_nat.simps digit_char_def)


section \<open>Properties of stackManager.py\<close>

subsection \<open>What the view operations leave alone\<close>

lemma same_control_refl [simp]: "same_control sm sm"
  by (simp add: same_control_def)

lemma same_control_trans:
  "same_control a b \<Longrightarrow> same_control b c \<Longrightarrow> same_control a c"
  by (simp add: same_control_def)

lemma same_control_AddUiViewInternal:
  "same_control sm (snd (AddUiViewInternal t m sm))"
  by (simp add: same_control_def AddUiViewInternal_def Let_def)

lemma same_control_Command_Do: "same_control sm (snd (Command_Do cmd sm))"
proof (cases cmd)
  case (AddUiViewsCommand ci ms)
  have "same_control sm (fold (\<lambda>m s. snd (AddUiViewInternal (mtype (models s m)) m s)) ms sm)"
  proof (induction ms arbitrary: sm)
    case Nil
    show ?case by simp
  next
    case (Cons m ms)
    show ?case
      using same_control_trans [OF same_control_AddUiViewInternal Cons.IH] by simp
  qed
  with AddUiViewsCommand show ?thesis by simp
qed

lemma same_control_fold_SetSelected: "same_control sm (fold (SetSelected b) us sm)"
proof (induction us arbitrary: sm)
  case Nil
  show ?case by simp
next
  case (Cons u us)
  have "same_control sm (SetSelected b u sm)"
    by (simp add: same_control_def SetSelected_def)
  from same_control_trans [OF this Cons.IH] show ?case by simp
qed

lemma same_control_SelectUiView: "same_control sm (SelectUiView u e sm)"
proof -
  have a: "same_control sm (fold (SetSelected False) (selectedViews sm) sm)"
    by (rule same_control_fold_SetSelected)
  show ?thesis
    using a by (auto simp: SelectUiView_def Let_def same_control_def SetSelected_def
                     split: option.splits)
qed

lemma same_control_ClearAllViews: "same_control sm (ClearAllViews sm)"
  using same_control_SelectUiView [of sm None False]
  by (simp add: ClearAllViews_def Let_def same_control_def)

lemma same_control_dedup_fold: "same_control sm (fold (dedup_step dedup) ms sm)"
proof (induction ms arbitrary: sm)
  case Nil
  show ?case by simp
next
  case (Cons m ms)
  have "same_control sm (dedup_step dedup m sm)"
    by (simp add: same_control_def dedup_step_def SetName_def Let_def)
  from same_control_trans [OF this Cons.IH] show ?case by simp
qed

lemma same_control_AddUiViewsFromModels:
  "same_control sm (snd (AddUiViewsFromModels dedup ms False sm))"
proof -
  have "same_control sm
          (snd (Command_Do (AddUiViewsCommand (cardIndex (fold (dedup_step dedup) ms sm)) ms)
                 (fold (dedup_step dedup) ms sm)))"
    by (rule same_control_trans [OF same_control_dedup_fold same_control_Command_Do])
  then show ?thesis by (simp add: AddUiViewsFromModels_def Let_def)
qed

lemma same_control_CreateViews: "same_control sm (CreateViews dedup c sm)"
proof -
  have "same_control sm (sm\<lparr>uis := (uis sm)(uiCard sm := (uis sm (uiCard sm))\<lparr>ui_model := c\<rparr>),
                            uiViews := []\<rparr>)"
    by (simp add: same_control_def)
  from same_control_trans [OF this same_control_AddUiViewsFromModels]
  show ?thesis by (simp add: CreateViews_def Let_def)
qed

lemma fold_SetSelected_rest:
  "models (fold (SetSelected b) us sm) = models sm \<and>
   uiViews (fold (SetSelected b) us sm) = uiViews sm \<and>
   nextUid (fold (SetSelected b) us sm) = nextUid sm \<and>
   selectedViews (fold (SetSelected b) us sm) = selectedViews sm \<and>
   (\<forall>u. ui_model (uis (fold (SetSelected b) us sm) u) = ui_model (uis sm u) \<and>
        ui_parent (uis (fold (SetSelected b) us sm) u) = ui_parent (uis sm u))"
  by (induction us arbitrary: sm) (simp_all add: SetSelected_def)

lemma SelectUiView_rest:
  "models (SelectUiView u e sm) = models sm \<and>
   uiViews (SelectUiView u e sm) = uiViews sm \<and>
   nextUid (SelectUiView u e sm) = nextUid sm \<and>
   (\<forall>v. ui_model (uis (SelectUiView u e sm) v) = ui_model (uis sm v) \<and>
        ui_parent (uis (SelectUiView u e sm) v) = ui_parent (uis sm v))"
  by (simp add: SelectUiView_def Let_def SetSelected_def fold_SetSelected_rest split: option.splits)

lemma ClearAllViews_rest:
  "models (ClearAllViews sm) = models sm \<and>
   nextUid (ClearAllViews sm) = nextUid sm \<and>
   (\<forall>v. ui_model (uis (ClearAllViews sm) v) = ui_model (uis sm v))"
  by (simp add: ClearAllViews_def Let_def SelectUiView_rest)

lemma same_docs_refl [simp]: "same_docs ms ms"
  by (simp add: same_docs_def)

lemma same_docs_trans: "same_docs a b \<Longrightarrow> same_docs b c \<Longrightarrow> same_docs a c"
  by (simp add: same_docs_def)

lemma AddUiViewInternal_child:
  assumes "uiCard s < nextUid s" and "m \<in> set (childModels (models s (model_of s (uiCard s))))"
  shows "same_docs (models s) (models (snd (AddUiViewInternal t m s))) \<and>
         nextUid s \<le> nextUid (snd (AddUiViewInternal t m s)) \<and>
         uiCard (snd (AddUiViewInternal t m s)) < nextUid (snd (AddUiViewInternal t m s)) \<and>
         model_of (snd (AddUiViewInternal t m s)) (uiCard (snd (AddUiViewInternal t m s)))
           = model_of s (uiCard s)"
  using assms
  by (auto simp: AddUiViewInternal_def Let_def model_of_def same_docs_def)

lemma Do_fold_children:
  assumes "uiCard s < nextUid s"
    and "set ms \<subseteq> set (childModels (models s (model_of s (uiCard s))))"
  shows "same_docs (models s)
           (models (fold (\<lambda>m s. snd (AddUiViewInternal (mtype (models s m)) m s)) ms s)) \<and>
         nextUid s \<le> nextUid (fold (\<lambda>m s. snd (AddUiViewInternal (mtype (models s m)) m s)) ms s) \<and>
         uiCard (fold (\<lambda>m s. snd (AddUiViewInternal (mtype (models s m)) m s)) ms s)
           < nextUid (fold (\<lambda>m s. snd (AddUiViewInternal (mtype (models s m)) m s)) ms s) \<and>
         model_of (fold (\<lambda>m s. snd (AddUiViewInternal (mtype (models s m)) m s)) ms s)
            (uiCard (fold (\<lambda>m s. snd (AddUiViewInternal (mtype (models s m)) m s)) ms s))
           = model_of s (uiCard s)"
  using assms
proof (induction ms arbitrary: s)
  case Nil
  then show ?case by simp
next
  case (Cons m ms)
  let ?s1 = "snd (AddUiViewInternal (mtype (models s m)) m s)"
  from Cons.prems have m: "m \<in> set (childModels (models s (model_of s (uiCard s))))" by simp
  note st = AddUiViewInternal_child [OF Cons.prems(1) m, of "mtype (models s m)"]
  from st have ch: "childModels (models ?s1 (model_of ?s1 (uiCard ?s1)))
                    = childModels (models s (model_of s (uiCard s)))"
    by (simp add: same_docs_def)
  from Cons.prems ch have sub: "set ms \<subseteq> set (childModels (models ?s1 (model_of ?s1 (uiCard ?s1))))"
    by simp
  from st have lt: "uiCard ?s1 < nextUid ?s1" by simp
  from Cons.IH [OF lt sub] st show ?case
    by (auto intro: same_docs_trans)
qed

lemma dedup_fold_children:
  assumes "set ms \<subseteq> set (childModels (models s (model_of s (uiCard s))))"
  shows "fold (dedup_step dedup) ms s = s"
  using assms by (induction ms) (simp_all add: dedup_step_def Let_def)

lemma CreateViews_docs:
  assumes "uiCard sm < nextUid sm"
  shows "same_docs (models sm) (models (CreateViews dedup c sm)) \<and>
         nextUid sm \<le> nextUid (CreateViews dedup c sm) \<and>
         uiCard (CreateViews dedup c sm) < nextUid (CreateViews dedup c sm) \<and>
         model_of (CreateViews dedup c sm) (uiCard (CreateViews dedup c sm)) = c"
proof -
  let ?s2 = "sm\<lparr>uis := (uis sm)(uiCard sm := (uis sm (uiCard sm))\<lparr>ui_model := c\<rparr>), uiViews := []\<rparr>"
  have card: "model_of ?s2 (uiCard ?s2) = c" by (simp add: model_of_def)
  have sub: "set (childModels (models ?s2 c)) \<subseteq> set (childModels (models ?s2 (model_of ?s2 (uiCard ?s2))))"
    by (simp add: model_of_def)
  have lt: "uiCard ?s2 < nextUid ?s2" using assms by simp
  have cv: "CreateViews dedup c sm =
        fold (\<lambda>m s. snd (AddUiViewInternal (mtype (models s m)) m s)) (childModels (models ?s2 c)) ?s2"
    using dedup_fold_children [OF sub, of dedup]
    by (simp add: CreateViews_def AddUiViewsFromModels_def Let_def)
  from Do_fold_children [OF lt sub] card show ?thesis
    unfolding cv by simp
qed

lemma same_session_refl [simp]: "same_session sm sm"
  by (simp add: same_session_def)

lemma same_session_trans:
  "same_session a b \<Longrightarrow> same_session b c \<Longrightarrow> same_session a c"
  unfolding same_session_def
  by (auto intro: same_docs_trans)

lemma same_session_runner_call [simp]: "same_session sm (runner_call r c sm)"
  by (simp add: same_session_def runner_call_def)

lemma same_session_control:
  "same_control sm sm' \<Longrightarrow> same_docs (models sm) (models sm') \<Longrightarrow> nextUid sm \<le> nextUid sm'
   \<Longrightarrow> same_session sm sm'"
  by (simp add: same_session_def same_control_def)

lemma same_session_ClearAllViews: "same_session sm (ClearAllViews sm)"
  using same_control_ClearAllViews [of sm] ClearAllViews_rest [of sm]
  by (simp add: same_session_control)

lemma same_session_SelectUiView: "same_session sm (SelectUiView u e sm)"
  using same_control_SelectUiView [of sm u e] SelectUiView_rest [of u e sm]
  by (simp add: same_session_control)

lemma same_session_CreateViews:
  "uiCard sm < nextUid sm \<Longrightarrow> same_session sm (CreateViews dedup c sm)"
  using same_control_CreateViews [of sm dedup c] CreateViews_docs [of sm dedup c]
  by (simp add: same_session_control)

lemma runner_call_fields [simp]:
  "isEditing (runner_call r c sm) = isEditing sm"
  "runner (runner_call r c sm) = runner sm"
  "models (runner_call r c sm) = models sm"
  "uis (runner_call r c sm) = uis sm"
  "uiCard (runner_call r c sm) = uiCard sm"
  "nextUid (runner_call r c sm) = nextUid sm"
  "stackModel (runner_call r c sm) = stackModel sm"
  "cardIndex (runner_call r c sm) = cardIndex sm"
  "selectedViews (runner_call r c sm) = selectedViews sm"
  "uiViews (runner_call r c sm) = uiViews sm"
  "filename (runner_call r c sm) = filename sm"
  "command_processor (runner_call r c sm) = command_processor sm"
  "stackSetupValue (runners (runner_call r c sm) r') = stackSetupValue (runners sm r')"
  by (simp_all add: runner_call_def)

lemma hide_old_card_ok:
  assumes "isEditing sm \<or> reload \<or> cardIndex sm = None \<or>
           (\<exists>j c. cardIndex sm = Some j \<and>
                  py_index (childModels (models sm (stackModel sm))) j = Some c)"
  shows "fst (hide_old_card reload sm) = None \<and> same_session sm (snd (hide_old_card reload sm)) \<and>
         cardIndex (snd (hide_old_card reload sm)) = cardIndex sm"
  using assms
  by (auto simp: hide_old_card_def split: option.splits)

lemma show_new_card_session:
  "same_session sm (show_new_card c reload sm) \<and>
   cardIndex (show_new_card c reload sm) = cardIndex sm"
  by (auto simp: show_new_card_def Let_def same_session_def intro: same_session_trans split: option.splits)

lemma LoadCardAtIndex_result:
  assumes lt: "uiCard sm < nextUid sm"
    and new: "index = None \<or>
              (\<exists>i c. index = Some i \<and> py_index (childModels (models sm (stackModel sm))) i = Some c)"
    and old: "isEditing sm \<or> reload \<or> cardIndex sm = None \<or>
           (\<exists>j c. cardIndex sm = Some j \<and>
                  py_index (childModels (models sm (stackModel sm))) j = Some c)"
  shows "fst (LoadCardAtIndex dedup index reload sm) = None \<and>
         cardIndex (snd (LoadCardAtIndex dedup index reload sm)) = index \<and>
         same_session sm (snd (LoadCardAtIndex dedup index reload sm))"
proof (cases "index \<noteq> cardIndex sm \<or> reload")
  case False
  then show ?thesis by (simp add: LoadCardAtIndex_def)
next
  case True
  obtain s1 where h: "hide_old_card reload sm = (None, s1)"
    and s1: "same_session sm s1"
    using hide_old_card_ok [OF old] by (cases "hide_old_card reload sm") auto
  define s3 where "s3 = (ClearAllViews (s1\<lparr>cardIndex := index\<rparr>))\<lparr>lastFocusedTextField := None\<rparr>"
  have a: "same_session s1 (s1\<lparr>cardIndex := index\<rparr>)"
    by (simp add: same_session_def)
  have b: "same_session (s1\<lparr>cardIndex := index\<rparr>) (ClearAllViews (s1\<lparr>cardIndex := index\<rparr>))"
    by (rule same_session_ClearAllViews)
  have c: "same_session (ClearAllViews (s1\<lparr>cardIndex := index\<rparr>)) s3"
    by (simp add: s3_def same_session_def)
  have s3: "same_session sm s3"
    by (rule same_session_trans [OF s1 same_session_trans [OF a same_session_trans [OF b c]]])
  have ci3: "cardIndex s3 = index"
    using same_control_ClearAllViews [of "s1\<lparr>cardIndex := index\<rparr>"]
    by (simp add: s3_def same_control_def)
  have L: "LoadCardAtIndex dedup index reload sm =
        (case index of
           None \<Rightarrow> (None, s3)
         | Some i \<Rightarrow>
             (case py_index (childModels (models s3 (stackModel s3))) i of
                None \<Rightarrow> (Some IndexError, s3)
              | Some cardModel \<Rightarrow>
                  (None, show_new_card cardModel reload
                     (SelectUiView (Some (uiCard (CreateViews dedup cardModel s3))) False
                        (CreateViews dedup cardModel s3)))))"
    using True h by (simp add: LoadCardAtIndex_def and_then_def s3_def Let_def split: option.splits)
  show ?thesis
  proof (cases index)
    case None
    with L s3 ci3 show ?thesis by simp
  next
    case (Some i)
    with new obtain c where c: "py_index (childModels (models sm (stackModel sm))) i = Some c"
      by auto
    from s3 have "childModels (models s3 (stackModel s3)) = childModels (models sm (stackModel sm))"
      by (simp add: same_session_def same_docs_def)
    with c have c3: "py_index (childModels (models s3 (stackModel s3))) i = Some c" by simp
    let ?s4 = "CreateViews dedup c s3"
    let ?s5 = "SelectUiView (Some (uiCard ?s4)) False ?s4"
    let ?s6 = "show_new_card c reload ?s5"
    from s3 lt have lt3: "uiCard s3 < nextUid s3" by (simp add: same_session_def)
    have s4: "same_session s3 ?s4" by (rule same_session_CreateViews [OF lt3])
    have s5: "same_session ?s4 ?s5" by (rule same_session_SelectUiView)
    have s6: "same_session ?s5 ?s6" using show_new_card_session by blast
    have all: "same_session sm ?s6"
      by (rule same_session_trans [OF s3 same_session_trans [OF s4 same_session_trans [OF s5 s6]]])
    have "cardIndex ?s4 = cardIndex s3"
      using same_control_CreateViews [of s3 dedup c] by (simp add: same_control_def)
    moreover have "cardIndex ?s5 = cardIndex ?s4"
      using same_control_SelectUiView [of ?s4 "Some (uiCard ?s4)" False] by (simp add: same_control_def)
    moreover have "cardIndex ?s6 = cardIndex ?s5" using show_new_card_session by blast
    ultimately have ci: "cardIndex ?s6 = index" using ci3 by simp
    from L Some c3 have "LoadCardAtIndex dedup index reload sm = (None, ?s6)" by simp
    with all ci show ?thesis by simp
  qed
qed

lemmas ClearAllViews_control [simp] = same_control_ClearAllViews [unfolded same_control_def]

lemmas CreateViews_control [simp] = same_control_CreateViews [unfolded same_control_def]

lemmas SelectUiView_control [simp] = same_control_SelectUiView [unfolded same_control_def]

lemma SelectUiView_viewer [simp]: "\<not> isEditing sm \<Longrightarrow> SelectUiView u e sm = sm"
  by (simp add: SelectUiView_def)

lemma SelectUiView_single:
  "isEditing sm \<Longrightarrow>
     selectedViews (SelectUiView (Some u) False sm) = [u] \<and>
     isSelected (uis (SelectUiView (Some u) False sm) u)"
  by (simp add: SelectUiView_def extend_allowed_def Let_def SetSelected_def)

lemma LoadCardAtIndex_Some_steps:
  assumes "Some i \<noteq> cardIndex sm \<or> reload"
    and "hide_old_card reload sm = (None, s1)"
    and "py_index (childModels (models s1 (stackModel s1))) i = Some c"
  shows "LoadCardAtIndex dedup (Some i) reload sm =
     (None, show_new_card c reload
        (SelectUiView
           (Some (uiCard s1)) False
           (CreateViews dedup c
              ((ClearAllViews (s1\<lparr>cardIndex := Some i\<rparr>))\<lparr>lastFocusedTextField := None\<rparr>))))"
  using assms
  by (simp add: LoadCardAtIndex_def and_then_def Let_def ClearAllViews_rest)

lemma show_new_card_editing [simp]: "isEditing sm \<Longrightarrow> show_new_card c reload sm = sm"
  by (simp add: show_new_card_def split: option.splits)

lemma LoadCardAtIndex_editing_steps:
  assumes ed: "isEditing sm" and ne: "Some i \<noteq> cardIndex sm \<or> reload"
    and c: "py_index (childModels (models sm (stackModel sm))) i = Some c"
  shows "LoadCardAtIndex dedup (Some i) reload sm =
     (None, SelectUiView (Some (uiCard sm)) False
              (CreateViews dedup c
                 ((ClearAllViews (sm\<lparr>cardIndex := Some i\<rparr>))\<lparr>lastFocusedTextField := None\<rparr>)))"
proof -
  have h: "hide_old_card reload sm = (None, sm)"
    using ed by (simp add: hide_old_card_def split: option.splits)
  from LoadCardAtIndex_Some_steps [OF ne h c, of dedup] ed show ?thesis by simp
qed


subsection \<open>The example states\<close>

text \<open>
  The fields of the example managers, and the definitions that evaluate the operations
  on them.
\<close>

lemma ex_manager_fields:
  "isEditing ex_manager = False" "runner ex_manager = Some 0" "stackModel ex_manager = 0"
  "cardIndex ex_manager = Some 1" "uiCard ex_manager = 0" "nextUid ex_manager = 2"
  "models ex_manager = ex_models" "uis ex_manager = ex_uis" "selectedViews ex_manager = []"
  "uiViews ex_manager = [1]" "runners ex_manager = (\<lambda>_. new_Runner)"
  by (simp_all add: ex_manager_def)

lemma ex_editing_fields:
  "isEditing ex_editing = True" "runner ex_editing = None" "stackModel ex_editing = 0"
  "cardIndex ex_editing = Some 1" "uiCard ex_editing = 0" "nextUid ex_editing = 2"
  "models ex_editing = ex_models" "selectedViews ex_editing = [1]"
  "uiViews ex_editing = [1]" "runners ex_editing = (\<lambda>_. new_Runner)"
  "uis ex_editing = ex_uis(1 := \<lparr>ui_model = 4, ui_parent = Some 0, isSelected = True\<rparr>)"
  by (simp_all add: ex_editing_def ex_manager_def)

lemma ex_models_cards:
  "childModels (ex_models 0) = [1, 2]" "childModels (ex_models 5) = [6]"
  "childModels (ex_models 1) = [3]" "childModels (ex_models 2) = [4]"
  "handlers (ex_models 1) = [(''OnShowCard'', ''beep()'')]"
  "mtype (ex_models 2) = ''card''" "mtype (ex_models 4) = ''textfield''"
  "mtype (ex_models 8) = ''button''"
  by (simp_all add: ex_models_def blank_model_def)

lemmas ex_eval = LoadCardAtIndex_def and_then_def hide_old_card_def show_new_card_def
  ClearAllViews_def CreateViews_def AddUiViewsFromModels_def dedup_step_def
  AddUiViewInternal_def SelectUiView_def runner_call_def model_of_def type_of_ui_def
  known_view_type_def GetHandler_truthy_def last_n_def extend_allowed_def parent_is_group_def
  SetSelected_def RemoveUiViewByModel_def RemoveChild_def AddChild_def
  ex_manager_def ex_editing_def ex_models_def ex_uis_def blank_model_def py_index_def Let_def
  new_Runner_def ex_dedup_def


subsection \<open>Card navigation and the selection\<close>

lemma AddUiViewInternal_selection:
  "selectedViews (snd (AddUiViewInternal t m s)) = selectedViews s"
  by (simp add: AddUiViewInternal_def Let_def)

lemma Do_fold_selection:
  "selectedViews (fold (\<lambda>m s. snd (AddUiViewInternal (mtype (models s m)) m s)) ms s)
   = selectedViews s"
  by (induction ms arbitrary: s) (simp_all add: AddUiViewInternal_selection)

lemma dedup_fold_selection:
  "selectedViews (fold (dedup_step dedup) ms s) = selectedViews s"
  by (induction ms arbitrary: s) (simp_all add: dedup_step_def SetName_def Let_def)

lemma CreateViews_selection:
  "selectedViews (CreateViews dedup c sm) = selectedViews sm"
  by (simp add: CreateViews_def AddUiViewsFromModels_def Let_def Do_fold_selection
        dedup_fold_selection)

lemma hide_old_card_selection:
  "selectedViews (snd (hide_old_card reload sm)) = selectedViews sm \<and>
   isEditing (snd (hide_old_card reload sm)) = isEditing sm"
  by (simp add: hide_old_card_def runner_call_def split: option.splits)

lemma show_new_card_selection:
  "selectedViews (show_new_card c reload sm) = selectedViews sm"
  by (simp add: show_new_card_def runner_call_def Let_def split: option.splits)

lemma ClearAllViews_viewer_selection:
  "\<not> isEditing sm \<Longrightarrow> selectedViews (ClearAllViews sm) = selectedViews sm"
  by (simp add: ClearAllViews_def Let_def)

lemma LoadCardAtIndex_viewer_selection:
  assumes v: "\<not> isEditing sm"
  shows "selectedViews (snd (LoadCardAtIndex dedup index reload sm)) = selectedViews sm"
proof (cases "index \<noteq> cardIndex sm \<or> reload")
  case False
  then show ?thesis by (simp add: LoadCardAtIndex_def)
next
  case True
  obtain e s1 where h: "hide_old_card reload sm = (e, s1)" by force
  from hide_old_card_selection [of reload sm] h
  have s1: "selectedViews s1 = selectedViews sm" "\<not> isEditing s1" using v by simp_all
  define s3 where "s3 = (ClearAllViews (s1\<lparr>cardIndex := index\<rparr>))\<lparr>lastFocusedTextField := None\<rparr>"
  have v3: "\<not> isEditing s3" using s1 by (simp add: s3_def)
  have s3: "selectedViews s3 = selectedViews sm"
    using s1 by (simp add: s3_def ClearAllViews_viewer_selection)
  show ?thesis
  proof (cases e)
    case (Some err)
    with True h s1 show ?thesis by (simp add: LoadCardAtIndex_def and_then_def)
  next
    case None
    with True h have L: "LoadCardAtIndex dedup index reload sm =
        (case index of
           None \<Rightarrow> (None, s3)
         | Some i \<Rightarrow>
             (case py_index (childModels (models s3 (stackModel s3))) i of
                None \<Rightarrow> (Some IndexError, s3)
              | Some cardModel \<Rightarrow>
                  (None, show_new_card cardModel reload
                     (SelectUiView (Some (uiCard (CreateViews dedup cardModel s3))) False
                        (CreateViews dedup cardModel s3)))))"
      by (simp add: LoadCardAtIndex_def and_then_def s3_def Let_def split: option.splits)
    have v4: "\<not> isEditing (CreateViews dedup cm s3)" for cm using v3 by simp
    show ?thesis
      unfolding L using s3 v4
      by (simp add: show_new_card_selection CreateViews_selection split: option.splits)
  qed
qed

text \<open>
  C5, as amended. In editing mode, every \<^verbatim>\<open>LoadCardAtIndex\<close> that loads a card (a
  valid index that differs from the current one, or a forced reload) succeeds and resets
  the selection: the card's UI view, now showing the newly active card, is the sole
  selected object. Outside editing mode \<^verbatim>\<open>SelectUiView\<close> does nothing, and every
  \<^verbatim>\<open>LoadCardAtIndex\<close>, whatever the index and whether or not it reloads or raises,
  leaves the selection as it was.
\<close>

theorem LoadCardAtIndex_selects_card:
  "(isEditing sm \<and> uiCard sm < nextUid sm \<and> (Some i \<noteq> cardIndex sm \<or> reload) \<and>
    py_index (childModels (models sm (stackModel sm))) i = Some c \<longrightarrow>
      fst (LoadCardAtIndex dedup (Some i) reload sm) = None \<and>
      cardIndex (snd (LoadCardAtIndex dedup (Some i) reload sm)) = Some i \<and>
      selectedViews (snd (LoadCardAtIndex dedup (Some i) reload sm)) = [uiCard sm] \<and>
      isSelected (uis (snd (LoadCardAtIndex dedup (Some i) reload sm)) (uiCard sm)) \<and>
      uiCard (snd (LoadCardAtIndex dedup (Some i) reload sm)) = uiCard sm \<and>
      model_of (snd (LoadCardAtIndex dedup (Some i) reload sm)) (uiCard sm) = c) \<and>
   (\<not> isEditing sm \<longrightarrow>
      selectedViews (snd (LoadCardAtIndex dedup index reload sm)) = selectedViews sm)"
proof (intro conjI impI)
  assume h: "isEditing sm \<and> uiCard sm < nextUid sm \<and> (Some i \<noteq> cardIndex sm \<or> reload) \<and>
    py_index (childModels (models sm (stackModel sm))) i = Some c"
  then have ed: "isEditing sm" and lt: "uiCard sm < nextUid sm"
    and ne: "Some i \<noteq> cardIndex sm \<or> reload"
    and c: "py_index (childModels (models sm (stackModel sm))) i = Some c"
    by simp_all
  let ?s3 = "(ClearAllViews (sm\<lparr>cardIndex := Some i\<rparr>))\<lparr>lastFocusedTextField := None\<rparr>"
  let ?s4 = "CreateViews dedup c ?s3"
  let ?s5 = "SelectUiView (Some (uiCard sm)) False ?s4"
  have L: "LoadCardAtIndex dedup (Some i) reload sm = (None, ?s5)"
    by (rule LoadCardAtIndex_editing_steps [OF ed ne c])
  have ed4: "isEditing ?s4" using ed by simp
  have lt3: "uiCard ?s3 < nextUid ?s3" using lt by (simp add: ClearAllViews_rest)
  have m4: "model_of ?s4 (uiCard sm) = c"
    using CreateViews_docs [OF lt3, of dedup c] by simp
  have m5: "model_of ?s5 (uiCard sm) = c"
    using m4 SelectUiView_rest [of "Some (uiCard sm)" False ?s4] by (simp add: model_of_def)
  from SelectUiView_single [OF ed4, of "uiCard sm"] m5
  have all: "fst (LoadCardAtIndex dedup (Some i) reload sm) = None \<and>
      cardIndex (snd (LoadCardAtIndex dedup (Some i) reload sm)) = Some i \<and>
      selectedViews (snd (LoadCardAtIndex dedup (Some i) reload sm)) = [uiCard sm] \<and>
      isSelected (uis (snd (LoadCardAtIndex dedup (Some i) reload sm)) (uiCard sm)) \<and>
      uiCard (snd (LoadCardAtIndex dedup (Some i) reload sm)) = uiCard sm \<and>
      model_of (snd (LoadCardAtIndex dedup (Some i) reload sm)) (uiCard sm) = c"
    unfolding L by simp
  from all show "fst (LoadCardAtIndex dedup (Some i) reload sm) = None" by simp
  from all show "cardIndex (snd (LoadCardAtIndex dedup (Some i) reload sm)) = Some i" by simp
  from all show "selectedViews (snd (LoadCardAtIndex dedup (Some i) reload sm)) = [uiCard sm]" by simp
  from all show "isSelected (uis (snd (LoadCardAtIndex dedup (Some i) reload sm)) (uiCard sm))" by simp
  from all show "uiCard (snd (LoadCardAtIndex dedup (Some i) reload sm)) = uiCard sm" by simp
  from all show "model_of (snd (LoadCardAtIndex dedup (Some i) reload sm)) (uiCard sm) = c" by simp
next
  assume v: "\<not> isEditing sm"
  show "selectedViews (snd (LoadCardAtIndex dedup index reload sm)) = selectedViews sm"
    by (rule LoadCardAtIndex_viewer_selection [OF v])
qed

text \<open>
  The theorem on the example managers. In editing mode, where the field is selected,
  going from the card at index 1 to index 0 leaves exactly the card selected. In viewer
  mode with the field still in the selection, the same navigation, and a forced reload
  at an index that is out of range, leave the field selected.
\<close>

theorem LoadCardAtIndex_selects_card_witness:
  "isEditing ex_editing \<and> selectedViews ex_editing = [1] \<and>
   fst (LoadCardAtIndex ex_dedup (Some 0) False ex_editing) = None \<and>
   cardIndex (snd (LoadCardAtIndex ex_dedup (Some 0) False ex_editing)) = Some 0 \<and>
   selectedViews (snd (LoadCardAtIndex ex_dedup (Some 0) False ex_editing)) = [uiCard ex_editing] \<and>
   isSelected (uis (snd (LoadCardAtIndex ex_dedup (Some 0) False ex_editing)) (uiCard ex_editing)) \<and>
   model_of (snd (LoadCardAtIndex ex_dedup (Some 0) False ex_editing)) (uiCard ex_editing) = 1 \<and>
   \<not> isEditing (ex_manager\<lparr>selectedViews := [1]\<rparr>) \<and>
   selectedViews (snd (LoadCardAtIndex ex_dedup (Some 0) False (ex_manager\<lparr>selectedViews := [1]\<rparr>)))
     = [1] \<and>
   selectedViews (snd (LoadCardAtIndex ex_dedup (Some 5) True (ex_manager\<lparr>selectedViews := [1]\<rparr>)))
     = [1]"
proof -
  have h1: "isEditing ex_editing" by (simp add: ex_editing_fields)
  have h2: "uiCard ex_editing < nextUid ex_editing" by (simp add: ex_editing_fields)
  have h3: "Some 0 \<noteq> cardIndex ex_editing \<or> False" by (simp add: ex_editing_fields)
  have h4: "py_index (childModels (models ex_editing (stackModel ex_editing))) 0 = Some 1"
    by (simp add: ex_editing_fields ex_models_cards py_index_def)
  have v: "\<not> isEditing (ex_manager\<lparr>selectedViews := [1]\<rparr>)"
    by (simp add: ex_manager_fields)
  have sel: "selectedViews (ex_manager\<lparr>selectedViews := [1]\<rparr>) = [1]" by simp
  note e = LoadCardAtIndex_selects_card
             [where sm = ex_editing and i = 0 and reload = False and c = 1 and dedup = ex_dedup,
              THEN conjunct1, THEN mp, OF conjI [OF h1 conjI [OF h2 conjI [OF h3 h4]]]]
  note n1 = LoadCardAtIndex_selects_card
             [where sm = "ex_manager\<lparr>selectedViews := [1]\<rparr>" and index = "Some 0"
                and reload = False and dedup = ex_dedup,
              THEN conjunct2, THEN mp, OF v, unfolded sel]
  note n2 = LoadCardAtIndex_selects_card
             [where sm = "ex_manager\<lparr>selectedViews := [1]\<rparr>" and index = "Some 5"
                and reload = True and dedup = ex_dedup,
              THEN conjunct2, THEN mp, OF v, unfolded sel]
  have s: "selectedViews ex_editing = [1]" by (simp add: ex_editing_fields)
  from e have e': "fst (LoadCardAtIndex ex_dedup (Some 0) False ex_editing) = None \<and>
   cardIndex (snd (LoadCardAtIndex ex_dedup (Some 0) False ex_editing)) = Some 0 \<and>
   selectedViews (snd (LoadCardAtIndex ex_dedup (Some 0) False ex_editing)) = [uiCard ex_editing] \<and>
   isSelected (uis (snd (LoadCardAtIndex ex_dedup (Some 0) False ex_editing)) (uiCard ex_editing)) \<and>
   model_of (snd (LoadCardAtIndex ex_dedup (Some 0) False ex_editing)) (uiCard ex_editing) = 1"
    by simp
  show ?thesis by (intro conjI h1 s e' [THEN conjunct1] e' [THEN conjunct2, THEN conjunct1]
      e' [THEN conjunct2, THEN conjunct2, THEN conjunct1]
      e' [THEN conjunct2, THEN conjunct2, THEN conjunct2, THEN conjunct1]
      e' [THEN conjunct2, THEN conjunct2, THEN conjunct2, THEN conjunct2] v n1 n2)
qed

text \<open>
  C5 as stated fails: in viewer mode the same navigation loads the card at index 0 and
  the selection is empty afterwards, not the card.
\<close>

theorem LoadCardAtIndex_viewer_selection_counterexample:
  "fst (LoadCardAtIndex ex_dedup (Some 0) False ex_manager) = None \<and>
   cardIndex (snd (LoadCardAtIndex ex_dedup (Some 0) False ex_manager)) = Some 0 \<and>
   selectedViews (snd (LoadCardAtIndex ex_dedup (Some 0) False ex_manager)) = [] \<and>
   uiCard (snd (LoadCardAtIndex ex_dedup (Some 0) False ex_manager)) = 0"
  by (simp add: ex_eval)


subsection \<open>Card navigation and the lifecycle events\<close>

lemma LoadCardAtIndex_same_index:
  "index = cardIndex sm \<Longrightarrow> \<not> reload \<Longrightarrow> LoadCardAtIndex dedup index reload sm = (None, sm)"
  by (simp add: LoadCardAtIndex_def)

lemma hide_old_card_runners:
  "isEditing sm \<or> runner sm = None \<or> reload \<Longrightarrow> snd (hide_old_card reload sm) = sm"
  by (auto simp: hide_old_card_def split: option.splits)

lemma show_new_card_no_runner [simp]: "runner sm = None \<Longrightarrow> show_new_card c reload sm = sm"
  by (simp add: show_new_card_def)

lemma LoadCardAtIndex_quiet:
  assumes "isEditing sm \<or> runner sm = None"
  shows "runners (snd (LoadCardAtIndex dedup index reload sm)) = runners sm"
proof -
  from assms have h: "snd (hide_old_card reload sm) = sm"
    using hide_old_card_runners [of sm reload] by blast
  obtain e where he: "hide_old_card reload sm = (e, sm)"
    using h by (cases "hide_old_card reload sm") simp
  have q: "\<And>s c. runners s = runners sm \<Longrightarrow> isEditing s = isEditing sm \<Longrightarrow> runner s = runner sm
         \<Longrightarrow> runners (show_new_card c reload s) = runners sm"
    using assms by (auto simp: show_new_card_def split: option.splits)
  show ?thesis
    by (cases e) (simp_all add: LoadCardAtIndex_def and_then_def he Let_def q split: option.splits)
qed

lemma handler_events_append [simp]:
  "handler_events (xs @ ys) = handler_events xs @ handler_events ys"
  by (simp add: handler_events_def)

lemma LoadCardAtIndex_reload_quiet:
  assumes "reload"
  shows "handler_events (calls (runners (snd (LoadCardAtIndex dedup index reload sm)) r))
         = handler_events (calls (runners sm r))"
proof -
  from assms have h: "hide_old_card reload sm = (None, sm)"
    by (simp add: hide_old_card_def split: option.splits)
  have q: "\<And>s c. runners s = runners sm
         \<Longrightarrow> handler_events (calls (runners (show_new_card c reload s) r))
             = handler_events (calls (runners sm r))"
    using assms
    by (auto simp: show_new_card_def runner_call_def handler_events_def Let_def split: option.splits)
  show ?thesis
    by (simp add: LoadCardAtIndex_def and_then_def h Let_def q split: option.splits)
qed

lemma LoadCardAtIndex_viewer_show:
  assumes v: "\<not> isEditing sm" and r: "runner sm = Some r" and lt: "uiCard sm < nextUid sm"
    and ne: "Some i \<noteq> cardIndex sm"
    and h: "hide_old_card False sm = (None, s1)"
    and s1: "runners s1 = (runners sm)(r := (runners sm r)\<lparr>calls := calls (runners sm r) @ hs\<rparr>)"
            "same_control (sm\<lparr>runners := runners s1\<rparr>) s1" "models s1 = models sm"
            "nextUid s1 = nextUid sm"
    and c: "py_index (childModels (models sm (stackModel sm))) i = Some c"
  shows "fst (LoadCardAtIndex dedup (Some i) False sm) = None \<and>
         cardIndex (snd (LoadCardAtIndex dedup (Some i) False sm)) = Some i \<and>
         runners (snd (LoadCardAtIndex dedup (Some i) False sm)) =
           (runners sm)(r := (runners sm r)\<lparr>calls := calls (runners sm r) @ hs @
              [SetupForCard c] @
              (if GetHandler_truthy (models sm c) ''OnShowCard''
               then [RunHandler c ''OnShowCard''] else [])\<rparr>)"
proof -
  from s1(2) have f1: "isEditing s1 = isEditing sm" "runner s1 = runner sm"
    "stackModel s1 = stackModel sm" "uiCard s1 = uiCard sm"
    by (simp_all add: same_control_def)
  let ?s3 = "(ClearAllViews (s1\<lparr>cardIndex := Some i\<rparr>))\<lparr>lastFocusedTextField := None\<rparr>"
  let ?s4 = "CreateViews dedup c ?s3"
  have c1: "py_index (childModels (models s1 (stackModel s1))) i = Some c"
    using c s1(3) f1 by simp
  have v4: "\<not> isEditing ?s4" using v f1 by simp
  have L: "LoadCardAtIndex dedup (Some i) False sm = (None, show_new_card c False ?s4)"
    using LoadCardAtIndex_Some_steps [OF disjI1 [OF ne] h c1, of dedup] v4 by simp
  have lt3: "uiCard ?s3 < nextUid ?s3" using lt f1 s1(4) by (simp add: ClearAllViews_rest)
  note d = CreateViews_docs [OF lt3, of dedup c]
  have m4: "model_of ?s4 (uiCard ?s4) = c" using d by simp
  have "handlers (models ?s4 c) = handlers (models ?s3 c)"
    using d by (simp add: same_docs_def)
  then have h4: "GetHandler_truthy (models ?s4 c) ''OnShowCard'' = GetHandler_truthy (models sm c) ''OnShowCard''"
    using s1(3) by (simp add: GetHandler_truthy_def ClearAllViews_rest)
  have r4: "runner ?s4 = Some r" using r f1 by simp
  have rs4: "runners ?s4 = runners s1" by simp
  have ci4: "cardIndex ?s4 = Some i" by simp
  have "runners (show_new_card c False ?s4) =
           (runners sm)(r := (runners sm r)\<lparr>calls := calls (runners sm r) @ hs @
              [SetupForCard c] @
              (if GetHandler_truthy (models sm c) ''OnShowCard''
               then [RunHandler c ''OnShowCard''] else [])\<rparr>)"
    using v4 r4 m4 h4 rs4 s1(1)
    by (simp add: show_new_card_def Let_def runner_call_def model_of_def)
  moreover have "cardIndex (show_new_card c False ?s4) = Some i"
    using show_new_card_session [of ?s4 c False] ci4 by simp
  ultimately show ?thesis unfolding L by simp
qed

lemma LoadCardAtIndex_transition:
  assumes v: "\<not> isEditing sm" and r: "runner sm = Some r" and lt: "uiCard sm < nextUid sm"
    and j: "cardIndex sm = Some j" and ne: "i \<noteq> j"
    and old: "py_index (childModels (models sm (stackModel sm))) j = Some old"
    and c: "py_index (childModels (models sm (stackModel sm))) i = Some c"
  shows "fst (LoadCardAtIndex dedup (Some i) False sm) = None \<and>
         cardIndex (snd (LoadCardAtIndex dedup (Some i) False sm)) = Some i \<and>
         runners (snd (LoadCardAtIndex dedup (Some i) False sm)) =
           (runners sm)(r := (runners sm r)\<lparr>calls := calls (runners sm r) @
              [RunHandler old ''OnHideCard''] @ [SetupForCard c] @
              (if GetHandler_truthy (models sm c) ''OnShowCard''
               then [RunHandler c ''OnShowCard''] else [])\<rparr>)"
proof -
  let ?s1 = "runner_call r (RunHandler old ''OnHideCard'') sm"
  have h: "hide_old_card False sm = (None, ?s1)"
    using v r j old by (simp add: hide_old_card_def)
  have ne': "Some i \<noteq> cardIndex sm" using j ne by simp
  show ?thesis
    by (rule LoadCardAtIndex_viewer_show [OF v r lt ne' h _ _ _ _ c])
       (simp_all add: runner_call_def same_control_def)
qed

lemma LoadCardAtIndex_first_load:
  assumes v: "\<not> isEditing sm" and r: "runner sm = Some r" and lt: "uiCard sm < nextUid sm"
    and j: "cardIndex sm = None"
    and c: "py_index (childModels (models sm (stackModel sm))) i = Some c"
  shows "fst (LoadCardAtIndex dedup (Some i) False sm) = None \<and>
         cardIndex (snd (LoadCardAtIndex dedup (Some i) False sm)) = Some i \<and>
         runners (snd (LoadCardAtIndex dedup (Some i) False sm)) =
           (runners sm)(r := (runners sm r)\<lparr>calls := calls (runners sm r) @ [] @
              [SetupForCard c] @
              (if GetHandler_truthy (models sm c) ''OnShowCard''
               then [RunHandler c ''OnShowCard''] else [])\<rparr>)"
proof -
  have h: "hide_old_card False sm = (None, sm)"
    using j by (simp add: hide_old_card_def)
  have ne': "Some i \<noteq> cardIndex sm" using j by simp
  show ?thesis
    by (rule LoadCardAtIndex_viewer_show [OF v r lt ne' h _ _ _ _ c])
       (simp_all add: same_control_def)
qed

text \<open>
  C4, as amended. Navigating to the currently active index without a forced reload does
  nothing at all. In editing mode, or with no runner attached, no call reaches any
  runner. A forced reload sends no handler event. In viewer mode with a runner, a
  navigation without reload from a valid active index to a different valid index sends
  to the runner, in this order and each exactly once: \<^verbatim>\<open>OnHideCard\<close> on the previously
  active card, the card setup for the new card, and \<^verbatim>\<open>OnShowCard\<close> on the newly
  active card when that card has an \<^verbatim>\<open>OnShowCard\<close> handler (no show event otherwise);
  the first load, from no active card, sends the same without the hide event.
\<close>

theorem LoadCardAtIndex_lifecycle:
  "(index = cardIndex sm \<and> \<not> reload \<longrightarrow> LoadCardAtIndex dedup index reload sm = (None, sm)) \<and>
   (isEditing sm \<or> runner sm = None
      \<longrightarrow> runners (snd (LoadCardAtIndex dedup index reload sm)) = runners sm) \<and>
   (reload \<longrightarrow> handler_events (calls (runners (snd (LoadCardAtIndex dedup index reload sm)) r'))
               = handler_events (calls (runners sm r'))) \<and>
   (\<not> isEditing sm \<and> runner sm = Some r \<and> uiCard sm < nextUid sm \<and>
    cardIndex sm = Some j \<and> i \<noteq> j \<and>
    py_index (childModels (models sm (stackModel sm))) j = Some old \<and>
    py_index (childModels (models sm (stackModel sm))) i = Some new
      \<longrightarrow> fst (LoadCardAtIndex dedup (Some i) False sm) = None \<and>
          cardIndex (snd (LoadCardAtIndex dedup (Some i) False sm)) = Some i \<and>
          runners (snd (LoadCardAtIndex dedup (Some i) False sm)) =
            (runners sm)(r := (runners sm r)\<lparr>calls := calls (runners sm r) @
               [RunHandler old ''OnHideCard''] @ [SetupForCard new] @
               (if GetHandler_truthy (models sm new) ''OnShowCard''
                then [RunHandler new ''OnShowCard''] else [])\<rparr>)) \<and>
   (\<not> isEditing sm \<and> runner sm = Some r \<and> uiCard sm < nextUid sm \<and> cardIndex sm = None \<and>
    py_index (childModels (models sm (stackModel sm))) i = Some new
      \<longrightarrow> fst (LoadCardAtIndex dedup (Some i) False sm) = None \<and>
          cardIndex (snd (LoadCardAtIndex dedup (Some i) False sm)) = Some i \<and>
          runners (snd (LoadCardAtIndex dedup (Some i) False sm)) =
            (runners sm)(r := (runners sm r)\<lparr>calls := calls (runners sm r) @
               [SetupForCard new] @
               (if GetHandler_truthy (models sm new) ''OnShowCard''
                then [RunHandler new ''OnShowCard''] else [])\<rparr>))"
proof (intro conjI impI)
  assume "index = cardIndex sm \<and> \<not> reload"
  then show "LoadCardAtIndex dedup index reload sm = (None, sm)"
    by (simp add: LoadCardAtIndex_same_index)
next
  assume "isEditing sm \<or> runner sm = None"
  then show "runners (snd (LoadCardAtIndex dedup index reload sm)) = runners sm"
    by (rule LoadCardAtIndex_quiet)
next
  assume reload
  then show "handler_events (calls (runners (snd (LoadCardAtIndex dedup index reload sm)) r'))
               = handler_events (calls (runners sm r'))"
    by (rule LoadCardAtIndex_reload_quiet)
next
  assume a: "\<not> isEditing sm \<and> runner sm = Some r \<and> uiCard sm < nextUid sm \<and>
    cardIndex sm = Some j \<and> i \<noteq> j \<and>
    py_index (childModels (models sm (stackModel sm))) j = Some old \<and>
    py_index (childModels (models sm (stackModel sm))) i = Some new"
  then have v: "\<not> isEditing sm" and r: "runner sm = Some r" and lt: "uiCard sm < nextUid sm"
    and j: "cardIndex sm = Some j" and ne: "i \<noteq> j"
    and old: "py_index (childModels (models sm (stackModel sm))) j = Some old"
    and new: "py_index (childModels (models sm (stackModel sm))) i = Some new"
    by simp_all
  note t = LoadCardAtIndex_transition [OF v r lt j ne old new, of dedup]
  from t show "fst (LoadCardAtIndex dedup (Some i) False sm) = None" by simp
  from t show "cardIndex (snd (LoadCardAtIndex dedup (Some i) False sm)) = Some i" by simp
  from t show "runners (snd (LoadCardAtIndex dedup (Some i) False sm)) =
            (runners sm)(r := (runners sm r)\<lparr>calls := calls (runners sm r) @
               [RunHandler old ''OnHideCard''] @ [SetupForCard new] @
               (if GetHandler_truthy (models sm new) ''OnShowCard''
                then [RunHandler new ''OnShowCard''] else [])\<rparr>)" by simp
next
  assume a: "\<not> isEditing sm \<and> runner sm = Some r \<and> uiCard sm < nextUid sm \<and> cardIndex sm = None \<and>
    py_index (childModels (models sm (stackModel sm))) i = Some new"
  then have v: "\<not> isEditing sm" and r: "runner sm = Some r" and lt: "uiCard sm < nextUid sm"
    and j: "cardIndex sm = None"
    and new: "py_index (childModels (models sm (stackModel sm))) i = Some new"
    by simp_all
  note t = LoadCardAtIndex_first_load [OF v r lt j new, of dedup]
  from t show "fst (LoadCardAtIndex dedup (Some i) False sm) = None" by simp
  from t show "cardIndex (snd (LoadCardAtIndex dedup (Some i) False sm)) = Some i" by simp
  from t show "runners (snd (LoadCardAtIndex dedup (Some i) False sm)) =
            (runners sm)(r := (runners sm r)\<lparr>calls := calls (runners sm r) @
               [SetupForCard new] @
               (if GetHandler_truthy (models sm new) ''OnShowCard''
                then [RunHandler new ''OnShowCard''] else [])\<rparr>)" by simp
qed

text \<open>
  The theorem on the example managers, once for each of its cases: the same index; the
  editing manager; a forced reload; the viewer going from index 1 to index 0, whose
  card has an \<^verbatim>\<open>OnShowCard\<close> handler; and the first load.
\<close>

theorem LoadCardAtIndex_lifecycle_witness:
  "LoadCardAtIndex ex_dedup (Some 1) False ex_manager = (None, ex_manager) \<and>
   runners (snd (LoadCardAtIndex ex_dedup (Some 0) False ex_editing)) = runners ex_editing \<and>
   handler_events (calls (runners (snd (LoadCardAtIndex ex_dedup (Some 0) True ex_manager)) 0)) = [] \<and>
   calls (runners (snd (LoadCardAtIndex ex_dedup (Some 0) False ex_manager)) 0)
     = [RunHandler 2 ''OnHideCard'', SetupForCard 1, RunHandler 1 ''OnShowCard''] \<and>
   calls (runners (snd (LoadCardAtIndex ex_dedup (Some 0) False
                          (ex_manager\<lparr>cardIndex := None, uiViews := []\<rparr>))) 0)
     = [SetupForCard 1, RunHandler 1 ''OnShowCard'']"
proof -
  have c0: "py_index (childModels (models ex_manager (stackModel ex_manager))) 0 = Some 1"
    and c1: "py_index (childModels (models ex_manager (stackModel ex_manager))) 1 = Some 2"
    by (simp_all add: ex_manager_fields ex_models_cards py_index_def)
  have hd: "GetHandler_truthy (models ex_manager 1) ''OnShowCard''"
    by (simp add: GetHandler_truthy_def ex_manager_fields ex_models_def blank_model_def)
  have a: "LoadCardAtIndex ex_dedup (Some 1) False ex_manager = (None, ex_manager)"
    using LoadCardAtIndex_lifecycle
            [where index = "Some 1" and sm = ex_manager and reload = False and dedup = ex_dedup,
             THEN conjunct1]
    by (simp add: ex_manager_fields)
  have b: "runners (snd (LoadCardAtIndex ex_dedup (Some 0) False ex_editing)) = runners ex_editing"
    using LoadCardAtIndex_lifecycle
            [where index = "Some 0" and sm = ex_editing and reload = False and dedup = ex_dedup,
             THEN conjunct2, THEN conjunct1]
    by (simp add: ex_editing_fields)
  have "handler_events (calls (runners (snd (LoadCardAtIndex ex_dedup (Some 0) True ex_manager)) 0))
        = handler_events (calls (runners ex_manager 0))"
    using LoadCardAtIndex_lifecycle
            [where index = "Some 0" and sm = ex_manager and reload = True and dedup = ex_dedup
               and r' = 0, THEN conjunct2, THEN conjunct2, THEN conjunct1]
    by simp
  then have c: "handler_events (calls (runners (snd (LoadCardAtIndex ex_dedup (Some 0) True ex_manager)) 0)) = []"
    by (simp add: ex_manager_fields new_Runner_def handler_events_def)
  have pre: "\<not> isEditing ex_manager \<and> runner ex_manager = Some 0 \<and>
      uiCard ex_manager < nextUid ex_manager \<and> cardIndex ex_manager = Some 1 \<and> (0::int) \<noteq> 1 \<and>
      py_index (childModels (models ex_manager (stackModel ex_manager))) 1 = Some 2 \<and>
      py_index (childModels (models ex_manager (stackModel ex_manager))) 0 = Some 1"
    using c0 c1 by (simp add: ex_manager_fields)
  have "runners (snd (LoadCardAtIndex ex_dedup (Some 0) False ex_manager)) =
            (runners ex_manager)(0 := (runners ex_manager 0)\<lparr>calls := calls (runners ex_manager 0) @
               [RunHandler 2 ''OnHideCard''] @ [SetupForCard 1] @
               (if GetHandler_truthy (models ex_manager 1) ''OnShowCard''
                then [RunHandler 1 ''OnShowCard''] else [])\<rparr>)"
    using LoadCardAtIndex_lifecycle
            [where sm = ex_manager and dedup = ex_dedup and r = 0 and j = 1 and i = 0
               and old = 2 and new = 1,
             THEN conjunct2, THEN conjunct2, THEN conjunct2, THEN conjunct1, THEN mp, OF pre]
    by simp
  then have d: "calls (runners (snd (LoadCardAtIndex ex_dedup (Some 0) False ex_manager)) 0)
     = [RunHandler 2 ''OnHideCard'', SetupForCard 1, RunHandler 1 ''OnShowCard'']"
    using hd by (simp add: ex_manager_fields new_Runner_def)
  let ?s = "ex_manager\<lparr>cardIndex := None, uiViews := []\<rparr>"
  have pre2: "\<not> isEditing ?s \<and> runner ?s = Some 0 \<and> uiCard ?s < nextUid ?s \<and> cardIndex ?s = None \<and>
      py_index (childModels (models ?s (stackModel ?s))) 0 = Some 1"
    using c0 by (simp add: ex_manager_fields)
  have "runners (snd (LoadCardAtIndex ex_dedup (Some 0) False ?s)) =
            (runners ?s)(0 := (runners ?s 0)\<lparr>calls := calls (runners ?s 0) @
               [SetupForCard 1] @
               (if GetHandler_truthy (models ?s 1) ''OnShowCard''
                then [RunHandler 1 ''OnShowCard''] else [])\<rparr>)"
    using LoadCardAtIndex_lifecycle
            [where sm = ?s and dedup = ex_dedup and r = 0 and i = 0 and new = 1,
             THEN conjunct2, THEN conjunct2, THEN conjunct2, THEN conjunct2, THEN mp, OF pre2]
    by simp
  then have e: "calls (runners (snd (LoadCardAtIndex ex_dedup (Some 0) False ?s)) 0)
     = [SetupForCard 1, RunHandler 1 ''OnShowCard'']"
    using hd by (simp add: ex_manager_fields new_Runner_def)
  show ?thesis by (intro conjI a b c d e)
qed

text \<open>
  C4 as stated fails. In editing mode, with a runner attached, going from index 1 to
  index 0 loads the card and no event reaches the runner. In viewer mode a forced reload
  that goes from index 1 to index 0 sends the card setup only: neither \<^verbatim>\<open>OnHideCard\<close>
  nor \<^verbatim>\<open>OnShowCard\<close>, although the index changes and the new card has the handler.
\<close>

theorem LoadCardAtIndex_no_pair_counterexample:
  "isEditing (ex_editing\<lparr>runner := Some 0\<rparr>) \<and>
   cardIndex (ex_editing\<lparr>runner := Some 0\<rparr>) = Some 1 \<and>
   fst (LoadCardAtIndex ex_dedup (Some 0) False (ex_editing\<lparr>runner := Some 0\<rparr>)) = None \<and>
   cardIndex (snd (LoadCardAtIndex ex_dedup (Some 0) False (ex_editing\<lparr>runner := Some 0\<rparr>))) = Some 0 \<and>
   calls (runners (snd (LoadCardAtIndex ex_dedup (Some 0) False (ex_editing\<lparr>runner := Some 0\<rparr>))) 0) = [] \<and>
   cardIndex ex_manager = Some 1 \<and>
   fst (LoadCardAtIndex ex_dedup (Some 0) True ex_manager) = None \<and>
   cardIndex (snd (LoadCardAtIndex ex_dedup (Some 0) True ex_manager)) = Some 0 \<and>
   calls (runners (snd (LoadCardAtIndex ex_dedup (Some 0) True ex_manager)) 0) = [SetupForCard 1]"
  by (simp add: ex_eval)


subsection \<open>Removing a selected view\<close>

lemma SelectUiView_toggle_off:
  assumes "isEditing sm" and "u \<in> set (selectedViews sm)"
    and "\<not> parent_is_group sm u" and "\<not> parent_is_group sm (hd (selectedViews sm))"
    and "(type_of_ui sm u = ''card'') = (type_of_ui sm (hd (selectedViews sm)) = ''card'')"
  shows "SelectUiView (Some u) True sm =
           (SetSelected False u sm)\<lparr>selectedViews := remove1 u (selectedViews sm)\<rparr>"
proof -
  from assms(2) have ne: "selectedViews sm \<noteq> []" by auto
  from assms ne have "extend_allowed sm (Some u) True"
    by (simp add: extend_allowed_def Let_def)
  with assms(1,2) ne show ?thesis
    by (simp add: SelectUiView_def Let_def)
qed

lemma RemoveChild_rest:
  "selectedViews (snd (RemoveChild p c sm)) = selectedViews sm \<and>
   uiViews (snd (RemoveChild p c sm)) = uiViews sm \<and>
   uis (snd (RemoveChild p c sm)) = uis sm \<and>
   isEditing (snd (RemoveChild p c sm)) = isEditing sm \<and>
   command_processor (snd (RemoveChild p c sm)) = command_processor sm \<and>
   (parent (models sm c) = None \<longrightarrow> parent (models (snd (RemoveChild p c sm)) c) = None) \<and>
   (fst (RemoveChild p c sm) = None \<longrightarrow>
      childModels (models (snd (RemoveChild p c sm)) p) = remove1 c (childModels (models sm p)))"
  by (simp add: RemoveChild_def Let_def)

lemma scope_unchanged:
  assumes "models s' = models s"
    and "\<forall>v. ui_model (uis s' v) = ui_model (uis s v) \<and> ui_parent (uis s' v) = ui_parent (uis s v)"
  shows "parent_is_group s' u = parent_is_group s u \<and> type_of_ui s' u = type_of_ui s u"
proof -
  have ty: "\<And>w. type_of_ui s' w = type_of_ui s w"
    using assms by (simp add: type_of_ui_def model_of_def)
  have "parent_is_group s' u = parent_is_group s u"
    using assms(2) by (simp add: parent_is_group_def ty split: option.splits)
  with ty show ?thesis by simp
qed

lemma selection_scoped_list:
  "selection_scoped sm =
     (distinct (selectedViews sm) \<and>
      (\<forall>u \<in> set (selectedViews sm).
         (parent_is_group sm u \<longrightarrow> selectedViews sm = [u]) \<and>
         (type_of_ui sm u = ''card'') = (type_of_ui sm (hd (selectedViews sm)) = ''card'')))"
  by (auto simp: selection_scoped_def list_all_iff)

text \<open>Selecting keeps the selection well-scoped; the empty selection is.\<close>

lemma SelectUiView_scoped:
  assumes sc: "selection_scoped sm"
  shows "selection_scoped (SelectUiView uiView e sm)"
proof (cases "isEditing sm")
  case False
  then show ?thesis using sc by simp
next
  case True
  let ?s' = "SelectUiView uiView e sm"
  note rest = SelectUiView_rest [of uiView e sm]
  have same: "\<And>u. parent_is_group ?s' u = parent_is_group sm u"
             "\<And>u. type_of_ui ?s' u = type_of_ui sm u"
    using scope_unchanged [of ?s' sm] rest by simp_all
  define ext where "ext = extend_allowed sm uiView e"
  have sel: "selectedViews ?s' =
      (case uiView of
         None \<Rightarrow> (if selectedViews sm \<noteq> [] \<and> \<not> ext then [] else selectedViews sm)
       | Some u \<Rightarrow>
           (if ext \<and> u \<in> set (selectedViews sm) then remove1 u (selectedViews sm)
            else (if selectedViews sm \<noteq> [] \<and> \<not> ext then [] else selectedViews sm) @ [u]))"
    using True
    by (auto simp: SelectUiView_def Let_def ext_def SetSelected_def fold_SetSelected_rest
             split: option.splits)
  from sc have d: "distinct (selectedViews sm)"
    and g: "\<And>u. u \<in> set (selectedViews sm) \<Longrightarrow> parent_is_group sm u \<Longrightarrow> selectedViews sm = [u]"
    and t: "\<And>u. u \<in> set (selectedViews sm) \<Longrightarrow>
              (type_of_ui sm u = ''card'') = (type_of_ui sm (hd (selectedViews sm)) = ''card'')"
    by (auto simp: selection_scoped_list)
  show ?thesis
  proof (cases uiView)
    case None
    with sel sc same show ?thesis
      by (auto simp: selection_scoped_list)
  next
    case (Some u)
    show ?thesis
    proof (cases ext)
      case False
      with sel Some have "selectedViews ?s' = [u] \<or> (selectedViews sm = [] \<and> selectedViews ?s' = [u])"
        by auto
      then have "selectedViews ?s' = [u]" by auto
      then show ?thesis by (simp add: selection_scoped_list)
    next
      case True
      then have e1: "\<not> parent_is_group sm u"
        and e2: "selectedViews sm \<noteq> [] \<longrightarrow> \<not> parent_is_group sm (hd (selectedViews sm))"
        and e3: "(type_of_ui sm u = ''card'') =
                 (selectedViews sm \<noteq> [] \<and> type_of_ui sm (hd (selectedViews sm)) = ''card'')"
        using Some by (auto simp: ext_def extend_allowed_def Let_def split: if_splits)
      have nog: "\<And>w. w \<in> set (selectedViews sm) \<Longrightarrow> \<not> parent_is_group sm w"
      proof
        fix w assume w: "w \<in> set (selectedViews sm)" and pg: "parent_is_group sm w"
        from g [OF w pg] have "hd (selectedViews sm) = w" "selectedViews sm \<noteq> []" by simp_all
        with e2 pg show False by simp
      qed
      define k where "k = (type_of_ui sm (hd (selectedViews sm)) = ''card'')"
      have tk: "\<And>w. w \<in> set (selectedViews sm) \<Longrightarrow> (type_of_ui sm w = ''card'') = k"
        using t by (simp add: k_def)
      show ?thesis
      proof (cases "u \<in> set (selectedViews sm)")
        case True
        with sel Some \<open>ext\<close> have s': "selectedViews ?s' = remove1 u (selectedViews sm)" by simp
        let ?r = "remove1 u (selectedViews sm)"
        have sub: "\<And>w. w \<in> set ?r \<Longrightarrow> w \<in> set (selectedViews sm)"
          by (metis notin_set_remove1)
        have d': "distinct ?r" using d by (rule distinct_remove1)
        have each: "\<And>w. w \<in> set ?r \<Longrightarrow>
                 (parent_is_group sm w \<longrightarrow> ?r = [w]) \<and>
                 (type_of_ui sm w = ''card'') = (type_of_ui sm (hd ?r) = ''card'')"
        proof -
          fix w assume w: "w \<in> set ?r"
          then have ne: "?r \<noteq> []" by auto
          from sub [OF w] have wi: "w \<in> set (selectedViews sm)" .
          from ne have "hd ?r \<in> set ?r" by (rule hd_in_set)
          then have hi: "hd ?r \<in> set (selectedViews sm)" by (rule sub)
          have a: "\<not> parent_is_group sm w" by (rule nog [OF wi])
          have b: "(type_of_ui sm w = ''card'') = (type_of_ui sm (hd ?r) = ''card'')"
            unfolding tk [OF wi] tk [OF hi] ..
          from a b show "(parent_is_group sm w \<longrightarrow> ?r = [w]) \<and>
                 (type_of_ui sm w = ''card'') = (type_of_ui sm (hd ?r) = ''card'')" by blast
        qed
        show ?thesis
          unfolding selection_scoped_list s' same
          using d' each by blast
      next
        case False
        with sel Some \<open>ext\<close> have s': "selectedViews ?s' = selectedViews sm @ [u]" by simp
        let ?r = "selectedViews sm @ [u]"
        have d': "distinct ?r" using d False by simp
        have hdr: "(type_of_ui sm (hd ?r) = ''card'') = (type_of_ui sm u = ''card'')"
        proof (cases "selectedViews sm")
          case Nil
          then show ?thesis by simp
        next
          case (Cons a as)
          then have "hd ?r = hd (selectedViews sm)" by simp
          with e3 Cons show ?thesis by simp
        qed
        have each: "\<And>w. w \<in> set ?r \<Longrightarrow>
                 (parent_is_group sm w \<longrightarrow> ?r = [w]) \<and>
                 (type_of_ui sm w = ''card'') = (type_of_ui sm (hd ?r) = ''card'')"
        proof -
          fix w assume w: "w \<in> set ?r"
          then have cases: "w \<in> set (selectedViews sm) \<or> w = u" by auto
          have a: "\<not> parent_is_group sm w" using cases nog e1 by blast
          have b: "(type_of_ui sm w = ''card'') = (type_of_ui sm (hd ?r) = ''card'')"
          proof (cases "w = u")
            case True
            then show ?thesis using hdr by simp
          next
            case False
            with cases have wi: "w \<in> set (selectedViews sm)" by simp
            then have ne: "selectedViews sm \<noteq> []" by auto
            then have "hd ?r = hd (selectedViews sm)" by simp
            then show ?thesis using t [OF wi] by simp
          qed
          from a b show "(parent_is_group sm w \<longrightarrow> ?r = [w]) \<and>
                 (type_of_ui sm w = ''card'') = (type_of_ui sm (hd ?r) = ''card'')" by blast
        qed
        show ?thesis
          unfolding selection_scoped_list s' same
          using d' each by blast
      qed
    qed
  qed
qed

lemma selection_scoped_empty: "selectedViews sm = [] \<Longrightarrow> selection_scoped sm"
  by (simp add: selection_scoped_def)

lemma selection_scoped_top:
  assumes sc: "selection_scoped sm" and sel: "ui \<in> set (selectedViews sm)"
    and top: "\<not> parent_is_group sm ui"
  shows "distinct (selectedViews sm) \<and>
         \<not> parent_is_group sm (hd (selectedViews sm)) \<and>
         (type_of_ui sm ui = ''card'') = (type_of_ui sm (hd (selectedViews sm)) = ''card'')"
proof -
  from sel have ne: "selectedViews sm \<noteq> []" by auto
  then have hi: "hd (selectedViews sm) \<in> set (selectedViews sm)" by (rule hd_in_set)
  have "\<not> parent_is_group sm (hd (selectedViews sm))"
  proof
    assume pg: "parent_is_group sm (hd (selectedViews sm))"
    with sc hi have "selectedViews sm = [hd (selectedViews sm)]"
      unfolding selection_scoped_list by blast
    with sel have "ui = hd (selectedViews sm)"
      by (metis empty_iff empty_set set_ConsD)
    with pg top show False by simp
  qed
  moreover from sc sel have "(type_of_ui sm ui = ''card'') = (type_of_ui sm (hd (selectedViews sm)) = ''card'')"
    unfolding selection_scoped_list by blast
  moreover from sc have "distinct (selectedViews sm)" unfolding selection_scoped_list by blast
  ultimately show ?thesis by blast
qed

lemma RemoveUiViewByModel_toggles_off:
  assumes ed: "isEditing sm"
    and f: "find (\<lambda>ui. model_of sm ui = viewModel) (uiViews sm) = Some ui"
    and sel: "ui \<in> set (selectedViews sm)" and d: "distinct (selectedViews sm)"
    and g1: "\<not> parent_is_group sm ui" and g2: "\<not> parent_is_group sm (hd (selectedViews sm))"
    and ty: "(type_of_ui sm ui = ''card'') = (type_of_ui sm (hd (selectedViews sm)) = ''card'')"
  shows "selectedViews (snd (RemoveUiViewByModel viewModel sm)) = remove1 ui (selectedViews sm) \<and>
         ui \<notin> set (selectedViews (snd (RemoveUiViewByModel viewModel sm))) \<and>
         \<not> isSelected (uis (snd (RemoveUiViewByModel viewModel sm)) ui) \<and>
         uiViews (snd (RemoveUiViewByModel viewModel sm)) = remove1 ui (uiViews sm) \<and>
         parent (models (snd (RemoveUiViewByModel viewModel sm)) viewModel) = None \<and>
         (fst (RemoveUiViewByModel viewModel sm) = None \<longrightarrow>
            childModels (models (snd (RemoveUiViewByModel viewModel sm)) (model_of sm (uiCard sm)))
              = remove1 viewModel (childModels (models sm (model_of sm (uiCard sm)))))"
proof -
  let ?s1 = "(SetSelected False ui sm)\<lparr>selectedViews := remove1 ui (selectedViews sm)\<rparr>"
  let ?s3 = "?s1\<lparr>models := (models ?s1)(viewModel := (models ?s1 viewModel)\<lparr>parent := None\<rparr>),
                  uiViews := remove1 ui (uiViews ?s1)\<rparr>"
  from f have m: "model_of sm ui = viewModel" by (auto simp: find_Some_iff)
  have t: "SelectUiView (Some ui) True sm = ?s1"
    by (rule SelectUiView_toggle_off [OF ed sel g1 g2 ty])
  have m1: "model_of ?s1 ui = viewModel" "model_of ?s1 (uiCard sm) = model_of sm (uiCard sm)"
    using m by (simp_all add: model_of_def SetSelected_def)
  have R: "RemoveUiViewByModel viewModel sm = RemoveChild (model_of sm (uiCard sm)) viewModel ?s3"
    using f sel t m1 by (simp add: RemoveUiViewByModel_def Let_def SetSelected_def model_of_def)
  note rc = RemoveChild_rest [of "model_of sm (uiCard sm)" viewModel ?s3]
  have a: "selectedViews (snd (RemoveUiViewByModel viewModel sm)) = remove1 ui (selectedViews sm)"
    unfolding R using rc by (simp add: SetSelected_def)
  have b: "ui \<notin> set (selectedViews (snd (RemoveUiViewByModel viewModel sm)))"
    unfolding a using d by simp
  have c: "\<not> isSelected (uis (snd (RemoveUiViewByModel viewModel sm)) ui)"
    unfolding R using rc by (simp add: SetSelected_def)
  have e: "uiViews (snd (RemoveUiViewByModel viewModel sm)) = remove1 ui (uiViews sm)"
    unfolding R using rc by (simp add: SetSelected_def)
  have p: "parent (models (snd (RemoveUiViewByModel viewModel sm)) viewModel) = None"
    unfolding R using rc by (simp add: SetSelected_def)
  have q: "fst (RemoveUiViewByModel viewModel sm) = None \<longrightarrow>
            childModels (models (snd (RemoveUiViewByModel viewModel sm)) (model_of sm (uiCard sm)))
              = remove1 viewModel (childModels (models sm (model_of sm (uiCard sm))))"
    unfolding R using rc by (simp add: SetSelected_def)
  show ?thesis by (intro conjI a b c e p q)
qed

text \<open>
  C6, as amended. In editing mode, removing the model of a top-level view that is in the
  (well-scoped) selection set removes that view from the selection set as part of the
  removal: afterwards the selection is the old one without it, the view is neither
  selected nor among the UI views, and its model is detached.
\<close>

theorem RemoveUiViewByModel_deselects:
  assumes ed: "isEditing sm"
    and f: "find (\<lambda>ui. model_of sm ui = viewModel) (uiViews sm) = Some ui"
    and sel: "ui \<in> set (selectedViews sm)"
    and sc: "selection_scoped sm"
    and top: "\<not> parent_is_group sm ui"
  shows "selectedViews (snd (RemoveUiViewByModel viewModel sm)) = remove1 ui (selectedViews sm) \<and>
         ui \<notin> set (selectedViews (snd (RemoveUiViewByModel viewModel sm))) \<and>
         \<not> isSelected (uis (snd (RemoveUiViewByModel viewModel sm)) ui) \<and>
         uiViews (snd (RemoveUiViewByModel viewModel sm)) = remove1 ui (uiViews sm) \<and>
         parent (models (snd (RemoveUiViewByModel viewModel sm)) viewModel) = None \<and>
         (fst (RemoveUiViewByModel viewModel sm) = None \<longrightarrow>
            childModels (models (snd (RemoveUiViewByModel viewModel sm)) (model_of sm (uiCard sm)))
              = remove1 viewModel (childModels (models sm (model_of sm (uiCard sm)))))"
proof -
  note s = selection_scoped_top [OF sc sel top]
  from s have d: "distinct (selectedViews sm)"
    and g2: "\<not> parent_is_group sm (hd (selectedViews sm))"
    and ty: "(type_of_ui sm ui = ''card'') = (type_of_ui sm (hd (selectedViews sm)) = ''card'')"
    by blast+
  show ?thesis by (rule RemoveUiViewByModel_toggles_off [OF ed f sel d top g2 ty])
qed

text \<open>
  The theorem on the example manager in editing mode: removing the selected field
  empties the selection.
\<close>

theorem RemoveUiViewByModel_deselects_witness:
  "isEditing ex_editing \<and> 1 \<in> set (selectedViews ex_editing) \<and> model_of ex_editing 1 = 4 \<and>
   selection_scoped ex_editing \<and>
   selectedViews (snd (RemoveUiViewByModel 4 ex_editing)) = [] \<and>
   \<not> isSelected (uis (snd (RemoveUiViewByModel 4 ex_editing)) 1) \<and>
   uiViews (snd (RemoveUiViewByModel 4 ex_editing)) = [] \<and>
   parent (models (snd (RemoveUiViewByModel 4 ex_editing)) 4) = None"
proof -
  have h1: "isEditing ex_editing" by (simp add: ex_editing_fields)
  have h2: "find (\<lambda>ui. model_of ex_editing ui = 4) (uiViews ex_editing) = Some 1"
    by (simp add: ex_editing_fields model_of_def)
  have h3: "1 \<in> set (selectedViews ex_editing)" by (simp add: ex_editing_fields)
  have h5: "\<not> parent_is_group ex_editing 1"
    by (simp add: parent_is_group_def type_of_ui_def model_of_def ex_editing_fields ex_uis_def
          ex_models_cards)
  have h4: "selection_scoped ex_editing"
    using h5 by (simp add: selection_scoped_def ex_editing_fields)
  have m: "model_of ex_editing 1 = 4" by (simp add: model_of_def ex_editing_fields)
  from RemoveUiViewByModel_deselects [OF h1 h2 h3 h4 h5] h1 h3 h4 m
  show ?thesis by (simp add: ex_editing_fields)
qed

text \<open>
  C6 as stated fails: outside editing mode \<^verbatim>\<open>SelectUiView\<close> does nothing, so a view
  that is in the selection set stays there when its model is removed. Here the field's
  view is gone from the UI views and the model from its card, and the selection set
  still holds the view.
\<close>

theorem RemoveUiViewByModel_viewer_counterexample:
  "1 \<in> set (selectedViews (ex_manager\<lparr>selectedViews := [1]\<rparr>)) \<and>
   model_of (ex_manager\<lparr>selectedViews := [1]\<rparr>) 1 = 4 \<and>
   fst (RemoveUiViewByModel 4 (ex_manager\<lparr>selectedViews := [1]\<rparr>)) = None \<and>
   uiViews (snd (RemoveUiViewByModel 4 (ex_manager\<lparr>selectedViews := [1]\<rparr>))) = [] \<and>
   childModels (models (snd (RemoveUiViewByModel 4 (ex_manager\<lparr>selectedViews := [1]\<rparr>))) 2) = [] \<and>
   selectedViews (snd (RemoveUiViewByModel 4 (ex_manager\<lparr>selectedViews := [1]\<rparr>))) = [1]"
  by (simp add: ex_eval)


subsection \<open>Adding views without recording\<close>

lemma AddUiViewInternal_views:
  "uiViews (snd (AddUiViewInternal t m s)) = uiViews s @ (if known_view_type t then [nextUid s] else []) \<and>
   nextUid (snd (AddUiViewInternal t m s)) = nextUid s + (if known_view_type t then 1 else 0) \<and>
   (known_view_type t \<longrightarrow> model_of (snd (AddUiViewInternal t m s)) (nextUid s) = m) \<and>
   (\<forall>u<nextUid s. uis (snd (AddUiViewInternal t m s)) u = uis s u) \<and>
   (\<forall>x. mtype (models (snd (AddUiViewInternal t m s)) x) = mtype (models s x))"
  by (simp add: AddUiViewInternal_def Let_def model_of_def AddChild_def)

lemma Do_fold_views:
  "uiViews (fold (\<lambda>m s. snd (AddUiViewInternal (mtype (models s m)) m s)) ms s)
     = uiViews s @ [nextUid s ..< nextUid s + length (filter (\<lambda>m. known_view_type (mtype (models s m))) ms)] \<and>
   nextUid (fold (\<lambda>m s. snd (AddUiViewInternal (mtype (models s m)) m s)) ms s)
     = nextUid s + length (filter (\<lambda>m. known_view_type (mtype (models s m))) ms) \<and>
   map (model_of (fold (\<lambda>m s. snd (AddUiViewInternal (mtype (models s m)) m s)) ms s))
       [nextUid s ..< nextUid s + length (filter (\<lambda>m. known_view_type (mtype (models s m))) ms)]
     = filter (\<lambda>m. known_view_type (mtype (models s m))) ms \<and>
   (\<forall>u<nextUid s. uis (fold (\<lambda>m s. snd (AddUiViewInternal (mtype (models s m)) m s)) ms s) u = uis s u) \<and>
   (\<forall>x. mtype (models (fold (\<lambda>m s. snd (AddUiViewInternal (mtype (models s m)) m s)) ms s) x)
        = mtype (models s x))"
proof (induction ms arbitrary: s)
  case Nil
  show ?case by simp
next
  case (Cons m ms)
  let ?f = "\<lambda>m s. snd (AddUiViewInternal (mtype (models s m)) m s)"
  let ?s1 = "snd (AddUiViewInternal (mtype (models s m)) m s)"
  note st = AddUiViewInternal_views [of "mtype (models s m)" m s]
  note ih = Cons.IH [of ?s1]
  from st have ty: "\<And>x. mtype (models ?s1 x) = mtype (models s x)" by simp
  let ?K = "filter (\<lambda>m. known_view_type (mtype (models s m))) ms"
  have K: "filter (\<lambda>m. known_view_type (mtype (models ?s1 m))) ms = ?K"
    by (simp add: ty)
  show ?case
  proof (cases "known_view_type (mtype (models s m))")
    case False
    with st have "uiViews ?s1 = uiViews s" "nextUid ?s1 = nextUid s"
      "\<forall>u<nextUid s. uis ?s1 u = uis s u" by simp_all
    with ih K ty False show ?thesis by simp
  next
    case True
    with st have v1: "uiViews ?s1 = uiViews s @ [nextUid s]" and n1: "nextUid ?s1 = Suc (nextUid s)"
      and m1: "model_of ?s1 (nextUid s) = m" and u1: "\<forall>u<nextUid s. uis ?s1 u = uis s u" by simp_all
    from ih have keep: "\<forall>u<nextUid ?s1. uis (fold ?f ms ?s1) u = uis ?s1 u" by blast
    from keep n1 have "uis (fold ?f ms ?s1) (nextUid s) = uis ?s1 (nextUid s)" by simp
    with m1 have hd: "model_of (fold ?f ms ?s1) (nextUid s) = m" by (simp add: model_of_def)
    have up: "[nextUid s ..< nextUid s + Suc (length ?K)] = nextUid s # [Suc (nextUid s) ..< Suc (nextUid s) + length ?K]"
      by (simp add: upt_rec)
    from ih K have ihv: "uiViews (fold ?f ms ?s1) = uiViews ?s1 @ [nextUid ?s1 ..< nextUid ?s1 + length ?K]"
      and ihn: "nextUid (fold ?f ms ?s1) = nextUid ?s1 + length ?K"
      and ihm: "map (model_of (fold ?f ms ?s1)) [nextUid ?s1 ..< nextUid ?s1 + length ?K] = ?K"
      and iht: "\<forall>x. mtype (models (fold ?f ms ?s1) x) = mtype (models ?s1 x)"
      by simp_all
    have a: "uiViews (fold ?f (m # ms) s) = uiViews s @ [nextUid s ..< nextUid s + length (filter (\<lambda>m. known_view_type (mtype (models s m))) (m # ms))]"
      using True ihv v1 n1 up by simp
    have b: "nextUid (fold ?f (m # ms) s) = nextUid s + length (filter (\<lambda>m. known_view_type (mtype (models s m))) (m # ms))"
      using True ihn n1 by simp
    have c: "map (model_of (fold ?f (m # ms) s)) [nextUid s ..< nextUid s + length (filter (\<lambda>m. known_view_type (mtype (models s m))) (m # ms))] = filter (\<lambda>m. known_view_type (mtype (models s m))) (m # ms)"
      using True ihm n1 up hd by simp
    have d: "\<forall>u<nextUid s. uis (fold ?f (m # ms) s) u = uis s u"
      using keep n1 u1 by simp
    have e: "\<forall>x. mtype (models (fold ?f (m # ms) s) x) = mtype (models s x)"
      using iht ty by simp
    show ?thesis by (intro conjI a b c d e)
  qed
qed

lemma dedup_fold_rest:
  "uiViews (fold (dedup_step dedup) ms s) = uiViews s \<and>
   nextUid (fold (dedup_step dedup) ms s) = nextUid s \<and>
   uis (fold (dedup_step dedup) ms s) = uis s \<and>
   (\<forall>x. mtype (models (fold (dedup_step dedup) ms s) x) = mtype (models s x))"
  by (induction ms arbitrary: s) (simp_all add: dedup_step_def SetName_def Let_def)

lemma AddUiViewInternal_tree:
  assumes lt: "uiCard s < nextUid s" and known: "known_view_type t"
  shows "uiCard (snd (AddUiViewInternal t m s)) < nextUid (snd (AddUiViewInternal t m s)) \<and>
         model_of (snd (AddUiViewInternal t m s)) (uiCard (snd (AddUiViewInternal t m s)))
           = model_of s (uiCard s) \<and>
         childModels (models (snd (AddUiViewInternal t m s)) (model_of s (uiCard s)))
           = (if m \<in> set (childModels (models s (model_of s (uiCard s))))
              then childModels (models s (model_of s (uiCard s)))
              else childModels (models s (model_of s (uiCard s))) @ [m]) \<and>
         parent (models (snd (AddUiViewInternal t m s)) m) = Some (model_of s (uiCard s)) \<and>
         (\<forall>x. x \<noteq> model_of s (uiCard s) \<longrightarrow>
              childModels (models (snd (AddUiViewInternal t m s)) x) = childModels (models s x)) \<and>
         (\<forall>x. x \<noteq> m \<longrightarrow> parent (models (snd (AddUiViewInternal t m s)) x) = parent (models s x))"
  using lt known by (simp add: AddUiViewInternal_def Let_def model_of_def AddChild_def)

lemma AddUiViewInternal_unknown:
  "\<not> known_view_type t \<Longrightarrow> snd (AddUiViewInternal t m s) = s"
  by (simp add: AddUiViewInternal_def)

lemma Do_fold_tree:
  assumes "uiCard s < nextUid s"
  shows "(\<exists>added. childModels (models (fold (\<lambda>m s. snd (AddUiViewInternal (mtype (models s m)) m s)) ms s)
                                 (model_of s (uiCard s)))
                     = childModels (models s (model_of s (uiCard s))) @ added \<and>
                   distinct added \<and>
                   set added = set (filter (\<lambda>m. known_view_type (mtype (models s m))) ms)
                               - set (childModels (models s (model_of s (uiCard s))))) \<and>
         (\<forall>x\<in>set (filter (\<lambda>m. known_view_type (mtype (models s m))) ms).
            parent (models (fold (\<lambda>m s. snd (AddUiViewInternal (mtype (models s m)) m s)) ms s) x)
              = Some (model_of s (uiCard s))) \<and>
         (\<forall>x. x \<noteq> model_of s (uiCard s) \<longrightarrow>
            childModels (models (fold (\<lambda>m s. snd (AddUiViewInternal (mtype (models s m)) m s)) ms s) x)
              = childModels (models s x)) \<and>
         (\<forall>x. x \<notin> set (filter (\<lambda>m. known_view_type (mtype (models s m))) ms) \<longrightarrow>
            parent (models (fold (\<lambda>m s. snd (AddUiViewInternal (mtype (models s m)) m s)) ms s) x)
              = parent (models s x))"
  using assms
proof (induction ms arbitrary: s)
  case Nil
  show ?case by simp
next
  case (Cons m ms)
  let ?f = "\<lambda>m s. snd (AddUiViewInternal (mtype (models s m)) m s)"
  let ?s1 = "snd (AddUiViewInternal (mtype (models s m)) m s)"
  let ?card = "model_of s (uiCard s)"
  let ?ch = "childModels (models s ?card)"
  let ?K = "filter (\<lambda>m. known_view_type (mtype (models s m))) ms"
  note lt = Cons.prems
  from AddUiViewInternal_views [of "mtype (models s m)" m s]
  have ty: "\<And>x. mtype (models ?s1 x) = mtype (models s x)" by simp
  have K: "filter (\<lambda>m. known_view_type (mtype (models ?s1 m))) ms = ?K"
    by (simp add: ty)
  show ?case
  proof (cases "known_view_type (mtype (models s m))")
    case False
    then have s1: "?s1 = s" by (rule AddUiViewInternal_unknown)
    from Cons.IH [OF lt] False show ?thesis by (simp add: s1)
  next
    case True
    note st = AddUiViewInternal_tree [OF lt True, of m]
    from st have lt1: "uiCard ?s1 < nextUid ?s1" and c1: "model_of ?s1 (uiCard ?s1) = ?card"
      and ch1: "childModels (models ?s1 ?card) = (if m \<in> set ?ch then ?ch else ?ch @ [m])"
      and p1: "parent (models ?s1 m) = Some ?card"
      and o1: "\<forall>x. x \<noteq> ?card \<longrightarrow> childModels (models ?s1 x) = childModels (models s x)"
      and q1: "\<forall>x. x \<noteq> m \<longrightarrow> parent (models ?s1 x) = parent (models s x)"
      by simp_all
    note ih = Cons.IH [OF lt1, unfolded c1 K]
    from ih obtain added where
      a1: "childModels (models (fold ?f ms ?s1) ?card) = childModels (models ?s1 ?card) @ added"
      and a2: "distinct added"
      and a3: "set added = set ?K - set (childModels (models ?s1 ?card))"
      by blast
    from ih have ip: "\<forall>x\<in>set ?K. parent (models (fold ?f ms ?s1) x) = Some ?card"
      and io: "\<forall>x. x \<noteq> ?card \<longrightarrow> childModels (models (fold ?f ms ?s1) x) = childModels (models ?s1 x)"
      and iq: "\<forall>x. x \<notin> set ?K \<longrightarrow> parent (models (fold ?f ms ?s1) x) = parent (models ?s1 x)"
      by simp_all
    have fm: "filter (\<lambda>m. known_view_type (mtype (models s m))) (m # ms) = m # ?K"
      using True by simp
    have fo: "fold ?f (m # ms) s = fold ?f ms ?s1" by simp
    have A: "\<exists>added'. childModels (models (fold ?f ms ?s1) ?card) = ?ch @ added' \<and>
                   distinct added' \<and> set added' = set (m # ?K) - set ?ch"
    proof (cases "m \<in> set ?ch")
      case True
      with ch1 have "childModels (models ?s1 ?card) = ?ch" by simp
      with a1 a2 a3 True have "childModels (models (fold ?f ms ?s1) ?card) = ?ch @ added \<and>
                   distinct added \<and> set added = set (m # ?K) - set ?ch" by auto
      then show ?thesis ..
    next
      case False
      with ch1 have e: "childModels (models ?s1 ?card) = ?ch @ [m]" by simp
      from a3 e have nm: "m \<notin> set added" by simp
      from a1 e have x1: "childModels (models (fold ?f ms ?s1) ?card) = ?ch @ (m # added)" by simp
      from a2 nm have x2: "distinct (m # added)" by simp
      from a3 e False have x3: "set (m # added) = set (m # ?K) - set ?ch" by auto
      from x1 x2 x3 show ?thesis by blast
    qed
    have P: "\<forall>x\<in>set (m # ?K). parent (models (fold ?f ms ?s1) x) = Some ?card"
    proof
      fix x assume x: "x \<in> set (m # ?K)"
      show "parent (models (fold ?f ms ?s1) x) = Some ?card"
      proof (cases "x \<in> set ?K")
        case True
        with ip show ?thesis by simp
      next
        case False
        with x have "x = m" by auto
        with False iq p1 show ?thesis by simp
      qed
    qed
    have O: "\<forall>x. x \<noteq> ?card \<longrightarrow> childModels (models (fold ?f ms ?s1) x) = childModels (models s x)"
      using io o1 by simp
    have Q: "\<forall>x. x \<notin> set (m # ?K) \<longrightarrow> parent (models (fold ?f ms ?s1) x) = parent (models s x)"
      using iq q1 by simp
    show ?thesis unfolding fm fo by (intro conjI A P O Q)
  qed
qed

lemma dedup_fold_tree:
  "uiCard (fold (dedup_step dedup) ms s) = uiCard s \<and>
   (\<forall>x. childModels (models (fold (dedup_step dedup) ms s) x) = childModels (models s x) \<and>
        parent (models (fold (dedup_step dedup) ms s) x) = parent (models s x))"
  by (induction ms arbitrary: s) (simp_all add: dedup_step_def SetName_def Let_def)

lemma AddUiViewsFromModels_tree:
  assumes lt: "uiCard sm < nextUid sm"
  shows "(\<exists>added. childModels (models (snd (AddUiViewsFromModels dedup ms False sm))
                                 (model_of sm (uiCard sm)))
                     = childModels (models sm (model_of sm (uiCard sm))) @ added \<and>
                   distinct added \<and>
                   set added = set (filter (\<lambda>m. known_view_type (mtype (models sm m))) ms)
                               - set (childModels (models sm (model_of sm (uiCard sm))))) \<and>
         (\<forall>x\<in>set (filter (\<lambda>m. known_view_type (mtype (models sm m))) ms).
            parent (models (snd (AddUiViewsFromModels dedup ms False sm)) x)
              = Some (model_of sm (uiCard sm))) \<and>
         (\<forall>x. x \<noteq> model_of sm (uiCard sm) \<longrightarrow>
            childModels (models (snd (AddUiViewsFromModels dedup ms False sm)) x)
              = childModels (models sm x)) \<and>
         (\<forall>x. x \<notin> set (filter (\<lambda>m. known_view_type (mtype (models sm m))) ms) \<longrightarrow>
            parent (models (snd (AddUiViewsFromModels dedup ms False sm)) x)
              = parent (models sm x))"
proof -
  let ?s1 = "fold (dedup_step dedup) ms sm"
  let ?f = "\<lambda>m s. snd (AddUiViewInternal (mtype (models s m)) m s)"
  have F: "snd (AddUiViewsFromModels dedup ms False sm) = fold ?f ms ?s1"
    by (simp add: AddUiViewsFromModels_def Let_def)
  note dr = dedup_fold_rest [of dedup ms sm]
  note dt = dedup_fold_tree [of dedup ms sm]
  from dr have K: "filter (\<lambda>m. known_view_type (mtype (models ?s1 m))) ms
                   = filter (\<lambda>m. known_view_type (mtype (models sm m))) ms"
    by simp
  from dr dt have c: "model_of ?s1 (uiCard ?s1) = model_of sm (uiCard sm)"
    by (simp add: model_of_def)
  from dr dt lt have lt1: "uiCard ?s1 < nextUid ?s1" by simp
  from dt have ch: "\<And>x. childModels (models ?s1 x) = childModels (models sm x)"
    and pa: "\<And>x. parent (models ?s1 x) = parent (models sm x)" by simp_all
  note t = Do_fold_tree [OF lt1, of ms, unfolded c K ch pa]
  show ?thesis unfolding F by (rule t)
qed

text \<open>
  C9. Adding views with \<^verbatim>\<open>canUndo=False\<close> leaves the command history exactly as it
  was, and the state it produces is the state of the recorded submission except for the
  history, which there gains the one command (and loses the redoable ones): the
  command is executed once either way. Its effect on the views: one new UI view per
  model of a known view type is appended, in order, each showing its model. Its effect
  on the model tree, where the card's UI view is an existing object: the children of
  the card model are the earlier ones followed by the added models of a known view type
  that were not children yet, each once; every added model of a known view type has the
  card model as its parent; no other model's children and no other model's parent
  change.
\<close>

theorem AddUiViewsFromModels_unrecorded:
  "command_processor (snd (AddUiViewsFromModels dedup ms False sm)) = command_processor sm \<and>
   snd (AddUiViewsFromModels dedup ms True sm) =
     (snd (AddUiViewsFromModels dedup ms False sm))
       \<lparr>command_processor := (command_processor sm)
          \<lparr>commands := commands (command_processor sm) @ [AddUiViewsCommand (cardIndex sm) ms],
           redoCommands := []\<rparr>\<rparr> \<and>
   fst (AddUiViewsFromModels dedup ms True sm) = fst (AddUiViewsFromModels dedup ms False sm) \<and>
   uiViews (snd (AddUiViewsFromModels dedup ms False sm)) =
     uiViews sm @ [nextUid sm ..< nextUid sm +
                     length (filter (\<lambda>m. known_view_type (mtype (models sm m))) ms)] \<and>
   map (model_of (snd (AddUiViewsFromModels dedup ms False sm)))
     [nextUid sm ..< nextUid sm + length (filter (\<lambda>m. known_view_type (mtype (models sm m))) ms)]
     = filter (\<lambda>m. known_view_type (mtype (models sm m))) ms \<and>
   (uiCard sm < nextUid sm \<longrightarrow>
      (\<exists>added. childModels (models (snd (AddUiViewsFromModels dedup ms False sm))
                              (model_of sm (uiCard sm)))
                  = childModels (models sm (model_of sm (uiCard sm))) @ added \<and>
                distinct added \<and>
                set added = set (filter (\<lambda>m. known_view_type (mtype (models sm m))) ms)
                            - set (childModels (models sm (model_of sm (uiCard sm))))) \<and>
      (\<forall>x\<in>set (filter (\<lambda>m. known_view_type (mtype (models sm m))) ms).
         parent (models (snd (AddUiViewsFromModels dedup ms False sm)) x)
           = Some (model_of sm (uiCard sm))) \<and>
      (\<forall>x. x \<noteq> model_of sm (uiCard sm) \<longrightarrow>
         childModels (models (snd (AddUiViewsFromModels dedup ms False sm)) x)
           = childModels (models sm x)) \<and>
      (\<forall>x. x \<notin> set (filter (\<lambda>m. known_view_type (mtype (models sm m))) ms) \<longrightarrow>
         parent (models (snd (AddUiViewsFromModels dedup ms False sm)) x)
           = parent (models sm x)))"
proof -
  let ?s1 = "fold (dedup_step dedup) ms sm"
  let ?cmd = "AddUiViewsCommand (cardIndex sm) ms"
  let ?s0 = "snd (Command_Do ?cmd ?s1)"
  have ci: "cardIndex ?s1 = cardIndex sm" and cp1: "command_processor ?s1 = command_processor sm"
    using same_control_dedup_fold [of sm dedup ms] by (simp_all add: same_control_def)
  have F: "snd (AddUiViewsFromModels dedup ms False sm) = ?s0"
    by (simp add: AddUiViewsFromModels_def Let_def ci)
  have cp0: "command_processor ?s0 = command_processor sm"
    using same_control_Command_Do [of ?s1 ?cmd] cp1 by (simp add: same_control_def)
  have T: "snd (AddUiViewsFromModels dedup ms True sm) =
             ?s0\<lparr>command_processor := (command_processor sm)
                \<lparr>commands := commands (command_processor sm) @ [?cmd], redoCommands := []\<rparr>\<rparr>"
    using cp0 by (simp add: AddUiViewsFromModels_def Submit_def Let_def ci split_beta)
  have a: "command_processor (snd (AddUiViewsFromModels dedup ms False sm)) = command_processor sm"
    unfolding F by (rule cp0)
  have b: "snd (AddUiViewsFromModels dedup ms True sm) =
     (snd (AddUiViewsFromModels dedup ms False sm))
       \<lparr>command_processor := (command_processor sm)
          \<lparr>commands := commands (command_processor sm) @ [AddUiViewsCommand (cardIndex sm) ms],
           redoCommands := []\<rparr>\<rparr>"
    unfolding F by (rule T)
  have c: "fst (AddUiViewsFromModels dedup ms True sm) = fst (AddUiViewsFromModels dedup ms False sm)"
    by (simp add: AddUiViewsFromModels_def Submit_def Let_def split_beta)
  note dr = dedup_fold_rest [of dedup ms sm]
  from dr have K: "filter (\<lambda>m. known_view_type (mtype (models ?s1 m))) ms
                   = filter (\<lambda>m. known_view_type (mtype (models sm m))) ms"
    by simp
  note dv = Do_fold_views [of ms ?s1]
  have d: "uiViews (snd (AddUiViewsFromModels dedup ms False sm)) =
     uiViews sm @ [nextUid sm ..< nextUid sm +
                     length (filter (\<lambda>m. known_view_type (mtype (models sm m))) ms)]"
    unfolding F using dv dr K by simp
  have e: "map (model_of (snd (AddUiViewsFromModels dedup ms False sm)))
     [nextUid sm ..< nextUid sm + length (filter (\<lambda>m. known_view_type (mtype (models sm m))) ms)]
     = filter (\<lambda>m. known_view_type (mtype (models sm m))) ms"
    unfolding F using dv dr K by simp
  have f: "uiCard sm < nextUid sm \<longrightarrow>
      (\<exists>added. childModels (models (snd (AddUiViewsFromModels dedup ms False sm))
                              (model_of sm (uiCard sm)))
                  = childModels (models sm (model_of sm (uiCard sm))) @ added \<and>
                distinct added \<and>
                set added = set (filter (\<lambda>m. known_view_type (mtype (models sm m))) ms)
                            - set (childModels (models sm (model_of sm (uiCard sm))))) \<and>
      (\<forall>x\<in>set (filter (\<lambda>m. known_view_type (mtype (models sm m))) ms).
         parent (models (snd (AddUiViewsFromModels dedup ms False sm)) x)
           = Some (model_of sm (uiCard sm))) \<and>
      (\<forall>x. x \<noteq> model_of sm (uiCard sm) \<longrightarrow>
         childModels (models (snd (AddUiViewsFromModels dedup ms False sm)) x)
           = childModels (models sm x)) \<and>
      (\<forall>x. x \<notin> set (filter (\<lambda>m. known_view_type (mtype (models sm m))) ms) \<longrightarrow>
         parent (models (snd (AddUiViewsFromModels dedup ms False sm)) x)
           = parent (models sm x))"
    using AddUiViewsFromModels_tree [of sm dedup ms] by (rule impI)
  show ?thesis by (intro conjI a b c d e f)
qed

text \<open>
  The theorem on the example manager in editing mode, adding the loose button (object
  8): unrecorded, the history stays empty; recorded, it holds the one command; both
  leave the same two UI views. The card model (object 2) then holds the field and the
  button, the button's parent is the card model, the stack's children and the field's
  parent are as before, and the recorded submission leaves the same models.
\<close>

theorem AddUiViewsFromModels_unrecorded_witness:
  "command_processor (snd (AddUiViewsFromModels ex_dedup [8] False ex_editing))
     = \<lparr>commands = [], redoCommands = []\<rparr> \<and>
   command_processor (snd (AddUiViewsFromModels ex_dedup [8] True ex_editing))
     = \<lparr>commands = [AddUiViewsCommand (Some 1) [8]], redoCommands = []\<rparr> \<and>
   uiViews (snd (AddUiViewsFromModels ex_dedup [8] False ex_editing)) = [1, 2] \<and>
   model_of (snd (AddUiViewsFromModels ex_dedup [8] False ex_editing)) 2 = 8 \<and>
   uiViews (snd (AddUiViewsFromModels ex_dedup [8] True ex_editing)) = [1, 2] \<and>
   uiCard ex_editing < nextUid ex_editing \<and> model_of ex_editing (uiCard ex_editing) = 2 \<and>
   childModels (models ex_editing 2) = [4] \<and> parent (models ex_editing 8) = None \<and>
   childModels (models (snd (AddUiViewsFromModels ex_dedup [8] False ex_editing)) 2) = [4, 8] \<and>
   parent (models (snd (AddUiViewsFromModels ex_dedup [8] False ex_editing)) 8) = Some 2 \<and>
   childModels (models (snd (AddUiViewsFromModels ex_dedup [8] False ex_editing)) 0) = [1, 2] \<and>
   parent (models (snd (AddUiViewsFromModels ex_dedup [8] False ex_editing)) 4) = Some 2 \<and>
   models (snd (AddUiViewsFromModels ex_dedup [8] True ex_editing))
     = models (snd (AddUiViewsFromModels ex_dedup [8] False ex_editing))"
proof -
  note t = AddUiViewsFromModels_unrecorded [of ex_dedup "[8]" ex_editing]
  have cp: "command_processor ex_editing = \<lparr>commands = [], redoCommands = []\<rparr>"
    by (simp add: ex_editing_def ex_manager_def)
  have k: "filter (\<lambda>m. known_view_type (mtype (models ex_editing m))) [8] = [8]"
    by (simp add: ex_editing_fields ex_models_cards known_view_type_def)
  from t have a: "command_processor (snd (AddUiViewsFromModels ex_dedup [8] False ex_editing))
     = \<lparr>commands = [], redoCommands = []\<rparr>"
    by (simp add: cp)
  from t have b: "command_processor (snd (AddUiViewsFromModels ex_dedup [8] True ex_editing))
     = \<lparr>commands = [AddUiViewsCommand (Some 1) [8]], redoCommands = []\<rparr>"
    by (simp add: cp ex_editing_fields)
  note t4 = t [THEN conjunct2, THEN conjunct2, THEN conjunct2, THEN conjunct1, unfolded k]
  note t5 = t [THEN conjunct2, THEN conjunct2, THEN conjunct2, THEN conjunct2, THEN conjunct1,
               unfolded k]
  from t4 have c: "uiViews (snd (AddUiViewsFromModels ex_dedup [8] False ex_editing)) = [1, 2]"
    by (simp add: ex_editing_fields)
  from t5 have d: "model_of (snd (AddUiViewsFromModels ex_dedup [8] False ex_editing)) 2 = 8"
    by (simp add: ex_editing_fields)
  from t [THEN conjunct2, THEN conjunct1] c
  have e: "uiViews (snd (AddUiViewsFromModels ex_dedup [8] True ex_editing)) = [1, 2]"
    by simp
  have lt: "uiCard ex_editing < nextUid ex_editing" by (simp add: ex_editing_fields)
  have cm: "model_of ex_editing (uiCard ex_editing) = 2"
    by (simp add: model_of_def ex_editing_fields ex_uis_def)
  have old: "childModels (models ex_editing 2) = [4]"
    by (simp add: ex_editing_fields ex_models_cards)
  have p8: "parent (models ex_editing 8) = None" "parent (models ex_editing 4) = Some 2"
    "childModels (models ex_editing 0) = [1, 2]"
    by (simp_all add: ex_editing_fields ex_models_def blank_model_def)
  note t6 = t [THEN conjunct2, THEN conjunct2, THEN conjunct2, THEN conjunct2, THEN conjunct2,
               THEN mp, OF lt, unfolded k cm old]
  from t6 obtain added where
    n1: "childModels (models (snd (AddUiViewsFromModels ex_dedup [8] False ex_editing)) 2)
         = [4] @ added"
    and n2: "distinct added" and n3: "set added = set [8::nat] - set [4]"
    by blast
  from n3 have n4: "set added = {8}" by simp
  have "added = [8]"
  proof (cases added)
    case Nil
    with n4 show ?thesis by simp
  next
    case (Cons x xs)
    with n4 n2 have "x = 8" "set xs \<subseteq> {8}" "x \<notin> set xs" by auto
    then have "xs = []" by (cases xs) auto
    with \<open>x = 8\<close> Cons show ?thesis by simp
  qed
  with n1 have g: "childModels (models (snd (AddUiViewsFromModels ex_dedup [8] False ex_editing)) 2)
                   = [4, 8]" by simp
  from t6 have h: "parent (models (snd (AddUiViewsFromModels ex_dedup [8] False ex_editing)) 8) = Some 2"
    by simp
  from t6 have "childModels (models (snd (AddUiViewsFromModels ex_dedup [8] False ex_editing)) 0)
                = childModels (models ex_editing 0)" by simp
  then have i: "childModels (models (snd (AddUiViewsFromModels ex_dedup [8] False ex_editing)) 0)
                = [1, 2]" by (simp add: p8)
  from t6 have "parent (models (snd (AddUiViewsFromModels ex_dedup [8] False ex_editing)) 4)
                = parent (models ex_editing 4)" by simp
  then have j: "parent (models (snd (AddUiViewsFromModels ex_dedup [8] False ex_editing)) 4) = Some 2"
    by (simp add: p8)
  from t [THEN conjunct2, THEN conjunct1]
  have l: "models (snd (AddUiViewsFromModels ex_dedup [8] True ex_editing))
     = models (snd (AddUiViewsFromModels ex_dedup [8] False ex_editing))"
    by simp
  show ?thesis by (intro conjI a b c d e lt cm old p8(1) g h i j l)
qed


section \<open>Properties of cardstock/viewer.py\<close>

text \<open>
  C3. In every state with exactly one frame on the call stack, Return (\<^verbatim>\<open>GosubStack\<close>
  without a filename) reports failure and nothing changes: nothing is queued, no frame
  is popped, and the manager with its document, card index and runner is as before.
  \<^verbatim>\<open>PopStack\<close> itself does nothing there either.
\<close>

theorem Return_from_root_fails:
  "length (stackStack vf) = 1 \<Longrightarrow>
     GosubStack fs None cardNumber ioValue vf = (Inr (PyBool False), vf) \<and>
     GosubStack fs (Some []) cardNumber ioValue vf = (Inr (PyBool False), vf) \<and>
     PopStack dedup ioValue isShuttingDown vf = (None, vf)"
  by (simp add: GosubStack_def PopStack_def)

text \<open>
  The theorem on the example frame, which holds one frame: Return reports failure and
  the frame is as before.
\<close>

theorem Return_from_root_fails_witness:
  "length (stackStack ex_frame) = 1 \<and>
   GosubStack ex_fs None 0 (PyInt 7) ex_frame = (Inr (PyBool False), ex_frame) \<and>
   GosubStack ex_fs (Some []) 0 (PyInt 7) ex_frame = (Inr (PyBool False), ex_frame) \<and>
   PopStack ex_dedup (PyInt 7) False ex_frame = (None, ex_frame)"
proof -
  have one: "length (stackStack ex_frame) = 1"
    by (simp add: ex_frame_def)
  from Return_from_root_fails [OF one, of ex_fs 0 "PyInt 7" ex_dedup False] one
  show ?thesis by simp
qed

text \<open>
  C2 at the failing input. The target \<^verbatim>\<open>sub.cds\<close> resolves to a file beside the running
  stack that exists and is not JSON: \<^verbatim>\<open>json.load\<close> raises \<^verbatim>\<open>JSONDecodeError\<close>, which
  \<^verbatim>\<open>except (TypeError, FileNotFoundError)\<close> does not catch, so the call raises instead
  of returning. Nothing is queued and the frame is as before.
\<close>

theorem GosubStack_unparsable_raises:
  "GosubStack ex_fs (Some ''sub.cds'') 0 (PyInt 42) ex_frame = (Inl JSONDecodeError, ex_frame)"
  by (simp add: GosubStack_def ex_fs_def ex_frame_def ex_manager_def isabs_def dirname_def join_def)

text \<open>
  For a target that cannot be located the call does return \<^verbatim>\<open>False\<close>, and for one whose
  JSON value is false it returns \<^verbatim>\<open>None\<close>; in both cases, and in the raising one,
  the frame is returned as it was.
\<close>

lemma GosubStack_failure_leaves_frame:
  "fst (GosubStack fs fname cardNumber ioValue vf) \<noteq> Inr (PyBool True)
   \<Longrightarrow> snd (GosubStack fs fname cardNumber ioValue vf) = vf"
  by (auto simp: GosubStack_def split: option.splits sum.splits file_content.splits if_splits)

lemma GosubStack_missing_file:
  "\<forall>p. fs p = NoSuchFile \<Longrightarrow> f \<noteq> [] \<Longrightarrow>
   GosubStack fs (Some f) cardNumber ioValue vf = (Inr (PyBool False), vf)"
  by (auto simp: GosubStack_def split: option.splits sum.splits)

subsection \<open>Call and Return\<close>

lemma py_index_in_range: "0 \<le> i \<Longrightarrow> i < int (length xs) \<Longrightarrow> py_index xs i = Some (xs ! nat i)"
  by (simp add: py_index_def)

lemma and_then_None: "fst r = None \<Longrightarrow> and_then r f = f (snd r)"
  by (cases r) (simp add: and_then_def)

lemma SetStackModel_True_ok:
  "fst (SetStackModel_True target sm) = None \<and>
   cardIndex (snd (SetStackModel_True target sm)) = None \<and>
   stackModel (snd (SetStackModel_True target sm)) = target \<and>
   uiCard (snd (SetStackModel_True target sm)) = uiCard sm \<and>
   nextUid sm \<le> nextUid (snd (SetStackModel_True target sm)) \<and>
   same_docs (models sm) (models (snd (SetStackModel_True target sm))) \<and>
   (\<forall>r. stackSetupValue (runners (snd (SetStackModel_True target sm)) r)
         = stackSetupValue (runners sm r))"
  by (simp add: SetStackModel_True_def ClearAllViews_rest same_docs_refl)

lemma RunViewer_manager_ok:
  assumes lt: "uiCard sm < nextUid sm" and cards: "childModels (models sm target) \<noteq> []"
  shows "fst (RunViewer_manager dedup hasDesigner rnr target fname (Some ci) ioValue back sm) = None \<and>
         cardIndex (snd (RunViewer_manager dedup hasDesigner rnr target fname (Some ci) ioValue back sm))
           = Some (if 0 \<le> ci \<and> ci < int (length (childModels (models sm target))) then ci else 0) \<and>
         stackModel (snd (RunViewer_manager dedup hasDesigner rnr target fname (Some ci) ioValue back sm)) = target \<and>
         runner (snd (RunViewer_manager dedup hasDesigner rnr target fname (Some ci) ioValue back sm)) = Some rnr \<and>
         filename (snd (RunViewer_manager dedup hasDesigner rnr target fname (Some ci) ioValue back sm)) = fname \<and>
         uiCard (snd (RunViewer_manager dedup hasDesigner rnr target fname (Some ci) ioValue back sm)) = uiCard sm \<and>
         nextUid sm \<le> nextUid (snd (RunViewer_manager dedup hasDesigner rnr target fname (Some ci) ioValue back sm)) \<and>
         same_docs (models sm) (models (snd (RunViewer_manager dedup hasDesigner rnr target fname (Some ci) ioValue back sm))) \<and>
         (\<not> back \<longrightarrow> stackSetupValue (runners (snd (RunViewer_manager dedup hasDesigner rnr target fname (Some ci) ioValue back sm)) rnr) = ioValue) \<and>
         (back \<longrightarrow> calls (runners (snd (RunViewer_manager dedup hasDesigner rnr target fname (Some ci) ioValue back sm)) rnr) \<noteq> [] \<and>
                   last (calls (runners (snd (RunViewer_manager dedup hasDesigner rnr target fname (Some ci) ioValue back sm)) rnr)) = DoReturnFromStack ioValue)"
proof -
  let ?S = "SetStackModel_True target sm"
  let ?s0 = "snd ?S"
  note s = SetStackModel_True_ok [of target sm]
  define s6 where "s6 =
     (let sm1 = ?s0\<lparr>filename := fname\<rparr>;
          sm2 = (if hasDesigner then set_onRunFinished rnr DesignerOnRunnerFinished sm1 else sm1);
          sm3 = (if \<not> back then set_stackSetupValue rnr ioValue sm2 else sm2);
          sm4 = sm3\<lparr>runner := Some rnr\<rparr>;
          sm5 = (if hasDesigner then runner_call rnr AddSyntaxErrors sm4 else sm4)
      in (if \<not> back then runner_call rnr (RunSetup (stackModel sm5)) sm5 else sm5))"
  have s6: "stackModel s6 = target" "cardIndex s6 = None" "models s6 = models ?s0"
    "uiCard s6 = uiCard sm" "nextUid s6 = nextUid ?s0" "runner s6 = Some rnr" "filename s6 = fname"
    "\<not> back \<longrightarrow> stackSetupValue (runners s6 rnr) = ioValue"
    using s by (simp_all add: s6_def Let_def set_onRunFinished_def set_stackSetupValue_def runner_call_def)
  from s have ch0: "childModels (models ?s0 target) = childModels (models sm target)"
    by (simp add: same_docs_def)
  have lt6: "uiCard s6 < nextUid s6" using s s6 lt by simp
  let ?L7 = "LoadCardAtIndex dedup None False s6"
  have new7: "(None::int option) = None \<or>
      (\<exists>i c. (None::int option) = Some i \<and> py_index (childModels (models s6 (stackModel s6))) i = Some c)"
    by simp
  have old7: "isEditing s6 \<or> False \<or> cardIndex s6 = None \<or>
      (\<exists>j c. cardIndex s6 = Some j \<and> py_index (childModels (models s6 (stackModel s6))) j = Some c)"
    using s6 by simp
  note r7 = LoadCardAtIndex_result [OF lt6 new7 old7, of dedup]
  let ?s7 = "snd ?L7"
  from r7 have f7: "fst ?L7 = None" and ci7: "cardIndex ?s7 = None" and ss7: "same_session s6 ?s7"
    by simp_all
  from ss7 s6 ch0 have ch7: "childModels (models ?s7 (stackModel ?s7)) = childModels (models sm target)"
    by (simp add: same_session_def same_docs_def)
  let ?ci1 = "if 0 \<le> ci \<and> ci < int (length (childModels (models sm target))) then ci else 0"
  have rng: "0 \<le> ?ci1 \<and> ?ci1 < int (length (childModels (models sm target)))"
    using cards by simp
  have lt7: "uiCard ?s7 < nextUid ?s7" using ss7 lt6 by (simp add: same_session_def)
  have c7: "py_index (childModels (models ?s7 (stackModel ?s7))) ?ci1
            = Some (childModels (models sm target) ! nat ?ci1)"
    unfolding ch7 using rng by (intro py_index_in_range) simp_all
  let ?L8 = "LoadCardAtIndex dedup (Some ?ci1) False ?s7"
  have new8: "Some ?ci1 = None \<or>
      (\<exists>i c. Some ?ci1 = Some i \<and> py_index (childModels (models ?s7 (stackModel ?s7))) i = Some c)"
    using c7 by blast
  have old8: "isEditing ?s7 \<or> False \<or> cardIndex ?s7 = None \<or>
      (\<exists>j c. cardIndex ?s7 = Some j \<and> py_index (childModels (models ?s7 (stackModel ?s7))) j = Some c)"
    using ci7 by simp
  note r8 = LoadCardAtIndex_result [OF lt7 new8 old8, of dedup]
  let ?s8 = "snd ?L8"
  from r8 have f8: "fst ?L8 = None" and ci8: "cardIndex ?s8 = Some ?ci1" and ss8: "same_session ?s7 ?s8"
    by simp_all
  have ss: "same_session s6 ?s8" by (rule same_session_trans [OF ss7 ss8])
  define fin where "fin = (if back then runner_call rnr (DoReturnFromStack ioValue) ?s8 else ?s8)"
  have RV: "RunViewer_manager dedup hasDesigner rnr target fname (Some ci) ioValue back sm = (None, fin)"
  proof -
    have "RunViewer_manager dedup hasDesigner rnr target fname (Some ci) ioValue back sm =
          and_then (LoadCardAtIndex dedup None False s6) (\<lambda>sm7.
            (let ci1 = (if 0 \<le> ci \<and> ci < int (length (childModels (models sm7 (stackModel sm7))))
                        then ci else 0)
             in and_then (LoadCardAtIndex dedup (Some ci1) False sm7) (\<lambda>sm8.
                  (None, if back then runner_call rnr (DoReturnFromStack ioValue) sm8 else sm8))))"
      using s by (simp add: RunViewer_manager_def and_then_None s6_def Let_def)
    also have "\<dots> = and_then ?L8 (\<lambda>sm8.
                  (None, if back then runner_call rnr (DoReturnFromStack ioValue) sm8 else sm8))"
      using f7 ch7 by (simp add: and_then_None Let_def)
    also have "\<dots> = (None, fin)"
      using f8 by (simp add: and_then_None fin_def)
    finally show ?thesis .
  qed
  have fs: "same_session ?s8 fin" and fc: "cardIndex fin = cardIndex ?s8"
    by (simp_all add: fin_def)
  have all: "same_session s6 fin" by (rule same_session_trans [OF ss fs])
  from all have flds: "runner fin = runner s6" "filename fin = filename s6"
    "stackModel fin = stackModel s6" "uiCard fin = uiCard s6" "nextUid s6 \<le> nextUid fin"
    "same_docs (models s6) (models fin)"
    "stackSetupValue (runners fin rnr) = stackSetupValue (runners s6 rnr)"
    by (simp_all add: same_session_def)
  have docs: "same_docs (models sm) (models fin)"
  proof -
    from s s6 have "same_docs (models sm) (models s6)" by simp
    from this flds(6) show ?thesis by (rule same_docs_trans)
  qed
  have ret: "back \<longrightarrow> calls (runners fin rnr) \<noteq> [] \<and> last (calls (runners fin rnr)) = DoReturnFromStack ioValue"
    by (simp add: fin_def runner_call_def)
  have sv: "\<not> back \<longrightarrow> stackSetupValue (runners fin rnr) = ioValue"
    using flds(7) s6(8) by simp
  have nu: "nextUid sm \<le> nextUid fin" using flds(5) s6(5) s by simp
  have a1: "cardIndex fin = Some ?ci1" using fc ci8 by simp
  have a2: "stackModel fin = target" using flds s6 by simp
  have a3: "runner fin = Some rnr" using flds s6 by simp
  have a4: "filename fin = fname" using flds s6 by simp
  have a5: "uiCard fin = uiCard sm" using flds s6 by simp
  show ?thesis
    unfolding RV fst_conv snd_conv by (intro conjI a1 a2 a3 a4 a5 nu docs sv ret refl)
qed

lemma on_manager_eq:
  "on_manager f vf = (fst (f (stackManager vf)), vf\<lparr>stackManager := snd (f (stackManager vf))\<rparr>)"
  by (simp add: on_manager_def split_beta)

lemma PushStack_ok:
  assumes st: "stackStack vf \<noteq> []"
    and r: "runner (stackManager vf) = Some pr"
    and lt: "uiCard (stackManager vf) < nextUid (stackManager vf)"
    and cards: "childModels (models (stackManager vf) sub) \<noteq> []"
  shows "fst (PushStack dedup sub fname cidx v vf) = None \<and>
         stackStack (snd (PushStack dedup sub fname cidx v vf)) =
           butlast (stackStack vf) @
             [(last (stackStack vf))\<lparr>f_cardIndex := cardIndex (stackManager vf)\<rparr>,
              \<lparr>f_runner = nextRid vf, f_stackModel = sub, f_filename = fname,
                f_cardIndex = Some cidx\<rparr>] \<and>
         stackModel (stackManager (snd (PushStack dedup sub fname cidx v vf))) = sub \<and>
         runner (stackManager (snd (PushStack dedup sub fname cidx v vf))) = Some (nextRid vf) \<and>
         stackSetupValue (runners (stackManager (snd (PushStack dedup sub fname cidx v vf))) (nextRid vf)) = v \<and>
         uiCard (stackManager (snd (PushStack dedup sub fname cidx v vf))) = uiCard (stackManager vf) \<and>
         nextUid (stackManager vf) \<le> nextUid (stackManager (snd (PushStack dedup sub fname cidx v vf))) \<and>
         same_docs (models (stackManager vf)) (models (stackManager (snd (PushStack dedup sub fname cidx v vf))))"
proof -
  define sm5 where "sm5 = (runner_call pr StopTimers (stackManager vf))
                            \<lparr>runners := (runners (runner_call pr StopTimers (stackManager vf)))
                                          (nextRid vf := new_Runner)\<rparr>"
  define frames where "frames = butlast (stackStack vf) @
             [(last (stackStack vf))\<lparr>f_cardIndex := cardIndex (stackManager vf)\<rparr>,
              \<lparr>f_runner = nextRid vf, f_stackModel = sub, f_filename = fname,
                f_cardIndex = Some cidx\<rparr>]"
  define vf5 where "vf5 = vf\<lparr>stackManager := sm5, nextRid := Suc (nextRid vf), stackStack := frames\<rparr>"
  have P: "PushStack dedup sub fname cidx v vf =
           RunViewer dedup (nextRid vf) sub fname (Some cidx) v False vf5"
    using st r
    by (simp add: PushStack_def suspend_top_def and_then_def Let_def vf5_def sm5_def frames_def)
  have m5: "uiCard sm5 = uiCard (stackManager vf)" "nextUid sm5 = nextUid (stackManager vf)"
    "models sm5 = models (stackManager vf)"
    by (simp_all add: sm5_def)
  have lt5: "uiCard sm5 < nextUid sm5" using lt m5 by simp
  have c5: "childModels (models sm5 sub) \<noteq> []" using cards m5 by simp
  note rv = RunViewer_manager_ok [OF lt5 c5, of dedup "designer vf5" "nextRid vf" fname cidx v False]
  have v5: "stackManager vf5 = sm5" "stackStack vf5 = frames" by (simp_all add: vf5_def)
  show ?thesis
    unfolding P RunViewer_def on_manager_eq fst_conv snd_conv v5
    using rv m5 by (simp add: v5 frames_def)
qed

lemma pop_teardown:
  assumes "runner sm = Some nr"
  shows "uiCard (Runner_CleanupFromRun nr (set_onRunFinished nr (PopStackOnFinished sub) sm)) = uiCard sm \<and>
         nextUid (Runner_CleanupFromRun nr (set_onRunFinished nr (PopStackOnFinished sub) sm)) = nextUid sm \<and>
         (\<forall>m. m \<noteq> sub \<longrightarrow>
            models (Runner_CleanupFromRun nr (set_onRunFinished nr (PopStackOnFinished sub) sm)) m = models sm m)"
  by (simp add: Runner_CleanupFromRun_def run_onRunFinished_def set_onRunFinished_def
        runner_call_def DismantleChildTree_def SetDown_def)

lemma PopStack_ok:
  assumes len: "length (stackStack vf) > 1"
    and r: "runner (stackManager vf) = Some nr"
    and lt: "uiCard (stackManager vf) < nextUid (stackManager vf)"
    and below: "last (butlast (stackStack vf)) =
                  \<lparr>f_runner = pr, f_stackModel = pm, f_filename = pf, f_cardIndex = Some ci\<rparr>"
    and ne: "pm \<noteq> stackModel (stackManager vf)"
    and ci: "0 \<le> ci" "ci < int (length (childModels (models (stackManager vf) pm)))"
  shows "fst (PopStack dedup rv False vf) = None \<and>
         stackStack (snd (PopStack dedup rv False vf)) = butlast (stackStack vf) \<and>
         stackModel (stackManager (snd (PopStack dedup rv False vf))) = pm \<and>
         runner (stackManager (snd (PopStack dedup rv False vf))) = Some pr \<and>
         filename (stackManager (snd (PopStack dedup rv False vf))) = pf \<and>
         cardIndex (stackManager (snd (PopStack dedup rv False vf))) = Some ci \<and>
         calls (runners (stackManager (snd (PopStack dedup rv False vf))) pr) \<noteq> [] \<and>
         last (calls (runners (stackManager (snd (PopStack dedup rv False vf))) pr)) = DoReturnFromStack rv"
proof -
  define sm2 where "sm2 = Runner_CleanupFromRun nr
      (set_onRunFinished nr (PopStackOnFinished (stackModel (stackManager vf))) (stackManager vf))"
  define smB where "smB = SetBackUp pm sm2"
  define vfB where "vfB = vf\<lparr>stackStack := butlast (stackStack vf), stackManager := smB\<rparr>"
  have P: "PopStack dedup rv False vf = RunViewer dedup pr pm pf (Some ci) rv True vfB"
    using len r below
    by (simp add: PopStack_def Let_def vfB_def smB_def sm2_def)
  note td = pop_teardown [OF r, of "stackModel (stackManager vf)"]
  have mB: "uiCard smB = uiCard (stackManager vf)" "nextUid smB = nextUid (stackManager vf)"
    "childModels (models smB pm) = childModels (models (stackManager vf) pm)"
    using td ne by (simp_all add: smB_def sm2_def SetBackUp_def)
  have ltB: "uiCard smB < nextUid smB" using lt mB by simp
  have cB: "childModels (models smB pm) \<noteq> []" using ci mB by auto
  note rvm = RunViewer_manager_ok [OF ltB cB, of dedup "designer vfB" pr pf ci rv True]
  have vB: "stackManager vfB = smB" "stackStack vfB = butlast (stackStack vf)"
    by (simp_all add: vfB_def)
  show ?thesis
    unfolding P RunViewer_def on_manager_eq fst_conv snd_conv vB
    using rvm mB ci by (simp add: vB)
qed

text \<open>
  C1. Let a frame be running: it is on top of the call stack with its runner and stack
  model attached to the manager, showing the card at a valid index. Pushing a sub-stack
  (a different stack model with at least one card) with an input value succeeds, adds one
  frame, and the script context of the sub-document reads that value as its setup
  value. Popping with an output value then succeeds and leaves the original frames, the
  suspended one holding the card index it was suspended at; the manager shows the
  parent's stack model with the parent's runner at that card index, and the last call
  made to the parent's runner delivers the output value as the return value.
\<close>

theorem Call_Return_round_trip:
  assumes st: "stackStack vf \<noteq> []"
    and r: "runner (stackManager vf) = Some pr"
    and top: "f_runner (last (stackStack vf)) = pr"
             "f_stackModel (last (stackStack vf)) = stackModel (stackManager vf)"
    and ci: "cardIndex (stackManager vf) = Some ci" "0 \<le> ci"
            "ci < int (length (childModels (models (stackManager vf) (stackModel (stackManager vf)))))"
    and sub: "sub \<noteq> stackModel (stackManager vf)"
             "childModels (models (stackManager vf) sub) \<noteq> []"
    and lt: "uiCard (stackManager vf) < nextUid (stackManager vf)"
  shows "fst (PushStack dedup sub fname cidx v vf) = None \<and>
         length (stackStack (snd (PushStack dedup sub fname cidx v vf))) = Suc (length (stackStack vf)) \<and>
         stackModel (stackManager (snd (PushStack dedup sub fname cidx v vf))) = sub \<and>
         get_setup_value (stackManager (snd (PushStack dedup sub fname cidx v vf))) = Inr v \<and>
         fst (PopStack dedup rv False (snd (PushStack dedup sub fname cidx v vf))) = None \<and>
         stackStack (snd (PopStack dedup rv False (snd (PushStack dedup sub fname cidx v vf))))
           = butlast (stackStack vf) @ [(last (stackStack vf))\<lparr>f_cardIndex := Some ci\<rparr>] \<and>
         stackModel (stackManager (snd (PopStack dedup rv False (snd (PushStack dedup sub fname cidx v vf)))))
           = stackModel (stackManager vf) \<and>
         runner (stackManager (snd (PopStack dedup rv False (snd (PushStack dedup sub fname cidx v vf)))))
           = Some pr \<and>
         cardIndex (stackManager (snd (PopStack dedup rv False (snd (PushStack dedup sub fname cidx v vf)))))
           = Some ci \<and>
         calls (runners (stackManager (snd (PopStack dedup rv False (snd (PushStack dedup sub fname cidx v vf))))) pr) \<noteq> [] \<and>
         last (calls (runners (stackManager (snd (PopStack dedup rv False (snd (PushStack dedup sub fname cidx v vf))))) pr))
           = DoReturnFromStack rv"
proof -
  define vf1 where "vf1 = snd (PushStack dedup sub fname cidx v vf)"
  note push = PushStack_ok [OF st r lt sub(2), of dedup fname cidx v, folded vf1_def]
  from push have p1: "fst (PushStack dedup sub fname cidx v vf) = None"
    and frames: "stackStack vf1 = butlast (stackStack vf) @
             [(last (stackStack vf))\<lparr>f_cardIndex := cardIndex (stackManager vf)\<rparr>,
              \<lparr>f_runner = nextRid vf, f_stackModel = sub, f_filename = fname,
                f_cardIndex = Some cidx\<rparr>]"
    and sm1: "stackModel (stackManager vf1) = sub"
    and r1: "runner (stackManager vf1) = Some (nextRid vf)"
    and sv: "stackSetupValue (runners (stackManager vf1) (nextRid vf)) = v"
    and u1: "uiCard (stackManager vf1) = uiCard (stackManager vf)"
    and n1: "nextUid (stackManager vf) \<le> nextUid (stackManager vf1)"
    and d1: "same_docs (models (stackManager vf)) (models (stackManager vf1))"
    by simp_all
  let ?pm = "stackModel (stackManager vf)"
  have len1: "length (stackStack vf1) > 1" using frames by simp
  have l1: "length (stackStack vf1) = Suc (length (stackStack vf))" using frames st by simp
  have lt1: "uiCard (stackManager vf1) < nextUid (stackManager vf1)" using u1 n1 lt by simp
  have bl: "butlast (stackStack vf1) = butlast (stackStack vf) @
             [(last (stackStack vf))\<lparr>f_cardIndex := Some ci\<rparr>]"
    using frames ci(1) by (simp add: butlast_append)
  have below: "last (butlast (stackStack vf1)) =
     \<lparr>f_runner = pr, f_stackModel = ?pm, f_filename = f_filename (last (stackStack vf)),
      f_cardIndex = Some ci\<rparr>"
    unfolding bl using top by simp
  have ne1: "?pm \<noteq> stackModel (stackManager vf1)" using sm1 sub(1) by simp
  have ch: "childModels (models (stackManager vf1) ?pm) = childModels (models (stackManager vf) ?pm)"
    using d1 by (simp add: same_docs_def)
  have ci1: "ci < int (length (childModels (models (stackManager vf1) ?pm)))"
    using ci(3) ch by simp
  note pop = PopStack_ok [OF len1 r1 lt1 below ne1 ci(2) ci1, of dedup rv]
  have g: "get_setup_value (stackManager vf1) = Inr v"
    using r1 sv by (simp add: get_setup_value_def)
  from pop bl p1 l1 sm1 g show ?thesis
    unfolding vf1_def [symmetric] by simp
qed

text \<open>
  The theorem on the example viewer, which shows the card at index 1 of the main stack:
  the sub-stack (object 5) is called with 42 and returns 7.
\<close>

theorem Call_Return_round_trip_witness:
  "stackStack ex_frame \<noteq> [] \<and>
   cardIndex (stackManager ex_frame) = Some 1 \<and>
   get_setup_value (stackManager (snd (PushStack ex_dedup 5 (Some ''/home/user/sub.cds'') 0 (PyInt 42) ex_frame)))
     = Inr (PyInt 42) \<and>
   length (stackStack (snd (PushStack ex_dedup 5 (Some ''/home/user/sub.cds'') 0 (PyInt 42) ex_frame))) = 2 \<and>
   fst (PopStack ex_dedup (PyInt 7) False
          (snd (PushStack ex_dedup 5 (Some ''/home/user/sub.cds'') 0 (PyInt 42) ex_frame))) = None \<and>
   length (stackStack (snd (PopStack ex_dedup (PyInt 7) False
          (snd (PushStack ex_dedup 5 (Some ''/home/user/sub.cds'') 0 (PyInt 42) ex_frame))))) = 1 \<and>
   stackModel (stackManager (snd (PopStack ex_dedup (PyInt 7) False
          (snd (PushStack ex_dedup 5 (Some ''/home/user/sub.cds'') 0 (PyInt 42) ex_frame))))) = 0 \<and>
   cardIndex (stackManager (snd (PopStack ex_dedup (PyInt 7) False
          (snd (PushStack ex_dedup 5 (Some ''/home/user/sub.cds'') 0 (PyInt 42) ex_frame))))) = Some 1 \<and>
   last (calls (runners (stackManager (snd (PopStack ex_dedup (PyInt 7) False
          (snd (PushStack ex_dedup 5 (Some ''/home/user/sub.cds'') 0 (PyInt 42) ex_frame))))) 0))
     = DoReturnFromStack (PyInt 7)"
proof -
  have sm: "stackManager ex_frame = ex_manager" by (simp add: ex_frame_def)
  have h1: "stackStack ex_frame \<noteq> []" by (simp add: ex_frame_def)
  have h2: "runner (stackManager ex_frame) = Some 0" by (simp add: sm ex_manager_fields)
  have h3: "f_runner (last (stackStack ex_frame)) = 0" by (simp add: ex_frame_def)
  have h4: "f_stackModel (last (stackStack ex_frame)) = stackModel (stackManager ex_frame)"
    by (simp add: ex_frame_def ex_manager_fields)
  have h5: "cardIndex (stackManager ex_frame) = Some 1" by (simp add: sm ex_manager_fields)
  have h6: "(0::int) \<le> 1" by simp
  have h7: "1 < int (length (childModels (models (stackManager ex_frame) (stackModel (stackManager ex_frame)))))"
    by (simp add: sm ex_manager_fields ex_models_cards)
  have h8: "5 \<noteq> stackModel (stackManager ex_frame)" by (simp add: sm ex_manager_fields)
  have h9: "childModels (models (stackManager ex_frame) 5) \<noteq> []"
    by (simp add: sm ex_manager_fields ex_models_cards)
  have h10: "uiCard (stackManager ex_frame) < nextUid (stackManager ex_frame)"
    by (simp add: sm ex_manager_fields)
  have one: "length (stackStack ex_frame) = 1" by (simp add: ex_frame_def)
  note t = Call_Return_round_trip [OF h1 h2 h3 h4 h5 h6 h7 h8 h9 h10,
             of ex_dedup "Some ''/home/user/sub.cds''" 0 "PyInt 42" "PyInt 7"]
  from t h1 h5 one show ?thesis by (simp add: sm ex_manager_fields)
qed

end
